theory Spec2Isabelle
  imports Complex_Main
begin

section \<open>The business-cycle model of Imrohoroglu1989.ipynb\<close>

text \<open>
  The notebook computes with IEEE doubles.  The embedding computes with exact reals:
  \<open>+\<close>, \<open>-\<close>, \<open>*\<close>, \<open>/\<close> are the field operations, \<open>np.log\<close> is \<open>ln\<close>, and a float
  power \<open>x ** y\<close> with a positive base is \<open>x powr y\<close>.  Every place where the source
  raises is a branch returning \<open>Inl\<close>; a place where Python returns a complex number is
  the branch \<open>Inl NotReal\<close>.  Where numba or numpy go on computing with an infinity or a
  nan, so does the embedding (\<open>float64\<close> below).
  Arrays are lists (of lists), indexed from 0; \<open>np.empty\<close> leaves the content open and
  is modelled by zeros, every cell being written before it is read.  The numba
  decorators and \<open>prange\<close> are read with their sequential meaning.
\<close>

subsection \<open>Errors, loops, arrays\<close>

datatype error =
    ZeroDivisionError
  | ValueError string
  | RuntimeError string
  | UnboundLocalError string
  | IndexError
  | NotReal

text \<open>A \<open>for\<close> loop over a list of indices threading a state; a raise ends it.\<close>

fun for_loop :: "'i list \<Rightarrow> ('i \<Rightarrow> 's \<Rightarrow> error + 's) \<Rightarrow> 's \<Rightarrow> error + 's" where
  "for_loop [] body st = Inr st"
| "for_loop (i # rest) body st =
     (case body i st of Inl e \<Rightarrow> Inl e | Inr st' \<Rightarrow> for_loop rest body st')"

type_synonym array1 = "real list"
type_synonym array2 = "real list list"
type_synonym array3 = "real list list list"

definition empty2 :: "nat \<Rightarrow> nat \<Rightarrow> array2" where
  "empty2 n m = replicate n (replicate m 0)"

definition empty3 :: "nat \<Rightarrow> nat \<Rightarrow> nat \<Rightarrow> array3" where
  "empty3 n m k = replicate n (empty2 m k)"

text \<open>\<open>A[i, j] = x\<close> and \<open>A[i, j, k] = x\<close>.\<close>

definition set2 :: "'a list list \<Rightarrow> nat \<Rightarrow> nat \<Rightarrow> 'a \<Rightarrow> 'a list list" where
  "set2 A i j x = A[i := (A ! i)[j := x]]"

definition set3 :: "'a list list list \<Rightarrow> nat \<Rightarrow> nat \<Rightarrow> nat \<Rightarrow> 'a \<Rightarrow> 'a list list list" where
  "set3 A i j k x = A[i := set2 (A ! i) j k x]"

definition shape2 :: "nat \<Rightarrow> nat \<Rightarrow> 'a list list \<Rightarrow> bool" where
  "shape2 n m A \<longleftrightarrow> length A = n \<and> list_all (\<lambda>row. length row = m) A"

definition shape3 :: "nat \<Rightarrow> nat \<Rightarrow> nat \<Rightarrow> 'a list list list \<Rightarrow> bool" where
  "shape3 n m k A \<longleftrightarrow> length A = n \<and> list_all (shape2 m k) A"

text \<open>\<open>np.max\<close> of a one-dimensional array; numpy and numba raise on an empty one.\<close>

definition np_max :: "'a::linorder list \<Rightarrow> error + 'a" where
  "np_max xs =
     (case xs of
        [] \<Rightarrow> Inl (ValueError ''zero-size array to reduction operation maximum which has no identity'')
      | x # rest \<Rightarrow> Inr (fold max rest x))"

text \<open>\<open>np.argmax\<close>: the first index holding the maximum.\<close>

fun first_index :: "'a \<Rightarrow> 'a list \<Rightarrow> nat" where
  "first_index m [] = 0"
| "first_index m (x # xs) = (if x = m then 0 else Suc (first_index m xs))"

definition np_argmax :: "'a::linorder list \<Rightarrow> error + nat" where
  "np_argmax xs =
     (case np_max xs of Inl e \<Rightarrow> Inl (ValueError ''attempt to get argmax of an empty sequence'')
      | Inr m \<Rightarrow> Inr (first_index m xs))"

text \<open>\<open>np.argwhere(xs > 0)\<close> on a one-dimensional array: the indices, ascending.\<close>

definition argwhere_pos :: "array1 \<Rightarrow> nat list" where
  "argwhere_pos xs = filter (\<lambda>i. xs ! i > 0) [0..<length xs]"

text \<open>The product \<open>xs @ ys\<close> of two vectors.\<close>

definition dot :: "array1 \<Rightarrow> array1 \<Rightarrow> real" where
  "dot xs ys = sum_list (map2 (*) xs ys)"

text \<open>\<open>np.max(np.abs(A - B))\<close> and \<open>np.sum(A * B)\<close> for two arrays of one shape.\<close>

definition sup_dist :: "array2 \<Rightarrow> array2 \<Rightarrow> error + real" where
  "sup_dist A B = np_max (concat (map2 (map2 (\<lambda>x y. \<bar>x - y\<bar>)) A B))"

definition sum_prod :: "array2 \<Rightarrow> array2 \<Rightarrow> real" where
  "sum_prod A B = sum_list (concat (map2 (map2 (*)) A B))"

definition sum2 :: "array2 \<Rightarrow> real" where
  "sum2 A = sum_list (concat A)"

text \<open>
  A Python float power.  With a positive base it is \<open>powr\<close>; \<open>0.0 ** y\<close> raises for a
  negative \<open>y\<close>; a negative base with an exponent that is no integer gives a complex
  number, which the real-valued model marks \<open>NotReal\<close>.
\<close>

definition py_pow :: "real \<Rightarrow> real \<Rightarrow> error + real" where
  "py_pow x y =
     (if 0 < x then Inr (x powr y)
      else if x = 0 then
        (if y < 0 then Inl ZeroDivisionError else if y = 0 then Inr 1 else Inr 0)
      else if y \<in> \<int> then Inr (power_int x \<lfloor>y\<rfloor>)
      else Inl NotReal)"

subsection \<open>Infinities and nans\<close>

text \<open>
  The compiled functions of numba and the scalars of numpy do not raise on a division
  by zero or on a power of zero: the result is an infinity or a nan, and the computation
  goes on with it.  Such a value is a \<open>float64\<close>: a real, an infinity of either sign, or
  a nan.  The operations are IEEE's, with exact reals for the finite values; a zero has
  no sign and acts as \<open>+0.0\<close>.
\<close>

datatype float64 = Finite real | PosInf | NegInf | NaN

fun fl_neg :: "float64 \<Rightarrow> float64" where
  "fl_neg (Finite x) = Finite (- x)"
| "fl_neg PosInf = NegInf"
| "fl_neg NegInf = PosInf"
| "fl_neg NaN = NaN"

fun fl_add :: "float64 \<Rightarrow> float64 \<Rightarrow> float64" where
  "fl_add (Finite x) (Finite y) = Finite (x + y)"
| "fl_add NaN y = NaN"
| "fl_add x NaN = NaN"
| "fl_add PosInf NegInf = NaN"
| "fl_add NegInf PosInf = NaN"
| "fl_add PosInf y = PosInf"
| "fl_add NegInf y = NegInf"
| "fl_add x PosInf = PosInf"
| "fl_add x NegInf = NegInf"

definition fl_sub :: "float64 \<Rightarrow> float64 \<Rightarrow> float64" where
  "fl_sub x y = fl_add x (fl_neg y)"

text \<open>The product of an infinity and a real has the sign of the real, and is a nan at zero.\<close>

definition inf_times :: "float64 \<Rightarrow> real \<Rightarrow> float64" where
  "inf_times i x = (if 0 < x then i else if x < 0 then fl_neg i else NaN)"

fun fl_mul :: "float64 \<Rightarrow> float64 \<Rightarrow> float64" where
  "fl_mul (Finite x) (Finite y) = Finite (x * y)"
| "fl_mul NaN y = NaN"
| "fl_mul x NaN = NaN"
| "fl_mul (Finite x) y = inf_times y x"
| "fl_mul x (Finite y) = inf_times x y"
| "fl_mul PosInf y = y"
| "fl_mul NegInf y = fl_neg y"

text \<open>\<open>x < y\<close>: a comparison with a nan is false.\<close>

fun fl_less :: "float64 \<Rightarrow> float64 \<Rightarrow> bool" where
  "fl_less (Finite x) (Finite y) = (x < y)"
| "fl_less NaN y = False"
| "fl_less x NaN = False"
| "fl_less PosInf y = False"
| "fl_less x NegInf = False"
| "fl_less x PosInf = True"
| "fl_less NegInf y = True"

text \<open>Python's \<open>max(a, b)\<close>, which numba compiles as it is: \<open>b\<close> if \<open>b > a\<close>, else \<open>a\<close>.\<close>

definition py_max :: "float64 \<Rightarrow> float64 \<Rightarrow> float64" where
  "py_max a b = (if fl_less a b then b else a)"

text \<open>
  The power \<open>x ** y\<close> of a float and a finite float, as C's \<open>pow\<close> computes it for numba
  and numpy: 1 for \<open>y = 0\<close>; an infinity for zero to a negative power; a nan for a
  negative base with an exponent that is no integer.
\<close>

fun fl_pow :: "float64 \<Rightarrow> real \<Rightarrow> float64" where
  "fl_pow (Finite x) y =
     (if y = 0 then Finite 1
      else if 0 < x then Finite (x powr y)
      else if x = 0 then (if y < 0 then PosInf else Finite 0)
      else if y = of_int \<lfloor>y\<rfloor> then Finite (power_int x \<lfloor>y\<rfloor>)
      else NaN)"
| "fl_pow PosInf y = (if y = 0 then Finite 1 else if y < 0 then Finite 0 else PosInf)"
| "fl_pow NegInf y =
     (if y = 0 then Finite 1 else if y < 0 then Finite 0
      else if y = of_int \<lfloor>y\<rfloor> \<and> odd \<lfloor>y\<rfloor> then NegInf else PosInf)"
| "fl_pow NaN y = (if y = 0 then Finite 1 else NaN)"

text \<open>The quotient \<open>x / y\<close> of two finite numpy floats.\<close>

definition fl_div :: "real \<Rightarrow> real \<Rightarrow> float64" where
  "fl_div x y =
     (if y \<noteq> 0 then Finite (x / y)
      else if 0 < x then PosInf else if x < 0 then NegInf else NaN)"

subsection \<open>The grid\<close>

text \<open>
  \<open>np.linspace(start, stop, num)\<close> as numpy documents it: \<open>num\<close> points, the end point
  included, and a ValueError for a negative \<open>num\<close>.
\<close>

definition linspace :: "real \<Rightarrow> real \<Rightarrow> int \<Rightarrow> error + array1" where
  "linspace start stop num =
     (if num < 0 then Inl (ValueError ''Number of samples must be non-negative'')
      else if num = 1 then Inr [start]
      else Inr (map (\<lambda>i. start + real i * ((stop - start) / real_of_int (num - 1)))
                  [0..<nat num]))"

subsection \<open>Model configuration: \<open>BusinessCycleModel.__init__\<close>\<close>

record BusinessCycleModel =
  period :: real
  beta :: real
  periods_in_a_year :: real
  R_save :: real
  R_borrow :: real
  sigma :: real
  Na :: nat
  a_min :: real
  a_max :: real
  P :: array2
  Ns :: nat
  Ns_label :: "string list"
  a_vals :: array1
  y_vals :: array1

definition P_business_cycle :: array2 where
  "P_business_cycle =
     [[0.9141, 0.0234, 0.0587, 0.0038],
      [0.5625, 0.3750, 0.0269, 0.0356],
      [0.0608, 0.0016, 0.8813, 0.0563],
      [0.0375, 0.0250, 0.4031, 0.5344]]"

definition P_no_business_cycle :: array2 where
  "P_no_business_cycle =
     [[0.9565, 0.0435],
      [0.5000, 0.5000]]"

text \<open>
  The constructor, in the order of its statements: \<open>52 / period\<close> raises for a zero
  period, the power for \<open>R_borrow\<close> can fail, the transition matrix is one of the two
  literals, \<open>np.linspace\<close> raises for a negative \<open>Na\<close>.  The arguments are those of the
  source (\<open>verbose\<close> only prints and is left out); \<open>Na\<close> is a Python int.
\<close>

definition BusinessCycleModel_init ::
  "real \<Rightarrow> real \<Rightarrow> real \<Rightarrow> real \<Rightarrow> real \<Rightarrow> real \<Rightarrow> real \<Rightarrow> bool \<Rightarrow> real \<Rightarrow> real \<Rightarrow> int
     \<Rightarrow> error + BusinessCycleModel" where
  "BusinessCycleModel_init period' r_save r_borrow y theta beta' sigma' business_cycle
       a_max' a_min' Na' =
     (if period' = 0 then Inl ZeroDivisionError
      else
        let piy = 52 / period' in
        case py_pow (1 + r_borrow) (1 / piy) of
          Inl e \<Rightarrow> Inl e
        | Inr Rb \<Rightarrow>
            let P' = (if business_cycle then P_business_cycle else P_no_business_cycle);
                Ns' = (if business_cycle then 4 else 2 :: nat);
                labels = (if business_cycle then [''ge'', ''gu'', ''be'', ''bu'']
                          else [''e'', ''u''])
            in
            case linspace a_min' a_max' Na' of
              Inl e \<Rightarrow> Inl e
            | Inr av \<Rightarrow>
                Inr \<lparr> period = period', beta = beta', periods_in_a_year = piy,
                      R_save = 1 + r_save, R_borrow = Rb, sigma = sigma',
                      Na = nat Na', a_min = a_min', a_max = a_max',
                      P = P', Ns = Ns', Ns_label = labels,
                      a_vals = av,
                      y_vals = concat (replicate (Ns' div 2) [y, y * theta]) \<rparr>)"

text \<open>The constructor with the default of every argument the caller does not give.\<close>

definition BusinessCycleModel_default :: "real \<Rightarrow> bool \<Rightarrow> real \<Rightarrow> real \<Rightarrow> int
     \<Rightarrow> error + BusinessCycleModel" where
  "BusinessCycleModel_default sigma' business_cycle a_max' a_min' Na' =
     BusinessCycleModel_init 6 0 0.08 1 0.25 0.995 sigma' business_cycle a_max' a_min' Na'"

text \<open>The shapes the constructor gives the arrays of a model.\<close>

definition bcm_shapes :: "BusinessCycleModel \<Rightarrow> bool" where
  "bcm_shapes bcm \<longleftrightarrow>
     length (a_vals bcm) = Na bcm \<and> length (y_vals bcm) = Ns bcm \<and> shape2 (Ns bcm) (Ns bcm) (P bcm)"

subsection \<open>Utility and budget: \<open>R_func\<close>, \<open>U_func\<close>, \<open>util\<close>\<close>

definition R_func :: "BusinessCycleModel \<Rightarrow> real \<Rightarrow> real" where
  "R_func bcm a = (if a \<ge> 0 then R_save bcm else R_borrow bcm)"

text \<open>\<open>U_func\<close> is only called with \<open>c > 0\<close>, where \<open>ln\<close> and \<open>powr\<close> are the source's operations.\<close>

definition U_func :: "real \<Rightarrow> real \<Rightarrow> real" where
  "U_func c sigma' = (if sigma' = 1 then ln c else c powr (1 - sigma') / (1 - sigma'))"

text \<open>
  The body of the innermost loop of \<open>util\<close>: the float division raises for \<open>R = 0\<close>
  (numba's Python error model); a consumption \<open>c0 \<le> 0\<close> stores the sentinel.
\<close>

definition util_body :: "BusinessCycleModel \<Rightarrow> nat \<Rightarrow> nat \<Rightarrow> nat \<Rightarrow> array3 \<times> array3
     \<Rightarrow> error + array3 \<times> array3" where
  "util_body bcm a0 s0 a1 = (\<lambda>(c, u).
     let R = R_func bcm (a_vals bcm ! a1) in
     if R = 0 then Inl ZeroDivisionError
     else
       let c0 = a_vals bcm ! a0 + y_vals bcm ! s0 - a_vals bcm ! a1 / R;
           c' = set3 c a0 s0 a1 c0
       in if c0 \<le> 0 then Inr (c', set3 u a0 s0 a1 (- (10 ^ 20)))
          else Inr (c', set3 u a0 s0 a1 (U_func c0 (sigma bcm))))"

definition util :: "BusinessCycleModel \<Rightarrow> error + array3 \<times> array3" where
  "util bcm =
     for_loop [0..<Na bcm] (\<lambda>a0.
       for_loop [0..<Ns bcm] (\<lambda>s0.
         for_loop [0..<Na bcm] (util_body bcm a0 s0)))
       (empty3 (Na bcm) (Ns bcm) (Na bcm), empty3 (Na bcm) (Ns bcm) (Na bcm))"

subsection \<open>The Bellman operator \<open>T\<close>\<close>

definition empty_like :: "array2 \<Rightarrow> array2" where
  "empty_like A = map (map (\<lambda>x. 0)) A"

text \<open>
  The body of the loop over \<open>s0\<close>.  \<open>.max()\<close> of an empty \<open>argwhere\<close> raises.  In
  \<open>beta * P[s0] @ v[a1,:]\<close> the product with \<open>beta\<close> comes first, as Python reads it.
  The policy index is stored in a float array.
\<close>

definition T_body :: "BusinessCycleModel \<Rightarrow> array2 \<Rightarrow> array3 \<Rightarrow> array3 \<Rightarrow> nat \<Rightarrow> nat
     \<Rightarrow> array2 \<times> array2 \<times> array2 \<Rightarrow> error + array2 \<times> array2 \<times> array2" where
  "T_body bcm v u c a0 s0 = (\<lambda>(v_new, policy, gamma).
     case np_max (argwhere_pos (c ! a0 ! s0)) of
       Inl e \<Rightarrow> Inl e
     | Inr Na1 \<Rightarrow>
         let v_vals = map (\<lambda>a1. u ! a0 ! s0 ! a1
                             + dot (map ((*) (beta bcm)) (P bcm ! s0)) (v ! a1)) [0..<Na1 + 1]
         in
         case np_max v_vals of
           Inl e \<Rightarrow> Inl e
         | Inr m \<Rightarrow>
             (case np_argmax v_vals of
                Inl e \<Rightarrow> Inl e
              | Inr a1 \<Rightarrow>
                  let R = R_func bcm (a_vals bcm ! a1) in
                  if R = 0 then Inl ZeroDivisionError
                  else Inr (set2 v_new a0 s0 m,
                            set2 policy a0 s0 (real a1),
                            set2 gamma a0 s0
                              (a_vals bcm ! a0 + y_vals bcm ! s0 - a_vals bcm ! a1 / R))))"

definition T :: "BusinessCycleModel \<Rightarrow> array2 \<Rightarrow> array3 \<Rightarrow> array3
     \<Rightarrow> error + array2 \<times> array2 \<times> array2" where
  "T bcm v u c =
     for_loop [0..<Na bcm] (\<lambda>a0. for_loop [0..<Ns bcm] (T_body bcm v u c a0))
       (empty_like v, empty_like v, empty_like v)"

subsection \<open>Value iteration: \<open>solve_model_value_iteration\<close>\<close>

text \<open>What the solvers print.\<close>

datatype printed =
    Print string
  | Error_at_iteration int real
  | Converged_in int

definition zeros2 :: "nat \<Rightarrow> nat \<Rightarrow> array2" where
  "zeros2 n m = replicate n (replicate m 0)"

text \<open>\<open>astype(int)\<close> truncates towards zero.\<close>

definition astype_int :: "array2 \<Rightarrow> int list list" where
  "astype_int A = map (map (\<lambda>x. if x \<ge> 0 then \<lfloor>x\<rfloor> else \<lceil>x\<rceil>)) A"

text \<open>
  The \<open>while\<close> loop, with the variables it changes: \<open>i\<close>, \<open>error\<close>, \<open>v\<close>, the pair
  \<open>policy, gamma\<close> (unbound before the first pass) and what has been printed; it
  returns their values at the exit of the loop.
  \<open>i % print_skip\<close> is only evaluated when \<open>verbose\<close> holds and raises for a zero
  \<open>print_skip\<close>.
\<close>

function value_iteration_loop :: "BusinessCycleModel \<Rightarrow> array3 \<Rightarrow> array3 \<Rightarrow> real \<Rightarrow> int \<Rightarrow> bool
     \<Rightarrow> int \<Rightarrow> int \<Rightarrow> real \<Rightarrow> array2 \<Rightarrow> (array2 \<times> array2) option \<Rightarrow> printed list
     \<Rightarrow> printed list \<times> (error + int \<times> real \<times> array2 \<times> (array2 \<times> array2) option)" where
  "value_iteration_loop bcm u c tol max_iter verbose print_skip i err v pg out =
     (if i < max_iter \<and> err > tol then
        (case T bcm v u c of
           Inl e \<Rightarrow> (out, Inl e)
         | Inr (v_new, policy, gamma) \<Rightarrow>
             (case sup_dist v v_new of
                Inl e \<Rightarrow> (out, Inl e)
              | Inr err' \<Rightarrow>
                  if verbose \<and> print_skip = 0 then (out, Inl ZeroDivisionError)
                  else value_iteration_loop bcm u c tol max_iter verbose print_skip
                         (i + 1) err' v_new (Some (policy, gamma))
                         (if verbose \<and> (i + 1) mod print_skip = 0
                          then out @ [Error_at_iteration (i + 1) err'] else out)))
      else (out, Inr (i, err, v, pg)))"
  by pat_completeness auto
termination
  by (relation "measure (\<lambda>(bcm, u, c, tol, max_iter, verbose, print_skip, i, rest).
                           nat (max_iter - i))") auto

definition solve_model_value_iteration :: "BusinessCycleModel \<Rightarrow> bool \<Rightarrow> real \<Rightarrow> int \<Rightarrow> bool \<Rightarrow> int
     \<Rightarrow> printed list \<times> (error + array2 \<times> int list list \<times> array2)" where
  "solve_model_value_iteration bcm use_parallel tol max_iter verbose print_skip =
     (let out0 = (if verbose then [Print ''Solve model with value function iteration.'']
                  else [])
      in
      case util bcm of
        Inl e \<Rightarrow> (out0, Inl e)
      | Inr (c, u) \<Rightarrow>
          (case value_iteration_loop bcm u c tol max_iter verbose print_skip
                  0 (tol + 1) (zeros2 (Na bcm) (Ns bcm)) None out0 of
             (out, Inl e) \<Rightarrow> (out, Inl e)
           | (out, Inr (i, err, v, pg)) \<Rightarrow>
               let out1 = (if i = max_iter then out @ [Print ''Failed to converge!''] else out);
                   out2 = (if i < max_iter \<and> verbose then out1 @ [Converged_in i] else out1)
               in
               case pg of
                 None \<Rightarrow> (out2, Inl (UnboundLocalError ''policy''))
               | Some (policy, gamma) \<Rightarrow> (out2, Inr (v, astype_int policy, gamma))))"

subsection \<open>Policy iteration: \<open>euler_diff\<close>, \<open>K\<close>, \<open>solve_model_time_iter\<close>\<close>

text \<open>
  \<open>brentq\<close> (quantecon) and \<open>interp\<close> (interpolation) are library functions, not code of
  this repository: they are parameters of the model.  \<open>brentq f a b\<close> is the root it
  returns, a finite float, or the error it raises; the function it is given may return
  an infinity or a nan.  \<open>interp xs ys x\<close> is the interpolated value, a finite float.
\<close>

type_synonym brentq_fun = "(real \<Rightarrow> float64) \<Rightarrow> real \<Rightarrow> real \<Rightarrow> error + real"
type_synonym interp_fun = "array1 \<Rightarrow> array1 \<Rightarrow> real \<Rightarrow> real"

text \<open>
  \<open>u_prime\<close> is \<open>c ** (-sigma)\<close> in a compiled function.  The \<open>sigma\<close> of the model is a
  float, as it is by default (1.5) and in every call of the notebook: the power is C's
  \<open>pow\<close>, an infinity at \<open>c = 0\<close> for a positive \<open>sigma\<close>, and does not raise.  (For a
  \<open>sigma\<close> passed as a Python int, numba compiles the power as repeated multiplication
  and a division, which raises ZeroDivisionError at \<open>c = 0\<close>; the raise happens while
  \<open>brentq\<close> runs and is an error of that call.)
\<close>

definition u_prime :: "BusinessCycleModel \<Rightarrow> real \<Rightarrow> float64" where
  "u_prime bcm c = fl_pow (Finite c) (- sigma bcm)"

definition euler_diff :: "BusinessCycleModel \<Rightarrow> interp_fun \<Rightarrow> real \<Rightarrow> real \<Rightarrow> nat \<Rightarrow> array2
     \<Rightarrow> float64" where
  "euler_diff bcm interp c a s gamma_vals =
     (let gamma = (\<lambda>a s. interp (a_vals bcm) (map (\<lambda>row. row ! s) gamma_vals) a);
          expect = fold (\<lambda>s1 expect.
                      fl_add expect
                        (fl_mul (u_prime bcm (gamma (R_save bcm * (a - c + y_vals bcm ! s)) s1))
                                (Finite (P bcm ! s ! s1))))
                     [0..<Ns bcm] (Finite 0)
      in fl_sub (u_prime bcm c)
           (py_max (fl_mul (Finite (beta bcm * R_save bcm)) expect)
                   (u_prime bcm (a + y_vals bcm ! s))))"

definition K_body :: "BusinessCycleModel \<Rightarrow> brentq_fun \<Rightarrow> interp_fun \<Rightarrow> array2 \<Rightarrow> nat \<Rightarrow> real \<Rightarrow> nat
     \<Rightarrow> array2 \<times> array2 \<Rightarrow> error + array2 \<times> array2" where
  "K_body bcm brentq interp gamma i a s = (\<lambda>(gamma_new, asset_policy).
     case brentq (\<lambda>c. euler_diff bcm interp c a s gamma) (1 / 10 ^ 8) (a + y_vals bcm ! s) of
       Inl e \<Rightarrow> Inl e
     | Inr c \<Rightarrow>
         Inr (set2 gamma_new i s c,
              set2 asset_policy i s (R_save bcm * (a - c + y_vals bcm ! s))))"

definition K :: "BusinessCycleModel \<Rightarrow> brentq_fun \<Rightarrow> interp_fun \<Rightarrow> array2 \<Rightarrow> error + array2 \<times> array2" where
  "K bcm brentq interp gamma =
     for_loop (enumerate 0 (a_vals bcm))
       (\<lambda>(i, a). for_loop [0..<Ns bcm] (K_body bcm brentq interp gamma i a))
       (empty_like gamma, empty_like gamma)"

function time_iter_loop :: "BusinessCycleModel \<Rightarrow> brentq_fun \<Rightarrow> interp_fun \<Rightarrow> real \<Rightarrow> int \<Rightarrow> bool
     \<Rightarrow> int \<Rightarrow> int \<Rightarrow> real \<Rightarrow> array2 \<Rightarrow> (array2 \<times> array2) option \<Rightarrow> printed list
     \<Rightarrow> printed list \<times> (error + int \<times> real \<times> array2 \<times> (array2 \<times> array2) option)" where
  "time_iter_loop bcm brentq interp tol max_iter verbose print_skip i err gamma pg out =
     (if i < max_iter \<and> err > tol then
        (case K bcm brentq interp gamma of
           Inl e \<Rightarrow> (out, Inl e)
         | Inr (gamma_new, asset_policy) \<Rightarrow>
             (case sup_dist gamma gamma_new of
                Inl e \<Rightarrow> (out, Inl e)
              | Inr err' \<Rightarrow>
                  if verbose \<and> print_skip = 0 then (out, Inl ZeroDivisionError)
                  else time_iter_loop bcm brentq interp tol max_iter verbose print_skip
                         (i + 1) err' gamma_new (Some (gamma_new, asset_policy))
                         (if verbose \<and> (i + 1) mod print_skip = 0
                          then out @ [Error_at_iteration (i + 1) err'] else out)))
      else (out, Inr (i, err, gamma, pg)))"
  by pat_completeness auto
termination
  by (relation "measure (\<lambda>(bcm, brentq, interp, tol, max_iter, verbose, print_skip, i, rest).
                           nat (max_iter - i))") auto

text \<open>
  The initial policy is \<open>np.repeat(a_vals.reshape(Na, 1), Ns, axis=1)\<close>.  The last
  message is printed whenever \<open>verbose\<close> holds.
\<close>

definition solve_model_time_iter :: "BusinessCycleModel \<Rightarrow> brentq_fun \<Rightarrow> interp_fun \<Rightarrow> real \<Rightarrow> int
     \<Rightarrow> bool \<Rightarrow> int \<Rightarrow> printed list \<times> (error + array2 \<times> array2)" where
  "solve_model_time_iter bcm brentq interp tol max_iter verbose print_skip =
     (let out0 = (if verbose then [Print ''Solve model with policy function iteration.'']
                  else []);
          gamma = map (\<lambda>a. replicate (Ns bcm) a) (a_vals bcm)
      in
      case time_iter_loop bcm brentq interp tol max_iter verbose print_skip
             0 (tol + 1) gamma None out0 of
        (out, Inl e) \<Rightarrow> (out, Inl e)
      | (out, Inr (i, err, gamma, pg)) \<Rightarrow>
          let out1 = (if i = max_iter then out @ [Print ''Failed to converge!''] else out);
              out2 = (if verbose then out1 @ [Converged_in i] else out1)
          in
          case pg of
            None \<Rightarrow> (out2, Inl (UnboundLocalError ''gamma_new''))
          | Some (gamma_new, asset_policy) \<Rightarrow> (out2, Inr (gamma_new, asset_policy)))"

subsection \<open>Stationary distribution: \<open>dist_iter\<close>, \<open>solve_invariant_dist\<close>\<close>

text \<open>A Python index into an axis of length \<open>n\<close>: a negative index counts from the end.\<close>

definition py_index :: "nat \<Rightarrow> int \<Rightarrow> error + nat" where
  "py_index n i =
     (if 0 \<le> i \<and> i < int n then Inr (nat i)
      else if - int n \<le> i \<and> i < 0 then Inr (nat (i + int n))
      else Inl IndexError)"

definition zeros_like :: "array2 \<Rightarrow> array2" where
  "zeros_like A = map (map (\<lambda>x. 0)) A"

definition dist_iter_body :: "BusinessCycleModel \<Rightarrow> int list list \<Rightarrow> array2 \<Rightarrow> nat \<Rightarrow> nat \<Rightarrow> nat
     \<Rightarrow> array2 \<Rightarrow> error + array2" where
  "dist_iter_body bcm policy pmf a0 s0 s1 pmf_new =
     (case py_index (length pmf_new) (policy ! a0 ! s0) of
        Inl e \<Rightarrow> Inl e
      | Inr a1 \<Rightarrow>
          Inr (set2 pmf_new a1 s1 (pmf_new ! a1 ! s1 + P bcm ! s0 ! s1 * pmf ! a0 ! s0)))"

definition dist_iter :: "BusinessCycleModel \<Rightarrow> int list list \<Rightarrow> array2 \<Rightarrow> error + array2" where
  "dist_iter bcm policy pmf =
     for_loop [0..<Na bcm] (\<lambda>a0.
       for_loop [0..<Ns bcm] (\<lambda>s0.
         for_loop [0..<Ns bcm] (dist_iter_body bcm policy pmf a0 s0)))
       (zeros_like pmf)"

function invariant_dist_loop :: "BusinessCycleModel \<Rightarrow> int list list \<Rightarrow> real \<Rightarrow> int \<Rightarrow> bool \<Rightarrow> int
     \<Rightarrow> int \<Rightarrow> real \<Rightarrow> array2 \<Rightarrow> printed list \<Rightarrow> printed list \<times> (error + int \<times> array2)" where
  "invariant_dist_loop bcm policy tol max_iter verbose print_skip i err pmf out =
     (if i < max_iter \<and> err > tol then
        (case dist_iter bcm policy pmf of
           Inl e \<Rightarrow> (out, Inl e)
         | Inr pmf_new \<Rightarrow>
             (case sup_dist pmf pmf_new of
                Inl e \<Rightarrow> (out, Inl e)
              | Inr err' \<Rightarrow>
                  if verbose \<and> print_skip = 0 then (out, Inl ZeroDivisionError)
                  else invariant_dist_loop bcm policy tol max_iter verbose print_skip
                         (i + 1) err' pmf_new
                         (if verbose \<and> (i + 1) mod print_skip = 0
                          then out @ [Error_at_iteration (i + 1) err'] else out)))
      else (out, Inr (i, pmf)))"
  by pat_completeness auto
termination
  by (relation "measure (\<lambda>(bcm, policy, tol, max_iter, verbose, print_skip, i, rest).
                           nat (max_iter - i))") auto

text \<open>The initial mass is \<open>np.ones_like(policy) * (1/(Na*Ns))\<close>; the division is Python's.\<close>

definition solve_invariant_dist :: "BusinessCycleModel \<Rightarrow> int list list \<Rightarrow> real \<Rightarrow> int \<Rightarrow> bool \<Rightarrow> int
     \<Rightarrow> printed list \<times> (error + array2)" where
  "solve_invariant_dist bcm policy tol max_iter verbose print_skip =
     (if Na bcm * Ns bcm = 0 then ([], Inl ZeroDivisionError)
      else
        let pmf = map (map (\<lambda>x. 1 * (1 / real (Na bcm * Ns bcm)))) policy in
        case invariant_dist_loop bcm policy tol max_iter verbose print_skip
               0 (1 + tol) pmf [] of
          (out, Inl e) \<Rightarrow> (out, Inl e)
        | (out, Inr (i, pmf)) \<Rightarrow>
            let out1 = (if i = max_iter then out @ [Print ''Failed to converge!''] else out);
                out2 = (if i < max_iter \<and> verbose then out1 @ [Converged_in i] else out1)
            in (out2, Inr pmf))"

subsection \<open>Welfare: \<open>compute_consumption_loss\<close>\<close>

text \<open>
  The last statements of \<open>compute_consumption_loss\<close>, from \<open>v_bc\<close> and \<open>v_nbc\<close> on.  The two
  sums are numpy floats: their quotient and its power do not raise, and a zero \<open>v_bc\<close>
  gives an infinity or a nan the power goes on with.
\<close>

definition consumption_loss_mu :: "real \<Rightarrow> real \<Rightarrow> real \<Rightarrow> real \<Rightarrow> float64" where
  "consumption_loss_mu sigma' beta' v_nbc v_bc =
     (if sigma' = 1 then Finite (exp 1 powr ((v_nbc - v_bc) * (1 - beta')) - 1)
      else fl_sub (fl_pow (fl_div v_nbc v_bc) (1 / (1 - sigma'))) (Finite 1))"

text \<open>
  One economy of \<open>compute_consumption_loss\<close>: the model, the value iteration and the
  stationary distribution with their default tolerances, and \<open>np.sum(pmf * v)\<close>.
\<close>

definition expected_value :: "real \<Rightarrow> real \<Rightarrow> int \<Rightarrow> bool
     \<Rightarrow> printed list \<times> (error + BusinessCycleModel \<times> real)" where
  "expected_value sigma' a_max' Na' business_cycle =
     (case BusinessCycleModel_default sigma' business_cycle a_max' 0 Na' of
        Inl e \<Rightarrow> ([], Inl e)
      | Inr bc \<Rightarrow>
          (case solve_model_value_iteration bc True (1 / 10 ^ 5) 5000 False 100 of
             (out, Inl e) \<Rightarrow> (out, Inl e)
           | (out, Inr (v, policy, gamma)) \<Rightarrow>
               (case solve_invariant_dist bc policy (1 / 10 ^ 7) 2000 False 50 of
                  (out', Inl e) \<Rightarrow> (out @ out', Inl e)
                | (out', Inr pmf) \<Rightarrow> (out @ out', Inr (bc, sum_prod pmf v)))))"

definition compute_consumption_loss :: "real \<Rightarrow> real \<Rightarrow> int \<Rightarrow> printed list \<times> (error + float64)" where
  "compute_consumption_loss sigma' a_max' Na' =
     (case expected_value sigma' a_max' Na' True of
        (out, Inl e) \<Rightarrow> (out, Inl e)
      | (out, Inr (bc, v_bc)) \<Rightarrow>
          (case expected_value sigma' a_max' Na' False of
             (out', Inl e) \<Rightarrow> (out @ out', Inl e)
           | (out', Inr (nbc, v_nbc)) \<Rightarrow>
               (out @ out', Inr (consumption_loss_mu sigma' (beta bc) v_nbc v_bc))))"

subsection \<open>Closed forms, invariants and a small model for the proofs\<close>

text \<open>The budget identity and the felicity of a consumption level, in the spec's words.\<close>

definition budget_consumption :: "BusinessCycleModel \<Rightarrow> nat \<Rightarrow> nat \<Rightarrow> nat \<Rightarrow> real" where
  "budget_consumption bcm a0 s0 a1 =
     a_vals bcm ! a0 + y_vals bcm ! s0 - a_vals bcm ! a1 / R_func bcm (a_vals bcm ! a1)"

definition felicity :: "BusinessCycleModel \<Rightarrow> real \<Rightarrow> real" where
  "felicity bcm c0 =
     (if c0 \<le> 0 then - (10 ^ 20)
      else if sigma bcm = 1 then ln c0 else c0 powr (1 - sigma bcm) / (1 - sigma bcm))"

text \<open>The invariant of the loops of \<open>util\<close>: the cells written so far hold their values.\<close>

definition util_inv :: "BusinessCycleModel \<Rightarrow> (nat \<times> nat \<times> nat) list \<Rightarrow> array3 \<times> array3 \<Rightarrow> bool" where
  "util_inv bcm pre = (\<lambda>(c, u).
     shape3 (Na bcm) (Ns bcm) (Na bcm) c \<and> shape3 (Na bcm) (Ns bcm) (Na bcm) u \<and>
     (\<forall>(a0, s0, a1) \<in> set pre.
        R_func bcm (a_vals bcm ! a1) \<noteq> 0 \<and>
        c ! a0 ! s0 ! a1 = budget_consumption bcm a0 s0 a1 \<and>
        u ! a0 ! s0 ! a1 = felicity bcm (budget_consumption bcm a0 s0 a1)))"

text \<open>The two-state model on the grid \<open>[0, 1]\<close> with log utility.\<close>

definition example_bcm :: BusinessCycleModel where
  "example_bcm = projr (BusinessCycleModel_default 1 False 1 0 2)"

text \<open>
  What \<open>T_body\<close> computes for the cell \<open>(a0, s0)\<close> from its arguments \<open>v\<close>, \<open>u\<close>, \<open>c\<close>
  alone, and how it stores the result.
\<close>

definition T_cell :: "BusinessCycleModel \<Rightarrow> array2 \<Rightarrow> array3 \<Rightarrow> array3 \<Rightarrow> nat \<Rightarrow> nat
     \<Rightarrow> error + real \<times> nat \<times> real" where
  "T_cell bcm v u c a0 s0 =
     (case np_max (argwhere_pos (c ! a0 ! s0)) of
       Inl e \<Rightarrow> Inl e
     | Inr Na1 \<Rightarrow>
         let v_vals = map (\<lambda>a1. u ! a0 ! s0 ! a1
                             + dot (map ((*) (beta bcm)) (P bcm ! s0)) (v ! a1)) [0..<Na1 + 1]
         in
         case np_max v_vals of
           Inl e \<Rightarrow> Inl e
         | Inr m \<Rightarrow>
             (case np_argmax v_vals of
                Inl e \<Rightarrow> Inl e
              | Inr a1 \<Rightarrow>
                  if R_func bcm (a_vals bcm ! a1) = 0 then Inl ZeroDivisionError
                  else Inr (m, a1, budget_consumption bcm a0 s0 a1)))"

definition T_write :: "nat \<times> nat \<Rightarrow> real \<times> nat \<times> real \<Rightarrow> array2 \<times> array2 \<times> array2
     \<Rightarrow> array2 \<times> array2 \<times> array2" where
  "T_write = (\<lambda>(a0, s0) (m, a1, g) (v_new, policy, gamma).
     (set2 v_new a0 s0 m, set2 policy a0 s0 (real a1), set2 gamma a0 s0 g))"

text \<open>The invariant of the loops of \<open>T\<close>: the cells written so far hold their values.\<close>

definition T_inv :: "BusinessCycleModel \<Rightarrow> array2 \<Rightarrow> array3 \<Rightarrow> array3 \<Rightarrow> (nat \<times> nat) list
     \<Rightarrow> array2 \<times> array2 \<times> array2 \<Rightarrow> bool" where
  "T_inv bcm v u c pre = (\<lambda>(v_new, policy, gamma).
     shape2 (Na bcm) (Ns bcm) v_new \<and> shape2 (Na bcm) (Ns bcm) policy \<and>
     shape2 (Na bcm) (Ns bcm) gamma \<and>
     (\<forall>(a0, s0) \<in> set pre. \<exists>a1.
        T_cell bcm v u c a0 s0 = Inr (v_new ! a0 ! s0, a1, gamma ! a0 ! s0) \<and>
        policy ! a0 ! s0 = real a1))"

text \<open>The candidate value of the next-asset index \<open>a1\<close> at the cell \<open>(a0, s0)\<close>, in the spec's words.\<close>

definition bellman_candidate :: "BusinessCycleModel \<Rightarrow> array2 \<Rightarrow> array3 \<Rightarrow> nat \<Rightarrow> nat \<Rightarrow> nat \<Rightarrow> real" where
  "bellman_candidate bcm v u a0 s0 a1 =
     u ! a0 ! s0 ! a1 + beta bcm * (\<Sum>s1<Ns bcm. P bcm ! s0 ! s1 * v ! a1 ! s1)"

text \<open>A model the constructor returns for \<open>a_min = 0 > a_max = -10\<close>: the grid descends.\<close>

definition descending_bcm :: BusinessCycleModel where
  "descending_bcm = projr (BusinessCycleModel_init 52 0 1 1 (1 / 4) (199 / 200) 1 False (- 10) 0 2)"

text \<open>The sweeps of \<open>solve_invariant_dist\<close>: \<open>dist_iter\<close> applied \<open>n\<close> times.\<close>

fun dist_iter_sweeps :: "BusinessCycleModel \<Rightarrow> int list list \<Rightarrow> nat \<Rightarrow> array2 \<Rightarrow> error + array2" where
  "dist_iter_sweeps bcm policy 0 pmf = Inr pmf"
| "dist_iter_sweeps bcm policy (Suc n) pmf =
     (case dist_iter bcm policy pmf of
        Inl e \<Rightarrow> Inl e
      | Inr pmf_new \<Rightarrow> dist_iter_sweeps bcm policy n pmf_new)"

text \<open>The initial mass function of \<open>solve_invariant_dist\<close>.\<close>

definition uniform_pmf :: "BusinessCycleModel \<Rightarrow> int list list \<Rightarrow> array2" where
  "uniform_pmf bcm policy = map (map (\<lambda>x. 1 * (1 / real (Na bcm * Ns bcm)))) policy"

text \<open>The mass a sweep has moved after the passes \<open>pre\<close> of its loops.\<close>

definition dist_inv :: "BusinessCycleModel \<Rightarrow> array2 \<Rightarrow> (nat \<times> nat \<times> nat) list \<Rightarrow> array2 \<Rightarrow> bool" where
  "dist_inv bcm pmf pre pmf_new \<longleftrightarrow>
     shape2 (Na bcm) (Ns bcm) pmf_new \<and>
     sum2 pmf_new = sum_list (map (\<lambda>(a0, s0, s1). P bcm ! s0 ! s1 * pmf ! a0 ! s0) pre)"

text \<open>The two-state model on the grid \<open>[1, 2]\<close> with linear utility (\<open>sigma = 0\<close>).\<close>

definition linear_bcm :: BusinessCycleModel where
  "linear_bcm = projr (BusinessCycleModel_default 0 False 2 1 2)"

text \<open>The tables \<open>util\<close> returns for \<open>linear_bcm\<close>.\<close>

definition linear_c :: array3 where
  "linear_c = [[[1, 0], [1 / 4, - 3 / 4]], [[2, 1], [5 / 4, 1 / 4]]]"

definition linear_u :: array3 where
  "linear_u = [[[1, - (10 ^ 20)], [1 / 4, - (10 ^ 20)]], [[2, 1], [5 / 4, 1 / 4]]]"

text \<open>
  What \<open>K_body\<close> asks of \<open>brentq\<close> for the grid point \<open>(i, a)\<close> and the state \<open>s\<close>, and how
  it stores the answer.
\<close>

definition K_cell :: "BusinessCycleModel \<Rightarrow> brentq_fun \<Rightarrow> interp_fun \<Rightarrow> array2 \<Rightarrow> real \<Rightarrow> nat
     \<Rightarrow> error + real" where
  "K_cell bcm brentq interp gamma a s =
     brentq (\<lambda>c. euler_diff bcm interp c a s gamma) (1 / 10 ^ 8) (a + y_vals bcm ! s)"

definition K_write :: "BusinessCycleModel \<Rightarrow> (nat \<times> real) \<times> nat \<Rightarrow> real \<Rightarrow> array2 \<times> array2
     \<Rightarrow> array2 \<times> array2" where
  "K_write bcm = (\<lambda>((i, a), s) c (gamma_new, asset_policy).
     (set2 gamma_new i s c, set2 asset_policy i s (R_save bcm * (a - c + y_vals bcm ! s))))"


text \<open>
  Stand-ins for the two library functions at the concrete runs below: a bracketing root
  finder with the entry test of quantecon's \<open>brentq\<close> (a ValueError when the residuals at
  the two ends of the bracket have the same sign, an end point when its residual is zero)
  followed by bisection, and a piecewise-linear interpolation that is constant beyond
  the grid.
\<close>

fun bisect :: "nat \<Rightarrow> (real \<Rightarrow> float64) \<Rightarrow> real \<Rightarrow> real \<Rightarrow> real" where
  "bisect 0 f a b = (a + b) / 2"
| "bisect (Suc n) f a b =
     (let m = (a + b) / 2 in
      if f m = Finite 0 then m
      else if fl_less (fl_mul (f a) (f m)) (Finite 0) then bisect n f a m else bisect n f m b)"

definition bracketing_root :: brentq_fun where
  "bracketing_root f a b =
     (if fl_less (Finite 0) (fl_mul (f a) (f b))
      then Inl (ValueError ''f(a) and f(b) must have different signs'')
      else if f b = Finite 0 then Inr b
      else if f a = Finite 0 then Inr a
      else Inr (bisect 100 f a b))"

fun interp_linear :: interp_fun where
  "interp_linear (x0 # x1 # xs) (y0 # y1 # ys) x =
     (if x \<le> x0 then y0
      else if x \<le> x1 then y0 + (y1 - y0) * (x - x0) / (x1 - x0)
      else interp_linear (x1 # xs) (y1 # ys) x)"
| "interp_linear [x0] [y0] x = y0"
| "interp_linear xs ys x = 0"

text \<open>The two-state model on the grid \<open>[1, 2]\<close> with log utility.\<close>

definition log_bcm :: BusinessCycleModel where
  "log_bcm = projr (BusinessCycleModel_default 1 False 2 1 2)"

text \<open>
  The marginal utility \<open>u'(c) = c ^ (- sigma)\<close> of a positive consumption and the Euler
  residual at the consumption \<open>c\<close>, in the spec's words, over the reals.
\<close>

definition marginal_utility :: "BusinessCycleModel \<Rightarrow> real \<Rightarrow> real" where
  "marginal_utility bcm c = c powr (- sigma bcm)"

definition euler_residual :: "BusinessCycleModel \<Rightarrow> interp_fun \<Rightarrow> array2 \<Rightarrow> real \<Rightarrow> nat \<Rightarrow> real \<Rightarrow> real" where
  "euler_residual bcm interp gamma_vals a s c =
     marginal_utility bcm c
     - max (beta bcm * R_save bcm *
              (\<Sum>s1<Ns bcm. P bcm ! s ! s1 *
                 marginal_utility bcm (interp (a_vals bcm) (map (\<lambda>row. row ! s1) gamma_vals)
                                (R_save bcm * (a - c + y_vals bcm ! s)))))
           (marginal_utility bcm (a + y_vals bcm ! s))"

text \<open>The two-state model on the grid \<open>[1e-10, 2e-10]\<close> with log utility.\<close>

definition tiny_bcm :: BusinessCycleModel where
  "tiny_bcm = projr (BusinessCycleModel_default 1 False (2 / 10 ^ 10) (1 / 10 ^ 10) 2)"

text \<open>Two consumption policies on the grid of \<open>log_bcm\<close>, with consumption \<open>1e-9\<close>.\<close>

definition tiny_policy :: array2 where
  "tiny_policy = [[1 / 10 ^ 9, 1 / 10 ^ 9], [1 / 10 ^ 9, 1 / 10 ^ 9]]"

definition mixed_policy :: array2 where
  "mixed_policy = [[1, 1 / 10 ^ 9], [1, 1 / 10 ^ 9]]"

text \<open>The expected lifetime utility under a mass function, in the spec's words.\<close>

definition expected_lifetime_utility :: "BusinessCycleModel \<Rightarrow> array2 \<Rightarrow> array2 \<Rightarrow> real" where
  "expected_lifetime_utility bcm pmf v = (\<Sum>a<Na bcm. \<Sum>s<Ns bcm. pmf ! a ! s * v ! a ! s)"

text \<open>
  A consumption policy on the grid of \<open>log_bcm\<close> so high that saving does not pay: the
  constraint \<open>c \<le> a + y(s)\<close> binds at every grid point.
\<close>

definition ample_policy :: array2 where
  "ample_policy = [[3, 3], [4, 4]]"

text \<open>
  The state \<open>(i, error, gamma)\<close> of the loop of \<open>solve_model_time_iter\<close> at the head of
  sweep \<open>n + 1\<close>; \<open>None\<close> when the loop has ended before.
\<close>

fun time_iter_state :: "BusinessCycleModel \<Rightarrow> brentq_fun \<Rightarrow> interp_fun \<Rightarrow> real \<Rightarrow> int \<Rightarrow> bool
     \<Rightarrow> int \<Rightarrow> nat \<Rightarrow> (int \<times> real \<times> array2) option" where
  "time_iter_state bcm brentq interp tol max_iter verbose print_skip 0 =
     Some (0, tol + 1, map (\<lambda>a. replicate (Ns bcm) a) (a_vals bcm))"
| "time_iter_state bcm brentq interp tol max_iter verbose print_skip (Suc n) =
     (case time_iter_state bcm brentq interp tol max_iter verbose print_skip n of
        None \<Rightarrow> None
      | Some (i, err, gamma) \<Rightarrow>
          if i < max_iter \<and> err > tol then
            (case K bcm brentq interp gamma of
               Inl e \<Rightarrow> None
             | Inr (gamma_new, asset_policy) \<Rightarrow>
                 (case sup_dist gamma gamma_new of
                    Inl e \<Rightarrow> None
                  | Inr err' \<Rightarrow>
                      if verbose \<and> print_skip = 0 then None else Some (i + 1, err', gamma_new)))
          else None)"

text \<open>The two-state model on the grid \<open>[1, 2]\<close> with \<open>sigma = -1\<close>: the marginal utility is \<open>c\<close>.\<close>

definition convex_bcm :: BusinessCycleModel where
  "convex_bcm = projr (BusinessCycleModel_default (- 1) False 2 1 2)"

text \<open>The cash on hand \<open>a + y(s)\<close> on the grid \<open>[1, 2]\<close>, as a consumption policy.\<close>

definition cash_policy :: array2 where
  "cash_policy = [[2, 5 / 4], [3, 9 / 4]]"



section \<open>Properties of the loops and arrays\<close>

lemma for_loop_append:
  "for_loop (xs @ ys) body st =
     (case for_loop xs body st of Inl e \<Rightarrow> Inl e | Inr st' \<Rightarrow> for_loop ys body st')"
  by (induction xs arbitrary: st) (auto split: sum.splits)

lemma for_loop_product:
  "for_loop xs (\<lambda>i. for_loop ys (body i)) st =
   for_loop (List.product xs ys) (\<lambda>(i, j). body i j) st"
proof (induction xs arbitrary: st)
  case Nil
  then show ?case by simp
next
  case (Cons x xs)
  have inner: "for_loop (map (Pair x) ys) (\<lambda>(i, j). body i j) s = for_loop ys (body x) s" for s
    by (induction ys arbitrary: s) (auto split: sum.splits)
  show ?case
    by (simp add: for_loop_append inner Cons.IH split: sum.splits)
qed

text \<open>Total correctness of a loop whose body cannot fail under the invariant.\<close>

lemma for_loop_total:
  assumes "Inv [] st"
    and "\<And>pre x s. x \<in> set xs \<Longrightarrow> Inv pre s \<Longrightarrow> \<exists>s'. body x s = Inr s' \<and> Inv (pre @ [x]) s'"
  shows "\<exists>st'. for_loop xs body st = Inr st' \<and> Inv xs st'"
proof -
  have "Inv pre s \<Longrightarrow> set ys \<subseteq> set xs \<Longrightarrow> \<exists>st'. for_loop ys body s = Inr st' \<and> Inv (pre @ ys) st'" for pre s ys
  proof (induction ys arbitrary: pre s)
    case Nil
    then show ?case by simp
  next
    case (Cons y ys)
    from Cons.prems assms(2)[of y pre s] obtain s' where s': "body y s = Inr s'" "Inv (pre @ [y]) s'"
      by auto
    from Cons.IH[OF s'(2)] Cons.prems(2) obtain st' where "for_loop ys body s' = Inr st'" "Inv ((pre @ [y]) @ ys) st'"
      by auto
    with s' show ?case by simp
  qed
  from this[of "[]" st xs] assms(1) show ?thesis by simp
qed

text \<open>Partial correctness: an invariant along the passes of a loop that returned.\<close>

lemma for_loop_invariant:
  assumes "for_loop xs body st = Inr st'" and "Inv [] st"
    and "\<And>pre x s s'. x \<in> set xs \<Longrightarrow> Inv pre s \<Longrightarrow> body x s = Inr s' \<Longrightarrow> Inv (pre @ [x]) s'"
  shows "Inv xs st'"
proof -
  have "for_loop ys body s = Inr st' \<Longrightarrow> Inv pre s \<Longrightarrow> set ys \<subseteq> set xs \<Longrightarrow> Inv (pre @ ys) st'" for pre s ys
  proof (induction ys arbitrary: pre s)
    case Nil
    then show ?case by simp
  next
    case (Cons y ys)
    from Cons.prems(1) obtain s' where s': "body y s = Inr s'" "for_loop ys body s' = Inr st'"
      by (auto split: sum.splits)
    from assms(3)[OF _ Cons.prems(2) s'(1)] Cons.prems(3) have "Inv (pre @ [y]) s'" by simp
    from Cons.IH[OF s'(2) this] Cons.prems(3) show ?case by simp
  qed
  from this[of xs st "[]"] assms(1,2) show ?thesis by simp
qed

lemma shape2_nth: "shape2 n m A \<Longrightarrow> i < n \<Longrightarrow> length (A ! i) = m"
  by (auto simp: shape2_def list_all_length)

lemma shape2_length: "shape2 n m A \<Longrightarrow> length A = n"
  by (simp add: shape2_def)

lemma shape3_nth: "shape3 n m k A \<Longrightarrow> i < n \<Longrightarrow> shape2 m k (A ! i)"
  by (auto simp: shape3_def list_all_length)

lemma shape3_length: "shape3 n m k A \<Longrightarrow> length A = n"
  by (simp add: shape3_def)

lemma shape2_set2: "shape2 n m A \<Longrightarrow> shape2 n m (set2 A i j x)"
  by (cases "i < n") (auto simp: shape2_def set2_def list_all_length nth_list_update)

lemma shape3_set3: "shape3 n m k A \<Longrightarrow> shape3 n m k (set3 A i j l x)"
  by (cases "i < n") (auto simp: shape3_def set3_def list_all_length nth_list_update shape2_set2)

lemma nth_set2:
  "shape2 n m A \<Longrightarrow> i < n \<Longrightarrow> j < m \<Longrightarrow>
   set2 A i j x ! i' ! j' = (if i' = i \<and> j' = j then x else A ! i' ! j')"
  by (auto simp: set2_def shape2_def list_all_length nth_list_update)

lemma nth_set3:
  "shape3 n m k A \<Longrightarrow> i < n \<Longrightarrow> j < m \<Longrightarrow> l < k \<Longrightarrow>
   set3 A i j l x ! i' ! j' ! l' = (if i' = i \<and> j' = j \<and> l' = l then x else A ! i' ! j' ! l')"
  using nth_set2[of m k "A ! i" j l x j' l']
  by (auto simp: set3_def shape3_def list_all_length nth_list_update)

lemma shape2_empty2: "shape2 n m (empty2 n m)"
  by (simp add: shape2_def empty2_def list_all_length)

lemma shape3_empty3: "shape3 n m k (empty3 n m k)"
  by (simp add: shape3_def empty3_def list_all_length shape2_empty2)

lemma for_loop_product3:
  "for_loop xs (\<lambda>i. for_loop ys (\<lambda>j. for_loop zs (body i j))) st =
   for_loop (List.product xs (List.product ys zs)) (\<lambda>(i, j, k). body i j k) st"
proof -
  have "for_loop ys (\<lambda>j. for_loop zs (body i j)) =
        for_loop (List.product ys zs) (\<lambda>(j, k). body i j k)" for i
    by (rule ext) (rule for_loop_product)
  then show ?thesis by (simp add: for_loop_product)
qed

section \<open>The loops of \<open>util\<close>\<close>

lemma util_flat:
  "util bcm =
     for_loop (List.product [0..<Na bcm] (List.product [0..<Ns bcm] [0..<Na bcm]))
       (\<lambda>(a0, s0, a1). util_body bcm a0 s0 a1)
       (empty3 (Na bcm) (Ns bcm) (Na bcm), empty3 (Na bcm) (Ns bcm) (Na bcm))"
  unfolding util_def by (rule for_loop_product3)

lemma util_body_eq:
  "util_body bcm a0 s0 a1 (c, u) =
     (if R_func bcm (a_vals bcm ! a1) = 0 then Inl ZeroDivisionError
      else Inr (set3 c a0 s0 a1 (budget_consumption bcm a0 s0 a1),
                set3 u a0 s0 a1 (felicity bcm (budget_consumption bcm a0 s0 a1))))"
  by (simp add: util_body_def Let_def budget_consumption_def felicity_def U_func_def)

lemma util_body_step:
  assumes inv: "util_inv bcm pre st"
    and body: "util_body bcm a0 s0 a1 st = Inr st'"
    and bounds: "a0 < Na bcm" "s0 < Ns bcm" "a1 < Na bcm"
  shows "util_inv bcm (pre @ [(a0, s0, a1)]) st'"
proof -
  obtain c u where st: "st = (c, u)" by (cases st)
  from inv st have sc: "shape3 (Na bcm) (Ns bcm) (Na bcm) c"
    and su: "shape3 (Na bcm) (Ns bcm) (Na bcm) u"
    and old: "\<And>b0 t0 b1. (b0, t0, b1) \<in> set pre \<Longrightarrow>
        R_func bcm (a_vals bcm ! b1) \<noteq> 0 \<and>
        c ! b0 ! t0 ! b1 = budget_consumption bcm b0 t0 b1 \<and>
        u ! b0 ! t0 ! b1 = felicity bcm (budget_consumption bcm b0 t0 b1)"
    by (auto simp: util_inv_def)
  from body st have R: "R_func bcm (a_vals bcm ! a1) \<noteq> 0"
    and st': "st' = (set3 c a0 s0 a1 (budget_consumption bcm a0 s0 a1),
                set3 u a0 s0 a1 (felicity bcm (budget_consumption bcm a0 s0 a1)))"
    by (auto simp: util_body_eq split: if_splits)
  show ?thesis
    unfolding util_inv_def st'
    using old R by (auto simp: shape3_set3[OF sc] shape3_set3[OF su]
        nth_set3[OF sc bounds] nth_set3[OF su bounds])
qed

lemma util_inv_init:
  "util_inv bcm [] (empty3 (Na bcm) (Ns bcm) (Na bcm), empty3 (Na bcm) (Ns bcm) (Na bcm))"
  by (simp add: util_inv_def shape3_empty3)

lemma util_total:
  assumes R: "\<forall>a1<Na bcm. R_func bcm (a_vals bcm ! a1) \<noteq> 0"
  shows "\<exists>st'. util bcm = Inr st' \<and>
     util_inv bcm (List.product [0..<Na bcm] (List.product [0..<Ns bcm] [0..<Na bcm])) st'"
  unfolding util_flat
proof (rule for_loop_total[where Inv = "util_inv bcm", OF util_inv_init])
  fix pre x s
  assume x: "x \<in> set (List.product [0..<Na bcm] (List.product [0..<Ns bcm] [0..<Na bcm]))"
    and inv: "util_inv bcm pre s"
  obtain a0 s0 a1 where xe: "x = (a0, s0, a1)" by (cases x)
  from x xe have b: "a0 < Na bcm" "s0 < Ns bcm" "a1 < Na bcm" by auto
  obtain c u where s: "s = (c, u)" by (cases s)
  from R b(3) obtain s' where s': "util_body bcm a0 s0 a1 s = Inr s'"
    by (auto simp: s util_body_eq)
  from util_body_step[OF inv s' b] s' xe
  show "\<exists>s'. (case x of (a0, s0, a1) \<Rightarrow> util_body bcm a0 s0 a1) s = Inr s' \<and> util_inv bcm (pre @ [x]) s'"
    by simp
qed

lemma util_result_inv:
  assumes "util bcm = Inr st'"
  shows "util_inv bcm (List.product [0..<Na bcm] (List.product [0..<Ns bcm] [0..<Na bcm])) st'"
proof (rule for_loop_invariant[where Inv = "util_inv bcm", OF assms[unfolded util_flat] util_inv_init])
  fix pre x s s'
  assume x: "x \<in> set (List.product [0..<Na bcm] (List.product [0..<Ns bcm] [0..<Na bcm]))"
    and inv: "util_inv bcm pre s"
    and body: "(case x of (a0, s0, a1) \<Rightarrow> util_body bcm a0 s0 a1) s = Inr s'"
  obtain a0 s0 a1 where xe: "x = (a0, s0, a1)" by (cases x)
  from x xe have b: "a0 < Na bcm" "s0 < Ns bcm" "a1 < Na bcm" by auto
  from body xe have "util_body bcm a0 s0 a1 s = Inr s'" by simp
  from util_body_step[OF inv this b] xe show "util_inv bcm (pre @ [x]) s'" by simp
qed

lemma util_cells:
  assumes "util bcm = Inr (c, u)"
  shows "shape3 (Na bcm) (Ns bcm) (Na bcm) c" and "shape3 (Na bcm) (Ns bcm) (Na bcm) u"
    and "a0 < Na bcm \<Longrightarrow> s0 < Ns bcm \<Longrightarrow> a1 < Na bcm \<Longrightarrow>
         c ! a0 ! s0 ! a1 = budget_consumption bcm a0 s0 a1"
    and "a0 < Na bcm \<Longrightarrow> s0 < Ns bcm \<Longrightarrow> a1 < Na bcm \<Longrightarrow>
         u ! a0 ! s0 ! a1 = felicity bcm (budget_consumption bcm a0 s0 a1)"
    and "a0 < Na bcm \<Longrightarrow> s0 < Ns bcm \<Longrightarrow> a1 < Na bcm \<Longrightarrow>
         R_func bcm (a_vals bcm ! a1) \<noteq> 0"
  using util_result_inv[OF assms] unfolding util_inv_def by auto

section \<open>The example model\<close>

lemma example_bcm_init:
  "BusinessCycleModel_default 1 False 1 0 2 = Inr example_bcm"
  by (simp add: example_bcm_def BusinessCycleModel_default_def BusinessCycleModel_init_def
      py_pow_def linspace_def Let_def)

lemma example_bcm_fields:
  "Na example_bcm = 2" "Ns example_bcm = 2" "a_vals example_bcm = [0, 1]"
  "y_vals example_bcm = [1, 1 / 4]" "R_save example_bcm = 1" "sigma example_bcm = 1"
  "beta example_bcm = 199 / 200" "P example_bcm = P_no_business_cycle"
  by (simp_all add: example_bcm_def BusinessCycleModel_default_def BusinessCycleModel_init_def
      py_pow_def linspace_def Let_def upt_rec numeral_2_eq_2)

lemma example_bcm_shapes: "bcm_shapes example_bcm"
  by (simp add: bcm_shapes_def example_bcm_fields shape2_def P_no_business_cycle_def)

lemma example_bcm_R: "\<forall>a1<Na example_bcm. R_func example_bcm (a_vals example_bcm ! a1) \<noteq> 0"
  by (auto simp: example_bcm_fields R_func_def less_Suc_eq numeral_2_eq_2)

section \<open>Utility and budget evaluator\<close>

text \<open>
  Claim C1.  When no rate on the grid is zero (the division of the budget identity is
  defined), \<open>util\<close> returns its two tables, and for all grid indices \<open>a0\<close>, \<open>a1\<close> and
  every state \<open>s0\<close> the consumption table holds
  \<open>a_vals[a0] + y_vals[s0] - a_vals[a1] / R(a_vals[a1])\<close> with \<open>R(x) = R_save\<close> for
  \<open>x \<ge> 0\<close> and \<open>R_borrow\<close> otherwise; the utility table holds \<open>ln c\<close> for \<open>sigma = 1\<close> and
  \<open>c powr (1 - sigma) / (1 - sigma)\<close> otherwise when \<open>c > 0\<close>, and the sentinel \<open>-1e20\<close>
  when \<open>c \<le> 0\<close>: a non-positive consumption is a value of the table, not an error.
\<close>

theorem util_tabulates:
  assumes "bcm_shapes bcm"
    and "\<forall>a1<Na bcm. R_func bcm (a_vals bcm ! a1) \<noteq> 0"
    and "a0 < Na bcm" "s0 < Ns bcm" "a1 < Na bcm"
  shows "\<exists>c u. util bcm = Inr (c, u) \<and>
     c ! a0 ! s0 ! a1 =
       a_vals bcm ! a0 + y_vals bcm ! s0 - a_vals bcm ! a1 / R_func bcm (a_vals bcm ! a1) \<and>
     R_func bcm (a_vals bcm ! a1) = (if a_vals bcm ! a1 \<ge> 0 then R_save bcm else R_borrow bcm) \<and>
     u ! a0 ! s0 ! a1 =
       (if c ! a0 ! s0 ! a1 \<le> 0 then - (10 ^ 20)
        else if sigma bcm = 1 then ln (c ! a0 ! s0 ! a1)
        else (c ! a0 ! s0 ! a1) powr (1 - sigma bcm) / (1 - sigma bcm))"
proof -
  from util_total[OF assms(2)] obtain c u where
    r: "util bcm = Inr (c, u)"
    by auto
  from util_cells(3,4)[OF r assms(3-5)] r show ?thesis
    by (simp add: budget_consumption_def felicity_def R_func_def)
qed

theorem util_tabulates_witness:
  "\<exists>c u. util example_bcm = Inr (c, u) \<and> c ! 0 ! 0 ! 0 = 1 \<and> u ! 0 ! 0 ! 0 = 0"
  using util_tabulates[OF example_bcm_shapes example_bcm_R, of 0 0 0]
  by (auto simp: example_bcm_fields R_func_def)

section \<open>Feasible next-asset indices\<close>

lemma np_max_eq: "np_max xs = (if xs = [] then Inl (ValueError ''zero-size array to reduction operation maximum which has no identity'') else Inr (Max (set xs)))"
  by (cases xs) (simp_all add: np_max_def Max.set_eq_fold[symmetric])

lemma np_max_Inr: "np_max xs = Inr m \<longleftrightarrow> xs \<noteq> [] \<and> m = Max (set xs)"
  by (auto simp: np_max_eq)

lemma set_argwhere_pos: "set (argwhere_pos xs) = {i. i < length xs \<and> xs ! i > 0}"
  by (auto simp: argwhere_pos_def)

lemma rate_quotient_strict_mono:
  assumes "R_save bcm > 0" "R_borrow bcm > 0" "x < y"
  shows "x / R_func bcm x < y / R_func bcm y"
proof (cases "0 \<le> x")
  case True
  with assms show ?thesis by (simp add: R_func_def divide_strict_right_mono)
next
  case False
  show ?thesis
  proof (cases "0 \<le> y")
    case True
    from False assms(2) have "x / R_borrow bcm < 0" by (simp add: divide_neg_pos)
    moreover from True assms(1) have "0 \<le> y / R_save bcm" by simp
    ultimately show ?thesis using False True by (simp add: R_func_def)
  next
    case False
    with assms \<open>\<not> 0 \<le> x\<close> show ?thesis by (simp add: R_func_def divide_strict_right_mono)
  qed
qed

lemma budget_consumption_strict_antimono:
  assumes "sorted_wrt (<) (a_vals bcm)" "R_save bcm > 0" "R_borrow bcm > 0"
    and "i < j" "j < length (a_vals bcm)"
  shows "budget_consumption bcm a0 s0 j < budget_consumption bcm a0 s0 i"
proof -
  from assms(1,4,5) have "a_vals bcm ! i < a_vals bcm ! j"
    by (simp add: sorted_wrt_nth_less)
  from rate_quotient_strict_mono[OF assms(2,3) this] show ?thesis
    by (simp add: budget_consumption_def)
qed

text \<open>
  Claim C9.  On a strictly ascending asset grid and with positive rates \<open>R_save\<close> and
  \<open>R_borrow\<close>, the map \<open>x \<mapsto> x / R(x)\<close> is strictly increasing, so for every cell
  \<open>(a0, s0)\<close> the tabulated consumption is strictly decreasing in the next-asset index:
  a positive consumption at \<open>j\<close> gives a positive consumption at every \<open>i < j\<close>, and the
  indices \<open>0, ..., Na1\<close> scanned by \<open>T\<close>, with \<open>Na1\<close> the last index of positive
  consumption, are exactly the feasible ones.
\<close>

theorem feasible_set_contiguous:
  assumes "bcm_shapes bcm" and "sorted_wrt (<) (a_vals bcm)"
    and "R_save bcm > 0" and "R_borrow bcm > 0"
    and "a0 < Na bcm" and "s0 < Ns bcm"
  shows "\<exists>c u. util bcm = Inr (c, u) \<and>
     (\<forall>i j. i < j \<longrightarrow> j < Na bcm \<longrightarrow> c ! a0 ! s0 ! j < c ! a0 ! s0 ! i) \<and>
     (\<forall>i j. i < j \<longrightarrow> j < Na bcm \<longrightarrow> c ! a0 ! s0 ! j > 0 \<longrightarrow> c ! a0 ! s0 ! i > 0) \<and>
     (\<forall>Na1. np_max (argwhere_pos (c ! a0 ! s0)) = Inr Na1 \<longrightarrow>
        set [0..<Na1 + 1] = {a1. a1 < Na bcm \<and> c ! a0 ! s0 ! a1 > 0})"
proof -
  have R: "\<forall>a1<Na bcm. R_func bcm (a_vals bcm ! a1) \<noteq> 0"
    using assms(3,4) by (auto simp: R_func_def)
  from util_total[OF R] obtain c u where r: "util bcm = Inr (c, u)" by auto
  have len: "length (a_vals bcm) = Na bcm" using assms(1) by (simp add: bcm_shapes_def)
  have cell: "c ! a0 ! s0 ! a1 = budget_consumption bcm a0 s0 a1" if "a1 < Na bcm" for a1
    using util_cells(3)[OF r assms(5,6) that] .
  have row: "length (c ! a0 ! s0) = Na bcm"
    using shape2_nth[OF shape3_nth[OF util_cells(1)[OF r] assms(5)] assms(6)] .
  have dec: "c ! a0 ! s0 ! j < c ! a0 ! s0 ! i" if "i < j" "j < Na bcm" for i j
    using budget_consumption_strict_antimono[OF assms(2,3,4) that(1), of a0 s0] that len
    by (simp add: cell)
  have pos: "c ! a0 ! s0 ! i > 0" if "i < j" "j < Na bcm" "c ! a0 ! s0 ! j > 0" for i j
    using dec[OF that(1,2)] that(3) by simp
  have scan: "set [0..<Na1 + 1] = {a1. a1 < Na bcm \<and> c ! a0 ! s0 ! a1 > 0}"
    if m: "np_max (argwhere_pos (c ! a0 ! s0)) = Inr Na1" for Na1
  proof -
    let ?F = "{a1. a1 < Na bcm \<and> c ! a0 ! s0 ! a1 > 0}"
    from m have ne: "argwhere_pos (c ! a0 ! s0) \<noteq> []" and mx: "Na1 = Max ?F"
      by (simp_all add: np_max_Inr set_argwhere_pos row)
    have fin: "finite ?F" by simp
    from ne have "?F \<noteq> {}" using set_argwhere_pos[of "c ! a0 ! s0"] row by force
    with fin mx have inF: "Na1 \<in> ?F" using Max_in by blast
    have top: "a1 \<le> Na1" if "a1 \<in> ?F" for a1 using that fin mx by simp
    show ?thesis
    proof (rule set_eqI)
      fix a1
      show "a1 \<in> set [0..<Na1 + 1] \<longleftrightarrow> a1 \<in> ?F"
      proof
        assume "a1 \<in> set [0..<Na1 + 1]"
        then have "a1 \<le> Na1" by auto
        then show "a1 \<in> ?F"
        proof (cases "a1 = Na1")
          case True with inF show ?thesis by simp
        next
          case False
          with \<open>a1 \<le> Na1\<close> have lt: "a1 < Na1" by simp
          from inF have "Na1 < Na bcm" "c ! a0 ! s0 ! Na1 > 0" by simp_all
          from pos[OF lt this] lt \<open>Na1 < Na bcm\<close> show ?thesis by simp
        qed
      next
        assume "a1 \<in> ?F"
        from top[OF this] show "a1 \<in> set [0..<Na1 + 1]" by auto
      qed
    qed
  qed
  from r dec pos scan show ?thesis by blast
qed

lemma example_bcm_sorted: "sorted_wrt (<) (a_vals example_bcm)"
  by (simp add: example_bcm_fields)

lemma example_bcm_R_borrow: "R_borrow example_bcm > 0"
  by (simp add: example_bcm_def BusinessCycleModel_default_def BusinessCycleModel_init_def
      py_pow_def linspace_def Let_def)

theorem feasible_set_contiguous_witness:
  "\<exists>c u. util example_bcm = Inr (c, u) \<and> c ! 0 ! 0 ! 1 < c ! 0 ! 0 ! 0"
proof -
  have "R_save example_bcm > 0" by (simp add: example_bcm_fields)
  from feasible_set_contiguous[OF example_bcm_shapes example_bcm_sorted this example_bcm_R_borrow, of 0 0]
  obtain c u where r: "util example_bcm = Inr (c, u)"
    and dec: "\<forall>i j. i < j \<longrightarrow> j < Na example_bcm \<longrightarrow> c ! 0 ! 0 ! j < c ! 0 ! 0 ! i"
    by (auto simp: example_bcm_fields)
  from dec have "c ! 0 ! 0 ! 1 < c ! 0 ! 0 ! 0" by (simp add: example_bcm_fields)
  with r show ?thesis by blast
qed

section \<open>Loops that write one cell per pass\<close>

lemma fill_loop_Inr:
  assumes B: "\<And>x st. body x st = (case f x of Inl e \<Rightarrow> Inl e | Inr y \<Rightarrow> Inr (w x y st))"
    and run: "for_loop xs body st = Inr st'"
  shows "\<forall>x\<in>set xs. \<exists>y. f x = Inr y"
  using run by (induction xs arbitrary: st) (auto simp: B split: sum.splits)

lemma fill_loop_total:
  assumes B: "\<And>x st. body x st = (case f x of Inl e \<Rightarrow> Inl e | Inr y \<Rightarrow> Inr (w x y st))"
    and ok: "\<forall>x\<in>set xs. \<exists>y. f x = Inr y"
  shows "\<exists>st'. for_loop xs body st = Inr st'"
  using ok by (induction xs arbitrary: st) (auto simp: B split: sum.splits)

lemma fill_loop_Inl:
  assumes B: "\<And>x st. body x st = (case f x of Inl e \<Rightarrow> Inl e | Inr y \<Rightarrow> Inr (w x y st))"
    and ok: "\<forall>z\<in>set pre. \<exists>y. f z = Inr y" and bad: "f x = Inl e"
  shows "for_loop (pre @ x # post) body st = Inl e"
  using ok by (induction pre arbitrary: st) (auto simp: B bad split: sum.splits)

lemma fill_loop_Inl_D:
  assumes B: "\<And>x st. body x st = (case f x of Inl e \<Rightarrow> Inl e | Inr y \<Rightarrow> Inr (w x y st))"
    and run: "for_loop xs body st = Inl e"
  shows "\<exists>pre x post. xs = pre @ x # post \<and> (\<forall>z\<in>set pre. \<exists>y. f z = Inr y) \<and> f x = Inl e"
  using run
proof (induction xs arbitrary: st)
  case Nil
  then show ?case by simp
next
  case (Cons a xs)
  show ?case
  proof (cases "f a")
    case (Inl e')
    with Cons.prems have "e' = e" by (simp add: B[of a st])
    with Inl have "a # xs = [] @ a # xs \<and> (\<forall>z\<in>set []. \<exists>y. f z = Inr y) \<and> f a = Inl e" by simp
    then show ?thesis by blast
  next
    case (Inr y)
    with Cons.prems have "for_loop xs body (w a y st) = Inl e" by (simp add: B[of a st])
    from Cons.IH[OF this] obtain pre x post where
      "xs = pre @ x # post" "\<forall>z\<in>set pre. \<exists>y. f z = Inr y" "f x = Inl e" by blast
    with Inr have "a # xs = (a # pre) @ x # post \<and> (\<forall>z\<in>set (a # pre). \<exists>y. f z = Inr y) \<and> f x = Inl e"
      by simp
    then show ?thesis by blast
  qed
qed

section \<open>The Bellman operator\<close>

lemma T_body_eq:
  "T_body bcm v u c a0 s0 st =
     (case T_cell bcm v u c a0 s0 of Inl e \<Rightarrow> Inl e | Inr y \<Rightarrow> Inr (T_write (a0, s0) y st))"
  by (cases st) (simp add: T_body_def T_cell_def T_write_def Let_def budget_consumption_def
      split: sum.splits)

lemma T_flat:
  "T bcm v u c =
     for_loop (List.product [0..<Na bcm] [0..<Ns bcm]) (\<lambda>(a0, s0). T_body bcm v u c a0 s0)
       (empty_like v, empty_like v, empty_like v)"
  unfolding T_def by (rule for_loop_product)

lemma T_flat_body:
  "(case x of (a0, s0) \<Rightarrow> T_body bcm v u c a0 s0) st =
     (case (case x of (a0, s0) \<Rightarrow> T_cell bcm v u c a0 s0) of
        Inl e \<Rightarrow> Inl e | Inr y \<Rightarrow> Inr (T_write x y st))"
  by (cases x) (auto simp: T_body_eq)

lemma shape2_empty_like: "shape2 n m A \<Longrightarrow> shape2 n m (empty_like A)"
  by (simp add: shape2_def empty_like_def list_all_length)

lemma T_step:
  assumes inv: "T_inv bcm v u c pre st"
    and body: "T_body bcm v u c a0 s0 st = Inr st'"
    and bounds: "a0 < Na bcm" "s0 < Ns bcm"
  shows "T_inv bcm v u c (pre @ [(a0, s0)]) st'"
proof -
  obtain vn pol gam where st: "st = (vn, pol, gam)" by (cases st)
  from inv st have sv: "shape2 (Na bcm) (Ns bcm) vn" and sp: "shape2 (Na bcm) (Ns bcm) pol"
    and sg: "shape2 (Na bcm) (Ns bcm) gam"
    and old: "\<And>b0 t0. (b0, t0) \<in> set pre \<Longrightarrow> \<exists>a1.
        T_cell bcm v u c b0 t0 = Inr (vn ! b0 ! t0, a1, gam ! b0 ! t0) \<and> pol ! b0 ! t0 = real a1"
    by (auto simp: T_inv_def)
  from body obtain m a1 g where cell: "T_cell bcm v u c a0 s0 = Inr (m, a1, g)"
    and st': "st' = (set2 vn a0 s0 m, set2 pol a0 s0 (real a1), set2 gam a0 s0 g)"
    by (auto simp: T_body_eq T_write_def st split: sum.splits)
  show ?thesis
    unfolding T_inv_def st'
    using old cell by (auto simp: shape2_set2[OF sv] shape2_set2[OF sp] shape2_set2[OF sg]
        nth_set2[OF sv bounds] nth_set2[OF sp bounds] nth_set2[OF sg bounds])
qed

lemma T_result_inv:
  assumes run: "T bcm v u c = Inr st'" and sv: "shape2 (Na bcm) (Ns bcm) v"
  shows "T_inv bcm v u c (List.product [0..<Na bcm] [0..<Ns bcm]) st'"
proof (rule for_loop_invariant[where Inv = "T_inv bcm v u c", OF run[unfolded T_flat]])
  show "T_inv bcm v u c [] (empty_like v, empty_like v, empty_like v)"
    by (simp add: T_inv_def shape2_empty_like[OF sv])
next
  fix pre x s s'
  assume x: "x \<in> set (List.product [0..<Na bcm] [0..<Ns bcm])"
    and inv: "T_inv bcm v u c pre s"
    and body: "(case x of (a0, s0) \<Rightarrow> T_body bcm v u c a0 s0) s = Inr s'"
  obtain a0 s0 where xe: "x = (a0, s0)" by (cases x)
  from x xe have b: "a0 < Na bcm" "s0 < Ns bcm" by auto
  from body xe have "T_body bcm v u c a0 s0 s = Inr s'" by simp
  from T_step[OF inv this b] xe show "T_inv bcm v u c (pre @ [x]) s'" by simp
qed

lemma T_cells:
  assumes "T bcm v u c = Inr (v_new, policy, gamma)" and "shape2 (Na bcm) (Ns bcm) v"
  shows "shape2 (Na bcm) (Ns bcm) v_new" and "shape2 (Na bcm) (Ns bcm) policy"
    and "shape2 (Na bcm) (Ns bcm) gamma"
    and "a0 < Na bcm \<Longrightarrow> s0 < Ns bcm \<Longrightarrow> \<exists>a1.
        T_cell bcm v u c a0 s0 = Inr (v_new ! a0 ! s0, a1, gamma ! a0 ! s0) \<and>
        policy ! a0 ! s0 = real a1"
  using T_result_inv[OF assms] unfolding T_inv_def by auto

lemma T_total:
  assumes "\<forall>a0<Na bcm. \<forall>s0<Ns bcm. \<exists>y. T_cell bcm v u c a0 s0 = Inr y"
  shows "\<exists>r. T bcm v u c = Inr r"
  unfolding T_flat
  by (rule fill_loop_total[where f = "\<lambda>(a0, s0). T_cell bcm v u c a0 s0" and w = T_write])
    (use assms in \<open>auto simp: T_body_eq\<close>)

lemma T_fails:
  assumes "a0 < Na bcm" "s0 < Ns bcm" and bad: "T_cell bcm v u c a0 s0 = Inl e"
    and ok: "\<forall>b0 t0. b0 < Na bcm \<longrightarrow> t0 < Ns bcm \<longrightarrow> (b0 < a0 \<or> b0 = a0 \<and> t0 < s0) \<longrightarrow>
        (\<exists>y. T_cell bcm v u c b0 t0 = Inr y)"
  shows "T bcm v u c = Inl e"
proof -
  let ?xs = "List.product [0..<Na bcm] [0..<Ns bcm]"
  let ?k = "a0 * Ns bcm + s0"
  have "?k < a0 * Ns bcm + Ns bcm" using assms(2) by simp
  also have "\<dots> = Suc a0 * Ns bcm" by simp
  also have "\<dots> \<le> Na bcm * Ns bcm" using assms(1) by (intro mult_le_mono1) simp
  finally have k: "?k < length ?xs" by simp
  have nth: "?xs ! i = (i div Ns bcm, i mod Ns bcm)" if "i < length ?xs" for i
  proof -
    from that have "i < Na bcm * Ns bcm" by simp
    then have "i div Ns bcm < Na bcm" by (simp add: less_mult_imp_div_less)
    moreover from that assms(2) have "i mod Ns bcm < Ns bcm" by simp
    ultimately show ?thesis using that by (simp add: List.product_nth)
  qed
  have xk: "?xs ! ?k = (a0, s0)" using nth[OF k] assms(2) by simp
  have split: "?xs = take ?k ?xs @ (a0, s0) # drop (Suc ?k) ?xs"
    using id_take_nth_drop[OF k] xk by simp
  have pre: "\<forall>z\<in>set (take ?k ?xs). \<exists>y. (case z of (b0, t0) \<Rightarrow> T_cell bcm v u c b0 t0) = Inr y"
  proof
    fix z assume "z \<in> set (take ?k ?xs)"
    then obtain i where i: "i < ?k" "z = ?xs ! i"
      using k by (auto simp: in_set_conv_nth)
    from i(1) k have il: "i < length ?xs" by simp
    then have iN: "i < Na bcm * Ns bcm" by simp
    have z: "z = (i div Ns bcm, i mod Ns bcm)" using i(2) nth[OF il] by simp
    have b1: "i div Ns bcm < Na bcm" using iN by (simp add: less_mult_imp_div_less)
    have b2: "i mod Ns bcm < Ns bcm" using assms(2) by simp
    have d: "i div Ns bcm \<le> a0"
    proof -
      from i(1) assms(2) have "i < Suc a0 * Ns bcm" by simp
      then have "i div Ns bcm < Suc a0" by (simp add: less_mult_imp_div_less)
      then show ?thesis by simp
    qed
    have "i div Ns bcm < a0 \<or> i div Ns bcm = a0 \<and> i mod Ns bcm < s0"
    proof (cases "i div Ns bcm = a0")
      case True
      have "i = i div Ns bcm * Ns bcm + i mod Ns bcm" by simp
      with True i(1) have "i mod Ns bcm < s0" by (metis add_less_cancel_left)
      with True show ?thesis by simp
    next
      case False with d show ?thesis by simp
    qed
    with ok[rule_format, OF b1 b2] show "\<exists>y. (case z of (b0, t0) \<Rightarrow> T_cell bcm v u c b0 t0) = Inr y"
      unfolding z by simp
  qed
  have "for_loop (take ?k ?xs @ (a0, s0) # drop (Suc ?k) ?xs)
          (\<lambda>(a0, s0). T_body bcm v u c a0 s0) (empty_like v, empty_like v, empty_like v) = Inl e"
    by (rule fill_loop_Inl[where f = "\<lambda>(a0, s0). T_cell bcm v u c a0 s0" and w = T_write,
          OF T_flat_body pre]) (simp add: bad)
  with split show ?thesis unfolding T_flat by simp
qed

lemma sum_list_map2_nth:
  "length xs = length ys \<Longrightarrow>
   sum_list (map2 f xs ys) = (\<Sum>i<length xs. (f (xs ! i) (ys ! i) :: real))"
  by (simp add: sum_list_sum_nth atLeast0LessThan)

lemma dot_scaled:
  assumes "length xs = n" "length ys = n"
  shows "dot (map ((*) b) xs) ys = b * (\<Sum>i<n. xs ! i * ys ! i)"
proof -
  have "dot (map ((*) b) xs) ys = (\<Sum>i<n. (map ((*) b) xs) ! i * ys ! i)"
    unfolding dot_def using sum_list_map2_nth[of "map ((*) b) xs" ys "(*)"] assms by simp
  also have "\<dots> = (\<Sum>i<n. b * (xs ! i * ys ! i))"
    using assms by (intro sum.cong) (simp_all add: mult.assoc)
  finally show ?thesis by (simp add: sum_distrib_left)
qed

lemma first_index_props:
  "m \<in> set xs \<Longrightarrow>
   first_index m xs < length xs \<and> xs ! first_index m xs = m \<and>
   (\<forall>k<first_index m xs. xs ! k \<noteq> m)"
proof (induction xs)
  case Nil
  then show ?case by simp
next
  case (Cons x xs)
  show ?case
  proof (cases "x = m")
    case True
    then show ?thesis by simp
  next
    case False
    with Cons.prems have "m \<in> set xs" by simp
    from Cons.IH[OF this] False show ?thesis
      by (auto simp: nth_Cons' less_Suc_eq_0_disj)
  qed
qed

lemma np_argmax_Inr:
  "np_argmax xs = Inr k \<longleftrightarrow> xs \<noteq> [] \<and> k = first_index (Max (set xs)) xs"
  by (auto simp: np_argmax_def np_max_eq)

lemma argwhere_pos_max:
  assumes "np_max (argwhere_pos xs) = Inr k"
  shows "k < length xs" and "xs ! k > 0" and "\<forall>j<length xs. xs ! j > 0 \<longrightarrow> j \<le> k"
proof -
  let ?F = "{i. i < length xs \<and> xs ! i > 0}"
  from assms have ne: "?F \<noteq> {}" and k: "k = Max ?F"
    using set_argwhere_pos[of xs] by (auto simp: np_max_Inr simp flip: set_empty)
  have fin: "finite ?F" by simp
  from Max_in[OF fin ne] k show "k < length xs" "xs ! k > 0" by simp_all
  show "\<forall>j<length xs. xs ! j > 0 \<longrightarrow> j \<le> k"
    using Max_ge[OF fin] k by simp
qed

lemma argwhere_pos_nonempty:
  "j < length xs \<Longrightarrow> xs ! j > 0 \<Longrightarrow> \<exists>k. np_max (argwhere_pos xs) = Inr k"
  using set_argwhere_pos[of xs] by (auto simp: np_max_Inr simp flip: set_empty)

lemma T_cell_Inr:
  assumes cell: "T_cell bcm v u c a0 s0 = Inr (m, a1, g)"
    and row: "length (c ! a0 ! s0) = Na bcm"
    and Prow: "length (P bcm ! s0) = Ns bcm"
    and vrows: "\<forall>j<Na bcm. length (v ! j) = Ns bcm"
  shows "\<exists>Na1. Na1 < Na bcm \<and> c ! a0 ! s0 ! Na1 > 0 \<and>
           (\<forall>j<Na bcm. c ! a0 ! s0 ! j > 0 \<longrightarrow> j \<le> Na1) \<and>
           m = Max (bellman_candidate bcm v u a0 s0 ` {0..Na1}) \<and>
           a1 \<le> Na1 \<and> bellman_candidate bcm v u a0 s0 a1 = m \<and>
           (\<forall>k<a1. bellman_candidate bcm v u a0 s0 k < m) \<and>
           g = budget_consumption bcm a0 s0 a1 \<and> R_func bcm (a_vals bcm ! a1) \<noteq> 0"
proof -
  from cell obtain Na1 where n1: "np_max (argwhere_pos (c ! a0 ! s0)) = Inr Na1"
    by (auto simp: T_cell_def split: sum.splits)
  let ?vals = "map (\<lambda>a1. u ! a0 ! s0 ! a1
                 + dot (map ((*) (beta bcm)) (P bcm ! s0)) (v ! a1)) [0..<Na1 + 1]"
  from cell n1 have m: "np_max ?vals = Inr m" and a1: "np_argmax ?vals = Inr a1"
    and R: "R_func bcm (a_vals bcm ! a1) \<noteq> 0" and g: "g = budget_consumption bcm a0 s0 a1"
    by (auto simp: T_cell_def Let_def split: sum.splits if_splits)
  note aw = argwhere_pos_max[OF n1, unfolded row]
  have cand: "u ! a0 ! s0 ! k + dot (map ((*) (beta bcm)) (P bcm ! s0)) (v ! k)
        = bellman_candidate bcm v u a0 s0 k" if "k \<le> Na1" for k
  proof -
    from that aw(1) have "k < Na bcm" by simp
    with vrows have "length (v ! k) = Ns bcm" by simp
    from dot_scaled[OF Prow this] show ?thesis by (simp add: bellman_candidate_def)
  qed
  have vals: "?vals = map (bellman_candidate bcm v u a0 s0) [0..<Na1 + 1]"
    by (rule map_cong) (auto intro: cand)
  have ivl: "{0..<Na1 + 1} = {0..Na1}" by auto
  have setv: "set ?vals = bellman_candidate bcm v u a0 s0 ` {0..Na1}"
    unfolding vals by (simp only: set_map set_upt ivl)
  from m have mM: "m = Max (set ?vals)" by (simp add: np_max_Inr)
  have fin: "finite (set ?vals)" and ne: "set ?vals \<noteq> {}" by simp_all
  from Max_in[OF fin ne] mM have min: "m \<in> set ?vals" by simp
  from a1 mM have a1f: "a1 = first_index m ?vals" by (simp add: np_argmax_Inr)
  from first_index_props[OF min] a1f
  have a1l: "a1 < Na1 + 1" and a1v: "?vals ! a1 = m" and a1first: "\<forall>k<a1. ?vals ! k \<noteq> m"
    by simp_all
  have nthv: "?vals ! k = bellman_candidate bcm v u a0 s0 k" if "k \<le> Na1" for k
    unfolding vals using that by (simp del: upt_Suc add: nth_map_upt)
  have below: "bellman_candidate bcm v u a0 s0 k < m" if "k < a1" for k
  proof -
    from that a1l have kl: "k \<le> Na1" by simp
    then have "?vals ! k \<in> set ?vals" by (intro nth_mem) simp
    with Max_ge[OF fin] mM have "?vals ! k \<le> m" by simp
    moreover from a1first that have "?vals ! k \<noteq> m" by simp
    ultimately show ?thesis using nthv[OF kl] by simp
  qed
  from a1l have a1le: "a1 \<le> Na1" by simp
  from aw mM setv a1le a1v nthv[OF a1le] below g R show ?thesis
    by (intro exI[of _ Na1]) simp
qed

lemma T_cell_total:
  assumes feas: "j < Na bcm" "c ! a0 ! s0 ! j > 0"
    and row: "length (c ! a0 ! s0) = Na bcm"
    and R: "\<forall>a1<Na bcm. R_func bcm (a_vals bcm ! a1) \<noteq> 0"
  shows "\<exists>y. T_cell bcm v u c a0 s0 = Inr y"
proof -
  from argwhere_pos_nonempty[of j "c ! a0 ! s0"] feas row
  obtain Na1 where n1: "np_max (argwhere_pos (c ! a0 ! s0)) = Inr Na1" by auto
  note aw = argwhere_pos_max[OF n1, unfolded row]
  let ?vals = "map (\<lambda>a1. u ! a0 ! s0 ! a1
                 + dot (map ((*) (beta bcm)) (P bcm ! s0)) (v ! a1)) [0..<Na1 + 1]"
  have ne: "?vals \<noteq> []" by simp
  then have m: "np_max ?vals = Inr (Max (set ?vals))" by (simp only: np_max_eq if_False)
  from ne have a1: "np_argmax ?vals = Inr (first_index (Max (set ?vals)) ?vals)"
    by (simp only: np_argmax_Inr) simp
  have "Max (set ?vals) \<in> set ?vals" by (rule Max_in) simp_all
  from first_index_props[OF this] have "first_index (Max (set ?vals)) ?vals < Na1 + 1" by simp
  with aw(1) have "first_index (Max (set ?vals)) ?vals < Na bcm" by simp
  with R have Rn: "(R_func bcm (a_vals bcm ! first_index (Max (set ?vals)) ?vals) = 0) = False"
    by simp
  show ?thesis
    by (simp only: T_cell_def n1 sum.case Let_def m a1 Rn if_False) blast
qed

lemma T_cell_infeasible:
  "argwhere_pos (c ! a0 ! s0) = [] \<Longrightarrow>
   T_cell bcm v u c a0 s0 =
     Inl (ValueError ''zero-size array to reduction operation maximum which has no identity'')"
  by (simp add: T_cell_def np_max_def)

text \<open>
  Claim C2.  When \<open>T\<close> returns, every cell \<open>(a0, s0)\<close> of the new value function is the
  maximum of \<open>u[a0,s0,a1] + beta * (P[s0] . v[a1,:])\<close> over \<open>a1 = 0, ..., a1_max\<close>, where
  \<open>a1_max\<close> is the largest index of positive consumption; the policy cell is the first
  index attaining the maximum, and the consumption cell is the budget identity at that
  index.  The right-hand sides read the arguments \<open>v\<close>, \<open>u\<close>, \<open>c\<close> only: no cell reads what
  the sweep has written to another cell.
\<close>

theorem bellman_operator_cell:
  assumes "T bcm v u c = Inr (v_new, policy, gamma)"
    and "bcm_shapes bcm" and "shape2 (Na bcm) (Ns bcm) v"
    and "shape3 (Na bcm) (Ns bcm) (Na bcm) c"
    and "a0 < Na bcm" and "s0 < Ns bcm"
  shows "\<exists>a1_max a1.
     a1_max < Na bcm \<and> c ! a0 ! s0 ! a1_max > 0 \<and>
     (\<forall>j<Na bcm. c ! a0 ! s0 ! j > 0 \<longrightarrow> j \<le> a1_max) \<and>
     v_new ! a0 ! s0 = Max (bellman_candidate bcm v u a0 s0 ` {0..a1_max}) \<and>
     a1 \<le> a1_max \<and> policy ! a0 ! s0 = real a1 \<and>
     bellman_candidate bcm v u a0 s0 a1 = v_new ! a0 ! s0 \<and>
     (\<forall>k<a1. bellman_candidate bcm v u a0 s0 k < v_new ! a0 ! s0) \<and>
     gamma ! a0 ! s0 =
       a_vals bcm ! a0 + y_vals bcm ! s0 - a_vals bcm ! a1 / R_func bcm (a_vals bcm ! a1)"
proof -
  from T_cells(4)[OF assms(1,3,5,6)] obtain a1 where
    cell: "T_cell bcm v u c a0 s0 = Inr (v_new ! a0 ! s0, a1, gamma ! a0 ! s0)"
    and pol: "policy ! a0 ! s0 = real a1" by blast
  have row: "length (c ! a0 ! s0) = Na bcm"
    using shape2_nth[OF shape3_nth[OF assms(4,5)] assms(6)] .
  from assms(2) have "shape2 (Ns bcm) (Ns bcm) (P bcm)" by (simp add: bcm_shapes_def)
  from shape2_nth[OF this assms(6)] have Prow: "length (P bcm ! s0) = Ns bcm" .
  have vrows: "\<forall>j<Na bcm. length (v ! j) = Ns bcm"
    using assms(3) by (simp add: shape2_nth)
  from T_cell_Inr[OF cell row Prow vrows] pol show ?thesis
    unfolding budget_consumption_def by blast
qed

lemma T_total_feasible:
  assumes r: "util bcm = Inr (c, u)"
    and feas: "\<forall>a0<Na bcm. \<forall>s0<Ns bcm. \<exists>j<Na bcm. c ! a0 ! s0 ! j > 0"
  shows "\<exists>v_new policy gamma. T bcm v u c = Inr (v_new, policy, gamma)"
proof -
  have "\<exists>y. T_cell bcm v u c a0 s0 = Inr y" if b: "a0 < Na bcm" "s0 < Ns bcm" for a0 s0
  proof -
    from feas b obtain j where j: "j < Na bcm" "c ! a0 ! s0 ! j > 0" by blast
    have row: "length (c ! a0 ! s0) = Na bcm"
      using shape2_nth[OF shape3_nth[OF util_cells(1)[OF r] b(1)] b(2)] .
    have R: "\<forall>a1<Na bcm. R_func bcm (a_vals bcm ! a1) \<noteq> 0"
      using util_cells(5)[OF r b] by blast
    from T_cell_total[OF j row R] show ?thesis .
  qed
  then have "\<exists>st. T bcm v u c = Inr st" by (intro T_total) blast
  then show ?thesis by auto
qed

lemma init_fields:
  assumes "BusinessCycleModel_init period' r_save r_borrow y theta beta' sigma' bc a_max' a_min' Na' = Inr bcm"
  shows "linspace a_min' a_max' Na' = Inr (a_vals bcm)" and "Na bcm = nat Na'" and "0 \<le> Na'"
    and "a_min bcm = a_min'" and "a_max bcm = a_max'"
    and "P bcm = (if bc then P_business_cycle else P_no_business_cycle)"
    and "Ns bcm = (if bc then 4 else 2)"
    and "y_vals bcm = (if bc then [y, y * theta, y, y * theta] else [y, y * theta])"
    and "R_save bcm = 1 + r_save" and "beta bcm = beta'" and "sigma bcm = sigma'"
    and "period' \<noteq> 0" and "py_pow (1 + r_borrow) (1 / (52 / period')) = Inr (R_borrow bcm)"
proof -
  have rep: "concat (replicate 2 xs) = xs @ xs" for xs :: "real list"
    by (simp add: numeral_2_eq_2)
  from assms show "linspace a_min' a_max' Na' = Inr (a_vals bcm)" and "Na bcm = nat Na'"
    and "0 \<le> Na'" and "a_min bcm = a_min'" and "a_max bcm = a_max'"
    and "P bcm = (if bc then P_business_cycle else P_no_business_cycle)"
    and "Ns bcm = (if bc then 4 else 2)"
    and "y_vals bcm = (if bc then [y, y * theta, y, y * theta] else [y, y * theta])"
    and "R_save bcm = 1 + r_save" and "beta bcm = beta'" and "sigma bcm = sigma'"
    and "period' \<noteq> 0" and "py_pow (1 + r_borrow) (1 / (52 / period')) = Inr (R_borrow bcm)"
    by (auto simp: BusinessCycleModel_init_def Let_def linspace_def rep
        split: if_splits sum.splits)
qed

lemma linspace_props:
  assumes "linspace start stop num = Inr xs"
  shows "length xs = nat num"
    and "0 < num \<Longrightarrow> xs ! 0 = start"
    and "start \<le> stop \<Longrightarrow> i < nat num \<Longrightarrow> start \<le> xs ! i"
proof -
  from assms have n: "0 \<le> num" by (auto simp: linspace_def split: if_splits)
  show "length xs = nat num"
    using assms by (auto simp: linspace_def split: if_splits)
  show "xs ! 0 = start" if "0 < num"
    using assms that by (auto simp: linspace_def nth_map_upt simp del: upt_Suc split: if_splits)
  show "start \<le> xs ! i" if le: "start \<le> stop" and i: "i < nat num"
  proof (cases "num = 1")
    case True
    with assms i show ?thesis by (auto simp: linspace_def)
  next
    case False
    with assms n have xs: "xs = map (\<lambda>i. start + real i * ((stop - start) / real_of_int (num - 1))) [0..<nat num]"
      by (simp add: linspace_def)
    from False i have "1 < num" by simp
    with le have "0 \<le> real i * ((stop - start) / real_of_int (num - 1))" by simp
    with i show ?thesis unfolding xs by (simp add: nth_map_upt del: upt_Suc)
  qed
qed

lemma init_shapes:
  assumes "BusinessCycleModel_init period' r_save r_borrow y theta beta' sigma' bc a_max' a_min' Na' = Inr bcm"
  shows "bcm_shapes bcm"
  using init_fields(2,6,7,8)[OF assms] linspace_props(1)[OF init_fields(1)[OF assms]]
  by (auto simp: bcm_shapes_def shape2_def P_business_cycle_def P_no_business_cycle_def)

text \<open>
  Claim C10, amended.  For a model the constructor returns with \<open>a_min \<le> a_max\<close> and the
  tables of \<open>util\<close>, under the precondition \<open>y_vals[s0] + a_min * (1 - 1/R(a_min)) > 0\<close>
  for every state, the next-asset index 0 has positive consumption at every cell, so
  the feasibility scan of \<open>T\<close> never meets an empty set and \<open>T\<close> returns.  The claim
  as stated, without \<open>a_min \<le> a_max\<close>, fails on a descending grid, as shown below.
\<close>

theorem bellman_total_on_ascending_grid:
  assumes "BusinessCycleModel_init period' r_save r_borrow y theta beta' sigma' bc a_max' a_min' Na' = Inr bcm"
    and "a_min' \<le> a_max'"
    and "util bcm = Inr (c, u)"
    and "\<forall>s0<Ns bcm. y_vals bcm ! s0 + a_min' * (1 - 1 / R_func bcm a_min') > 0"
  shows "(\<forall>a0<Na bcm. \<forall>s0<Ns bcm. c ! a0 ! s0 ! 0 > 0) \<and>
         (\<exists>v_new policy gamma. T bcm v u c = Inr (v_new, policy, gamma))"
proof -
  note lin = init_fields(1)[OF assms(1)] and na = init_fields(2)[OF assms(1)]
  have first: "c ! a0 ! s0 ! 0 > 0" if b: "a0 < Na bcm" "s0 < Ns bcm" for a0 s0
  proof -
    from b(1) na have pos: "0 < Na'" "a0 < nat Na'" "0 < Na bcm" by simp_all
    have cell: "c ! a0 ! s0 ! 0 = budget_consumption bcm a0 s0 0"
      using util_cells(3)[OF assms(3) b pos(3)] .
    have z: "a_vals bcm ! 0 = a_min'" using linspace_props(2)[OF lin pos(1)] .
    have ge: "a_min' \<le> a_vals bcm ! a0" using linspace_props(3)[OF lin assms(2) pos(2)] .
    from assms(4) b(2) have "0 < y_vals bcm ! s0 + a_min' * (1 - 1 / R_func bcm a_min')" by simp
    also have "\<dots> = a_min' + y_vals bcm ! s0 - a_min' / R_func bcm a_min'"
      by (simp add: algebra_simps)
    also have "\<dots> \<le> a_vals bcm ! a0 + y_vals bcm ! s0 - a_min' / R_func bcm a_min'"
      using ge by simp
    finally show ?thesis by (simp add: cell budget_consumption_def z)
  qed
  have "\<forall>a0<Na bcm. \<forall>s0<Ns bcm. \<exists>j<Na bcm. c ! a0 ! s0 ! j > 0"
  proof (intro allI impI)
    fix a0 s0 assume b: "a0 < Na bcm" "s0 < Ns bcm"
    then have "0 < Na bcm" by simp
    with first[OF b] show "\<exists>j<Na bcm. c ! a0 ! s0 ! j > 0" by blast
  qed
  from T_total_feasible[OF assms(3) this] first show ?thesis by blast
qed

lemma example_bcm_is_init:
  "BusinessCycleModel_init 6 0 0.08 1 0.25 0.995 1 False 1 0 2 = Inr example_bcm"
  using example_bcm_init by (simp add: BusinessCycleModel_default_def)

lemma example_util: "\<exists>c u. util example_bcm = Inr (c, u)"
  using util_total[OF example_bcm_R] by auto

lemma example_cells:
  assumes "util example_bcm = Inr (c, u)"
  shows "c ! 0 ! 0 ! 0 = 1" "c ! 0 ! 0 ! 1 = 0" "u ! 0 ! 0 ! 0 = 0"
    "c ! 0 ! 1 ! 0 = 1 / 4" "c ! 1 ! 0 ! 0 = 2" "c ! 1 ! 1 ! 0 = 5 / 4"
proof -
  have b: "(0::nat) < Na example_bcm" "(1::nat) < Na example_bcm"
    "(0::nat) < Ns example_bcm" "(1::nat) < Ns example_bcm"
    by (simp_all add: example_bcm_fields)
  show "c ! 0 ! 0 ! 0 = 1"
    using util_cells(3)[OF assms b(1) b(3) b(1)]
    by (simp add: budget_consumption_def example_bcm_fields R_func_def)
  show "c ! 0 ! 0 ! 1 = 0"
    using util_cells(3)[OF assms b(1) b(3) b(2)]
    by (simp add: budget_consumption_def example_bcm_fields R_func_def)
  show "u ! 0 ! 0 ! 0 = 0"
    using util_cells(4)[OF assms b(1) b(3) b(1)]
    by (simp add: budget_consumption_def felicity_def example_bcm_fields R_func_def)
  show "c ! 0 ! 1 ! 0 = 1 / 4"
    using util_cells(3)[OF assms b(1) b(4) b(1)]
    by (simp add: budget_consumption_def example_bcm_fields R_func_def)
  show "c ! 1 ! 0 ! 0 = 2"
    using util_cells(3)[OF assms b(2) b(3) b(1)]
    by (simp add: budget_consumption_def example_bcm_fields R_func_def)
  show "c ! 1 ! 1 ! 0 = 5 / 4"
    using util_cells(3)[OF assms b(2) b(4) b(1)]
    by (simp add: budget_consumption_def example_bcm_fields R_func_def)
qed

lemma example_T_runs:
  assumes "util example_bcm = Inr (c, u)"
  shows "\<exists>v_new policy gamma. T example_bcm v u c = Inr (v_new, policy, gamma)"
proof (rule T_total_feasible[OF assms], intro allI impI)
  fix a0 s0 assume "a0 < Na example_bcm" "s0 < Ns example_bcm"
  then have "(a0 = 0 \<or> a0 = 1) \<and> (s0 = 0 \<or> s0 = 1)"
    by (auto simp: example_bcm_fields)
  with example_cells[OF assms] have "c ! a0 ! s0 ! 0 > 0" by auto
  then show "\<exists>j<Na example_bcm. c ! a0 ! s0 ! j > 0"
    by (intro exI[of _ 0]) (simp add: example_bcm_fields)
qed

lemma shape2_zeros2: "shape2 n m (zeros2 n m)"
  by (simp add: shape2_def zeros2_def list_all_length)

theorem bellman_operator_cell_witness:
  "\<exists>c u v_new policy gamma. util example_bcm = Inr (c, u) \<and>
     T example_bcm (zeros2 2 2) u c = Inr (v_new, policy, gamma) \<and>
     v_new ! 0 ! 0 = 0 \<and> policy ! 0 ! 0 = 0 \<and> gamma ! 0 ! 0 = 1"
proof -
  from example_util obtain c u where r: "util example_bcm = Inr (c, u)" by blast
  from example_T_runs[OF r] obtain v_new policy gamma where
    t: "T example_bcm (zeros2 2 2) u c = Inr (v_new, policy, gamma)" by blast
  have sv: "shape2 (Na example_bcm) (Ns example_bcm) (zeros2 2 2)"
    using shape2_zeros2[of 2 2] by (simp add: example_bcm_fields)
  have b: "(0::nat) < Na example_bcm" "(0::nat) < Ns example_bcm"
    by (simp_all add: example_bcm_fields)
  from bellman_operator_cell[OF t example_bcm_shapes sv util_cells(1)[OF r] b]
  obtain a1_max a1 where
    h: "a1_max < Na example_bcm" "c ! 0 ! 0 ! a1_max > 0"
      "v_new ! 0 ! 0 = Max (bellman_candidate example_bcm (zeros2 2 2) u 0 0 ` {0..a1_max})"
      "a1 \<le> a1_max" "policy ! 0 ! 0 = real a1"
      "gamma ! 0 ! 0 = a_vals example_bcm ! 0 + y_vals example_bcm ! 0
          - a_vals example_bcm ! a1 / R_func example_bcm (a_vals example_bcm ! a1)"
    by blast
  from h(1) have "a1_max = 0 \<or> a1_max = 1" by (auto simp: example_bcm_fields)
  with h(2) example_cells(2)[OF r] have z: "a1_max = 0" by auto
  with h(4) have a1: "a1 = 0" by simp
  have cand: "bellman_candidate example_bcm (zeros2 2 2) u 0 0 0 = 0"
    by (simp add: bellman_candidate_def example_cells(3)[OF r] example_bcm_fields zeros2_def
        numeral_2_eq_2)
  from h(3) z cand have "v_new ! 0 ! 0 = 0" by simp
  moreover from h(5) a1 have "policy ! 0 ! 0 = 0" by simp
  moreover from h(6) a1 have "gamma ! 0 ! 0 = 1" by (simp add: example_bcm_fields R_func_def)
  ultimately show ?thesis using r t by blast
qed

theorem bellman_total_on_ascending_grid_witness:
  "\<exists>c u v_new policy gamma. util example_bcm = Inr (c, u) \<and> c ! 1 ! 1 ! 0 > 0 \<and>
     T example_bcm (zeros2 2 2) u c = Inr (v_new, policy, gamma)"
proof -
  from example_util obtain c u where r: "util example_bcm = Inr (c, u)" by blast
  have pre: "\<forall>s0<Ns example_bcm.
      y_vals example_bcm ! s0 + 0 * (1 - 1 / R_func example_bcm 0) > 0"
    by (auto simp: example_bcm_fields less_Suc_eq numeral_2_eq_2)
  have "(0::real) \<le> 1" by simp
  from bellman_total_on_ascending_grid[OF example_bcm_is_init this r pre, of "zeros2 2 2"]
  show ?thesis using r by (auto simp: example_bcm_fields)
qed

lemma descending_bcm_init:
  "BusinessCycleModel_init 52 0 1 1 (1 / 4) (199 / 200) 1 False (- 10) 0 2 = Inr descending_bcm"
  by (simp add: descending_bcm_def BusinessCycleModel_init_def py_pow_def linspace_def Let_def)

lemma descending_bcm_fields:
  "Na descending_bcm = 2" "Ns descending_bcm = 2" "a_vals descending_bcm = [0, - 10]"
  "y_vals descending_bcm = [1, 1 / 4]" "R_save descending_bcm = 1" "R_borrow descending_bcm = 2"
  "a_min descending_bcm = 0" "a_max descending_bcm = - 10"
  by (simp_all add: descending_bcm_def BusinessCycleModel_init_def
      py_pow_def linspace_def Let_def upt_rec numeral_2_eq_2)

text \<open>
  On the descending grid \<open>[0, -10]\<close> with \<open>R_borrow = 2\<close> the precondition of claim C10
  holds in both states, yet at the cell \<open>(1, 0)\<close> no next-asset index has positive
  consumption, and \<open>T\<close> raises.
\<close>

theorem bellman_total_counterexample:
  "\<exists>c u. BusinessCycleModel_init 52 0 1 1 (1 / 4) (199 / 200) 1 False (- 10) 0 2
            = Inr descending_bcm \<and>
     util descending_bcm = Inr (c, u) \<and>
     y_vals descending_bcm ! 0
       + a_min descending_bcm * (1 - 1 / R_func descending_bcm (a_min descending_bcm)) > 0 \<and>
     y_vals descending_bcm ! 1
       + a_min descending_bcm * (1 - 1 / R_func descending_bcm (a_min descending_bcm)) > 0 \<and>
     c ! 1 ! 0 ! 0 \<le> 0 \<and> argwhere_pos (c ! 1 ! 0) = [] \<and>
     T descending_bcm (zeros2 2 2) u c =
       Inl (ValueError ''zero-size array to reduction operation maximum which has no identity'')"
proof -
  have R: "\<forall>a1<Na descending_bcm. R_func descending_bcm (a_vals descending_bcm ! a1) \<noteq> 0"
    by (auto simp: descending_bcm_fields R_func_def less_Suc_eq numeral_2_eq_2)
  from util_total[OF R] obtain c u where r: "util descending_bcm = Inr (c, u)" by auto
  have b: "(0::nat) < Na descending_bcm" "(1::nat) < Na descending_bcm"
    "(0::nat) < Ns descending_bcm" "(1::nat) < Ns descending_bcm"
    by (simp_all add: descending_bcm_fields)
  have c00: "c ! 0 ! 0 ! 0 = 1"
    using util_cells(3)[OF r b(1) b(3) b(1)]
    by (simp add: budget_consumption_def descending_bcm_fields R_func_def)
  have c01: "c ! 0 ! 1 ! 0 = 1 / 4"
    using util_cells(3)[OF r b(1) b(4) b(1)]
    by (simp add: budget_consumption_def descending_bcm_fields R_func_def)
  have c100: "c ! 1 ! 0 ! 0 = - 9"
    using util_cells(3)[OF r b(2) b(3) b(1)]
    by (simp add: budget_consumption_def descending_bcm_fields R_func_def)
  have c101: "c ! 1 ! 0 ! 1 = - 4"
    using util_cells(3)[OF r b(2) b(3) b(2)]
    by (simp add: budget_consumption_def descending_bcm_fields R_func_def)
  have row: "length (c ! a0 ! s0) = 2" if "a0 < 2" "s0 < 2" for a0 s0
    using shape2_nth[OF shape3_nth[OF util_cells(1)[OF r], of a0] , of s0] that
    by (simp add: descending_bcm_fields)
  have empty: "argwhere_pos (c ! 1 ! 0) = []"
    unfolding argwhere_pos_def filter_empty_conv
    using row[of 1 0] c100 c101 by (auto simp: less_Suc_eq numeral_2_eq_2)
  have ok: "\<exists>y. T_cell descending_bcm (zeros2 2 2) u c 0 t0 = Inr y" if "t0 < 2" for t0
  proof -
    from that have "t0 = 0 \<or> t0 = 1" by auto
    with c00 c01 have "c ! 0 ! t0 ! 0 > 0" by auto
    from T_cell_total[OF b(1) this _ R] row[of 0 t0] that show ?thesis
      by (simp add: descending_bcm_fields)
  qed
  have "T descending_bcm (zeros2 2 2) u c =
       Inl (ValueError ''zero-size array to reduction operation maximum which has no identity'')"
    by (rule T_fails[OF b(2) b(3) T_cell_infeasible[OF empty]])
      (use ok in \<open>auto simp: descending_bcm_fields\<close>)
  with descending_bcm_init r c100 empty show ?thesis
    by (auto simp: descending_bcm_fields R_func_def)
qed

section \<open>Stationary distribution\<close>

lemma sum_list_update_real:
  "k < length xs \<Longrightarrow> sum_list (xs[k := x]) = sum_list xs + (x - xs ! k)" for xs :: "real list"
  by (induction xs arbitrary: k) (auto simp: nth_Cons' split: nat.splits)

lemma sum_list_concat_real: "sum_list (concat xss) = sum_list (map sum_list xss)"
  for xss :: "real list list"
  by (induction xss) simp_all

lemma sum2_set2:
  assumes "shape2 n m A" "i < n" "j < m"
  shows "sum2 (set2 A i j x) = sum2 A + (x - A ! i ! j)"
proof -
  have len: "length A = n" "length (A ! i) = m"
    using assms by (simp_all add: shape2_length shape2_nth)
  have "sum2 (set2 A i j x) = sum_list ((map sum_list A)[i := sum_list ((A ! i)[j := x])])"
    by (simp add: sum2_def set2_def sum_list_concat_real map_update)
  also have "\<dots> = sum_list (map sum_list A) + (sum_list ((A ! i)[j := x]) - sum_list (A ! i))"
    using len assms(2) by (simp add: sum_list_update_real)
  also have "sum_list ((A ! i)[j := x]) = sum_list (A ! i) + (x - A ! i ! j)"
    using len assms(3) by (simp add: sum_list_update_real)
  finally show ?thesis by (simp add: sum2_def sum_list_concat_real)
qed

lemma shape2_zeros_like: "shape2 n m A \<Longrightarrow> shape2 n m (zeros_like A)"
  by (simp add: shape2_def zeros_like_def list_all_length)

lemma sum2_zeros_like: "sum2 (zeros_like A) = 0"
proof -
  have "sum_list (map (\<lambda>x. 0::real) xs) = 0" for xs :: "real list" by (induction xs) simp_all
  then show ?thesis by (induction A) (simp_all add: sum2_def zeros_like_def)
qed

lemma py_index_valid: "0 \<le> i \<Longrightarrow> i < int n \<Longrightarrow> py_index n i = Inr (nat i)"
  by (simp add: py_index_def)

lemma dist_iter_flat:
  "dist_iter bcm policy pmf =
     for_loop (List.product [0..<Na bcm] (List.product [0..<Ns bcm] [0..<Ns bcm]))
       (\<lambda>(a0, s0, s1). dist_iter_body bcm policy pmf a0 s0 s1) (zeros_like pmf)"
  unfolding dist_iter_def by (rule for_loop_product3)

lemma dist_iter_step:
  assumes inv: "dist_inv bcm pmf pre st"
    and valid: "0 \<le> policy ! a0 ! s0" "policy ! a0 ! s0 < int (Na bcm)"
    and s1: "s1 < Ns bcm"
  shows "\<exists>st'. dist_iter_body bcm policy pmf a0 s0 s1 st = Inr st' \<and>
           dist_inv bcm pmf (pre @ [(a0, s0, s1)]) st'"
proof -
  from inv have sh: "shape2 (Na bcm) (Ns bcm) st"
    and sm: "sum2 st = sum_list (map (\<lambda>(a0, s0, s1). P bcm ! s0 ! s1 * pmf ! a0 ! s0) pre)"
    by (simp_all add: dist_inv_def)
  let ?a1 = "nat (policy ! a0 ! s0)"
  from valid have a1: "?a1 < Na bcm" by simp
  let ?st' = "set2 st ?a1 s1 (st ! ?a1 ! s1 + P bcm ! s0 ! s1 * pmf ! a0 ! s0)"
  have body: "dist_iter_body bcm policy pmf a0 s0 s1 st = Inr ?st'"
    using py_index_valid[OF valid] shape2_length[OF sh] by (simp add: dist_iter_body_def)
  have "dist_inv bcm pmf (pre @ [(a0, s0, s1)]) ?st'"
    unfolding dist_inv_def using sm
    by (simp add: shape2_set2[OF sh] sum2_set2[OF sh a1 s1])
  with body show ?thesis by blast
qed

lemma sum_list_product:
  "sum_list (map f (List.product xs ys)) =
   sum_list (map (\<lambda>x. sum_list (map (\<lambda>y. f (x, y)) ys)) xs)" for f :: "_ \<Rightarrow> real"
  by (induction xs) (simp_all add: o_def)

lemma sum_list_map_nth_upt:
  "length xs = n \<Longrightarrow> sum_list (map (\<lambda>i. g (xs ! i)) [0..<n]) = sum_list (map g xs)"
  for g :: "_ \<Rightarrow> real"
proof -
  assume "length xs = n"
  then have "map (\<lambda>i. g (xs ! i)) [0..<n] = map g (map (\<lambda>i. xs ! i) [0..<length xs])"
    by (simp add: o_def)
  then show ?thesis by (simp add: map_nth)
qed

lemma moved_mass_total:
  assumes P: "shape2 (Ns bcm) (Ns bcm) (P bcm)" and rows: "\<forall>s0<Ns bcm. sum_list (P bcm ! s0) = 1"
    and pmf: "shape2 (Na bcm) (Ns bcm) pmf"
  shows "sum_list (map (\<lambda>(a0, s0, s1). P bcm ! s0 ! s1 * pmf ! a0 ! s0)
           (List.product [0..<Na bcm] (List.product [0..<Ns bcm] [0..<Ns bcm]))) = sum2 pmf"
proof -
  have inner: "sum_list (map (\<lambda>s1. P bcm ! s0 ! s1 * x) [0..<Ns bcm]) = x"
    if "s0 < Ns bcm" for s0 x
  proof -
    have "sum_list (map (\<lambda>s1. P bcm ! s0 ! s1 * x) [0..<Ns bcm])
        = sum_list (map (\<lambda>s1. P bcm ! s0 ! s1) [0..<Ns bcm]) * x"
      by (simp add: sum_list_mult_const)
    also have "sum_list (map (\<lambda>s1. P bcm ! s0 ! s1) [0..<Ns bcm]) = sum_list (P bcm ! s0)"
      using sum_list_map_nth_upt[OF shape2_nth[OF P that], of "\<lambda>x. x"] by simp
    finally show ?thesis using rows that by simp
  qed
  have middle: "sum_list (map (\<lambda>s0. sum_list (map (\<lambda>s1. P bcm ! s0 ! s1 * pmf ! a0 ! s0)
                  [0..<Ns bcm])) [0..<Ns bcm]) = sum_list (pmf ! a0)"
    if "a0 < Na bcm" for a0
  proof -
    have "map (\<lambda>s0. sum_list (map (\<lambda>s1. P bcm ! s0 ! s1 * pmf ! a0 ! s0) [0..<Ns bcm]))
            [0..<Ns bcm] = map (\<lambda>s0. pmf ! a0 ! s0) [0..<Ns bcm]"
      by (rule map_cong) (simp_all add: inner)
    then have "sum_list (map (\<lambda>s0. sum_list (map (\<lambda>s1. P bcm ! s0 ! s1 * pmf ! a0 ! s0)
                  [0..<Ns bcm])) [0..<Ns bcm]) = sum_list (map (\<lambda>s0. pmf ! a0 ! s0) [0..<Ns bcm])"
      by (rule arg_cong)
    also have "\<dots> = sum_list (pmf ! a0)"
      using sum_list_map_nth_upt[OF shape2_nth[OF pmf that], of "\<lambda>x. x"] by simp
    finally show ?thesis .
  qed
  have "sum_list (map (\<lambda>(a0, s0, s1). P bcm ! s0 ! s1 * pmf ! a0 ! s0)
           (List.product [0..<Na bcm] (List.product [0..<Ns bcm] [0..<Ns bcm])))
      = sum_list (map (\<lambda>a0. sum_list (map (\<lambda>s0. sum_list (map (\<lambda>s1.
           P bcm ! s0 ! s1 * pmf ! a0 ! s0) [0..<Ns bcm])) [0..<Ns bcm])) [0..<Na bcm])"
    by (simp add: sum_list_product)
  also have "\<dots> = sum_list (map (\<lambda>a0. sum_list (pmf ! a0)) [0..<Na bcm])"
    by (rule arg_cong[where f = sum_list], rule map_cong) (simp_all add: middle)
  also have "\<dots> = sum_list (map sum_list pmf)"
    using sum_list_map_nth_upt[OF shape2_length[OF pmf], of sum_list] by simp
  finally show ?thesis by (simp add: sum2_def sum_list_concat_real)
qed

lemma dist_iter_mass:
  assumes P: "shape2 (Ns bcm) (Ns bcm) (P bcm)" and rows: "\<forall>s0<Ns bcm. sum_list (P bcm ! s0) = 1"
    and pol: "\<forall>a0<Na bcm. \<forall>s0<Ns bcm. 0 \<le> policy ! a0 ! s0 \<and> policy ! a0 ! s0 < int (Na bcm)"
    and pmf: "shape2 (Na bcm) (Ns bcm) pmf"
  shows "\<exists>pmf_new. dist_iter bcm policy pmf = Inr pmf_new \<and>
           shape2 (Na bcm) (Ns bcm) pmf_new \<and> sum2 pmf_new = sum2 pmf"
proof -
  let ?cells = "List.product [0..<Na bcm] (List.product [0..<Ns bcm] [0..<Ns bcm])"
  have "\<exists>st'. for_loop ?cells (\<lambda>(a0, s0, s1). dist_iter_body bcm policy pmf a0 s0 s1)
           (zeros_like pmf) = Inr st' \<and> dist_inv bcm pmf ?cells st'"
  proof (rule for_loop_total[where Inv = "dist_inv bcm pmf"])
    show "dist_inv bcm pmf [] (zeros_like pmf)"
      by (simp add: dist_inv_def shape2_zeros_like[OF pmf] sum2_zeros_like)
  next
    fix pre x s
    assume x: "x \<in> set ?cells" and inv: "dist_inv bcm pmf pre s"
    obtain a0 s0 s1 where xe: "x = (a0, s0, s1)" by (cases x)
    from x xe have b: "a0 < Na bcm" "s0 < Ns bcm" "s1 < Ns bcm" by auto
    from pol b have v: "0 \<le> policy ! a0 ! s0" "policy ! a0 ! s0 < int (Na bcm)" by simp_all
    from dist_iter_step[OF inv v b(3)] xe
    show "\<exists>s'. (case x of (a0, s0, s1) \<Rightarrow> dist_iter_body bcm policy pmf a0 s0 s1) s = Inr s'
            \<and> dist_inv bcm pmf (pre @ [x]) s'" by simp
  qed
  then obtain st' where "dist_iter bcm policy pmf = Inr st'" "dist_inv bcm pmf ?cells st'"
    unfolding dist_iter_flat by blast
  then show ?thesis
    using moved_mass_total[OF P rows pmf] by (auto simp: dist_inv_def)
qed

declare invariant_dist_loop.simps [simp del]

lemma sum2_const:
  "shape2 n m A \<Longrightarrow> sum2 (map (map (\<lambda>x. k)) A) = real (n * m) * k"
proof (induction A arbitrary: n)
  case Nil
  then show ?case by (simp add: sum2_def shape2_def)
next
  case (Cons row A)
  from Cons.prems obtain n' where n: "n = Suc n'" and sh: "shape2 n' m A" and len: "length row = m"
    by (cases n) (auto simp: shape2_def)
  have "sum_list (map (\<lambda>x. k) row) = real m * k"
    using len by (simp add: sum_list_triv)
  with Cons.IH[OF sh] n show ?case
    by (simp add: sum2_def algebra_simps)
qed

lemma shape2_map_map: "shape2 n m A \<Longrightarrow> shape2 n m (map (map f) A)"
  by (simp add: shape2_def list_all_length)

lemma uniform_pmf_props:
  assumes "shape2 (Na bcm) (Ns bcm) policy"
  shows "shape2 (Na bcm) (Ns bcm) (uniform_pmf bcm policy)"
    and "0 < Na bcm * Ns bcm \<Longrightarrow> sum2 (uniform_pmf bcm policy) = 1"
  unfolding uniform_pmf_def using sum2_const[OF assms] shape2_map_map[OF assms]
  by simp_all

lemma dist_iter_sweeps_mass:
  assumes P: "shape2 (Ns bcm) (Ns bcm) (P bcm)" and rows: "\<forall>s0<Ns bcm. sum_list (P bcm ! s0) = 1"
    and pol: "\<forall>a0<Na bcm. \<forall>s0<Ns bcm. 0 \<le> policy ! a0 ! s0 \<and> policy ! a0 ! s0 < int (Na bcm)"
    and pmf: "shape2 (Na bcm) (Ns bcm) pmf"
  shows "\<exists>pmf_n. dist_iter_sweeps bcm policy n pmf = Inr pmf_n \<and> sum2 pmf_n = sum2 pmf"
  using pmf
proof (induction n arbitrary: pmf)
  case 0
  then show ?case by simp
next
  case (Suc n)
  from dist_iter_mass[OF P rows pol Suc.prems] obtain pmf_new where
    s: "dist_iter bcm policy pmf = Inr pmf_new" "shape2 (Na bcm) (Ns bcm) pmf_new"
      "sum2 pmf_new = sum2 pmf" by blast
  from Suc.IH[OF s(2)] s(1,3) show ?case by simp
qed

lemma invariant_dist_loop_mass:
  "invariant_dist_loop bcm policy tol max_iter verbose print_skip i err pmf out
           = (out', Inr (i', pmf')) \<Longrightarrow>
   shape2 (Ns bcm) (Ns bcm) (P bcm) \<Longrightarrow> \<forall>s0<Ns bcm. sum_list (P bcm ! s0) = 1 \<Longrightarrow>
   \<forall>a0<Na bcm. \<forall>s0<Ns bcm. 0 \<le> policy ! a0 ! s0 \<and> policy ! a0 ! s0 < int (Na bcm) \<Longrightarrow>
   shape2 (Na bcm) (Ns bcm) pmf \<Longrightarrow> sum2 pmf' = sum2 pmf"
proof (induction bcm policy tol max_iter verbose print_skip i err pmf out
    rule: invariant_dist_loop.induct)
  case (1 bcm policy tol max_iter verbose print_skip i err pmf out)
  note run = "1.prems"(1) and P = "1.prems"(2) and rows = "1.prems"(3)
    and pol = "1.prems"(4) and sh = "1.prems"(5)
  show ?case
  proof (cases "i < max_iter \<and> err > tol")
    case False
    with run show ?thesis by (simp add: invariant_dist_loop.simps)
  next
    case True
    from dist_iter_mass[OF P rows pol sh] obtain pmf_new where
      s: "dist_iter bcm policy pmf = Inr pmf_new" "shape2 (Na bcm) (Ns bcm) pmf_new"
        "sum2 pmf_new = sum2 pmf" by blast
    from run True s(1) obtain err' where
      e: "sup_dist pmf pmf_new = Inr err'" and v: "\<not> (verbose \<and> print_skip = 0)"
      and rec: "invariant_dist_loop bcm policy tol max_iter verbose print_skip (i + 1) err' pmf_new
         (if verbose \<and> (i + 1) mod print_skip = 0
          then out @ [Error_at_iteration (i + 1) err'] else out) = (out', Inr (i', pmf'))"
      by (subst (asm) invariant_dist_loop.simps) (auto split: sum.splits if_splits)
    from "1.IH"[OF True s(1) e v rec P rows pol s(2)] s(3) show ?thesis by simp
  qed
qed

text \<open>
  Claim C5.  With every row of \<open>P\<close> summing to 1 and a policy whose values are asset-grid
  indices \<open>0 \<le> a1 < Na\<close>, one sweep \<open>dist_iter\<close> returns a mass function with the sum of the
  one it was given.  From the uniform initialisation the mass is 1 after every number of
  sweeps, and the mass function \<open>solve_invariant_dist\<close> returns sums to 1.
\<close>

theorem dist_iter_conserves_mass:
  assumes "shape2 (Ns bcm) (Ns bcm) (P bcm)" and "\<forall>s0<Ns bcm. sum_list (P bcm ! s0) = 1"
    and "shape2 (Na bcm) (Ns bcm) policy"
    and "\<forall>a0<Na bcm. \<forall>s0<Ns bcm. 0 \<le> policy ! a0 ! s0 \<and> policy ! a0 ! s0 < int (Na bcm)"
  shows "(\<forall>pmf. shape2 (Na bcm) (Ns bcm) pmf \<longrightarrow>
            (\<exists>pmf_new. dist_iter bcm policy pmf = Inr pmf_new \<and> sum2 pmf_new = sum2 pmf)) \<and>
         (0 < Na bcm * Ns bcm \<longrightarrow>
            (\<forall>n. \<exists>pmf_n. dist_iter_sweeps bcm policy n (uniform_pmf bcm policy) = Inr pmf_n \<and>
                    sum2 pmf_n = 1)) \<and>
         (\<forall>tol max_iter verbose print_skip out pmf.
            solve_invariant_dist bcm policy tol max_iter verbose print_skip = (out, Inr pmf) \<longrightarrow>
            sum2 pmf = 1)"
proof (intro conjI allI impI)
  fix pmf :: array2 assume "shape2 (Na bcm) (Ns bcm) pmf"
  from dist_iter_mass[OF assms(1,2,4) this]
  show "\<exists>pmf_new. dist_iter bcm policy pmf = Inr pmf_new \<and> sum2 pmf_new = sum2 pmf" by blast
next
  fix n assume pos: "0 < Na bcm * Ns bcm"
  from dist_iter_sweeps_mass[OF assms(1,2,4) uniform_pmf_props(1)[OF assms(3)], of n]
    uniform_pmf_props(2)[OF assms(3) pos]
  show "\<exists>pmf_n. dist_iter_sweeps bcm policy n (uniform_pmf bcm policy) = Inr pmf_n \<and>
          sum2 pmf_n = 1" by simp
next
  fix tol max_iter verbose print_skip out pmf
  assume run: "solve_invariant_dist bcm policy tol max_iter verbose print_skip = (out, Inr pmf)"
  then have pos: "0 < Na bcm * Ns bcm"
    by (auto simp: solve_invariant_dist_def split: if_splits)
  from run pos obtain out' i' where
    "invariant_dist_loop bcm policy tol max_iter verbose print_skip 0 (1 + tol)
       (uniform_pmf bcm policy) [] = (out', Inr (i', pmf))"
    by (auto simp: solve_invariant_dist_def uniform_pmf_def Let_def
        split: if_splits prod.splits sum.splits)
  from invariant_dist_loop_mass[OF this assms(1,2,4) uniform_pmf_props(1)[OF assms(3)]]
    uniform_pmf_props(2)[OF assms(3) pos]
  show "sum2 pmf = 1" by simp
qed

lemma example_P_rows:
  "shape2 (Ns example_bcm) (Ns example_bcm) (P example_bcm)"
  "\<forall>s0<Ns example_bcm. sum_list (P example_bcm ! s0) = 1"
  by (auto simp: example_bcm_fields P_no_business_cycle_def shape2_def less_Suc_eq numeral_2_eq_2)

theorem dist_iter_conserves_mass_witness:
  "(\<exists>pmf_new. dist_iter example_bcm [[0, 0], [1, 1]] [[1 / 2, 1 / 4], [1 / 8, 1 / 8]] = Inr pmf_new
      \<and> sum2 pmf_new = 1) \<and>
   (\<exists>pmf_n. dist_iter_sweeps example_bcm [[0, 0], [1, 1]] 3
        (uniform_pmf example_bcm [[0, 0], [1, 1]]) = Inr pmf_n \<and> sum2 pmf_n = 1)"
proof -
  have pol: "shape2 (Na example_bcm) (Ns example_bcm) [[0, 0], [1, 1 :: int]]"
    by (simp add: shape2_def example_bcm_fields)
  have valid: "\<forall>a0<Na example_bcm. \<forall>s0<Ns example_bcm.
      0 \<le> [[0, 0], [1, 1 :: int]] ! a0 ! s0 \<and> [[0, 0], [1, 1 :: int]] ! a0 ! s0 < int (Na example_bcm)"
    by (auto simp: example_bcm_fields less_Suc_eq numeral_2_eq_2)
  have pmf: "shape2 (Na example_bcm) (Ns example_bcm) [[1 / 2, 1 / 4], [1 / 8, 1 / 8 :: real]]"
    by (simp add: shape2_def example_bcm_fields)
  have pos: "0 < Na example_bcm * Ns example_bcm" by (simp add: example_bcm_fields)
  from dist_iter_conserves_mass[OF example_P_rows pol valid] pmf pos
  show ?thesis by (auto simp: sum2_def)
qed

section \<open>Model construction\<close>

lemma P_rows_sum:
  "\<forall>s0<4. sum_list (P_business_cycle ! s0) = 1"
  "\<forall>s0<2. sum_list (P_no_business_cycle ! s0) = 1"
  by (auto simp: P_business_cycle_def P_no_business_cycle_def less_Suc_eq numeral_eq_Suc)

lemma linspace_total: "0 \<le> num \<Longrightarrow> \<exists>xs. linspace start stop num = Inr xs"
  by (simp add: linspace_def)

text \<open>
  Claim C6, amended.  The constructor checks nothing of its arguments.  The transition
  matrix is one of two literals whose rows sum to 1, so no configuration has a
  malformed row.  With a period other than 0 and \<open>1 + r_borrow > 0\<close>, construction
  raises exactly when \<open>Na\<close> is negative (the ValueError of \<open>np.linspace\<close>); for every
  \<open>Na \<ge> 0\<close>, zero included, and every \<open>a_min\<close>, \<open>a_max\<close>, also with \<open>a_min > a_max\<close>, it
  returns a model whose grid has \<open>Na\<close> points.
\<close>

theorem construction_checks_only_negative_Na:
  assumes "period' \<noteq> 0" and "0 < 1 + r_borrow"
  shows "(Na' < 0 \<longrightarrow>
            BusinessCycleModel_init period' r_save r_borrow y theta beta' sigma' bc a_max' a_min' Na'
              = Inl (ValueError ''Number of samples must be non-negative'')) \<and>
         (0 \<le> Na' \<longrightarrow>
            (\<exists>bcm. BusinessCycleModel_init period' r_save r_borrow y theta beta' sigma' bc
                      a_max' a_min' Na' = Inr bcm \<and>
               a_min bcm = a_min' \<and> a_max bcm = a_max' \<and> Na bcm = nat Na' \<and>
               length (a_vals bcm) = nat Na' \<and>
               shape2 (Ns bcm) (Ns bcm) (P bcm) \<and>
               (\<forall>s0<Ns bcm. sum_list (P bcm ! s0) = 1)))"
proof (intro conjI impI)
  assume "Na' < 0"
  with assms show "BusinessCycleModel_init period' r_save r_borrow y theta beta' sigma' bc
      a_max' a_min' Na' = Inl (ValueError ''Number of samples must be non-negative'')"
    by (simp add: BusinessCycleModel_init_def py_pow_def linspace_def Let_def)
next
  assume n: "0 \<le> Na'"
  from linspace_total[OF n] obtain xs where xs: "linspace a_min' a_max' Na' = Inr xs" by blast
  from assms xs obtain bcm where
    b: "BusinessCycleModel_init period' r_save r_borrow y theta beta' sigma' bc a_max' a_min' Na'
          = Inr bcm"
    by (simp add: BusinessCycleModel_init_def py_pow_def Let_def)
  note f = init_fields[OF b]
  from init_shapes[OF b] have sh: "shape2 (Ns bcm) (Ns bcm) (P bcm)"
    and len: "length (a_vals bcm) = Na bcm" by (simp_all add: bcm_shapes_def)
  have rows: "\<forall>s0<Ns bcm. sum_list (P bcm ! s0) = 1"
    using P_rows_sum f(6,7) by (cases bc) simp_all
  from b f(2,4,5) sh len rows
  show "\<exists>bcm. BusinessCycleModel_init period' r_save r_borrow y theta beta' sigma' bc
                      a_max' a_min' Na' = Inr bcm \<and>
               a_min bcm = a_min' \<and> a_max bcm = a_max' \<and> Na bcm = nat Na' \<and>
               length (a_vals bcm) = nat Na' \<and>
               shape2 (Ns bcm) (Ns bcm) (P bcm) \<and>
               (\<forall>s0<Ns bcm. sum_list (P bcm ! s0) = 1)"
    by auto
qed

theorem construction_checks_only_negative_Na_witness:
  "BusinessCycleModel_init 6 0 0.08 1 0.25 0.995 1.5 True 8 0 (- 1)
     = Inl (ValueError ''Number of samples must be non-negative'') \<and>
   (\<exists>bcm. BusinessCycleModel_init 6 0 0.08 1 0.25 0.995 1.5 True 8 0 301 = Inr bcm \<and>
      a_min bcm = 0 \<and> a_max bcm = 8 \<and> Na bcm = 301 \<and> length (a_vals bcm) = 301)"
proof -
  have h: "(6::real) \<noteq> 0" "(0::real) < 1 + 0.08" by simp_all
  from construction_checks_only_negative_Na[OF h, where Na' = "- 1" and r_save = 0 and y = 1
      and theta = "0.25" and beta' = "0.995" and sigma' = "1.5" and bc = True and a_max' = 8
      and a_min' = 0]
    construction_checks_only_negative_Na[OF h, where Na' = 301 and r_save = 0 and y = 1
      and theta = "0.25" and beta' = "0.995" and sigma' = "1.5" and bc = True and a_max' = 8
      and a_min' = 0]
  show ?thesis by auto
qed

text \<open>
  The constructor returns a model for \<open>a_min = 1 > a_max = 0\<close>, with a descending grid, and
  for \<open>Na = 0\<close>, with an empty grid.
\<close>

theorem construction_accepts_malformed_counterexample:
  "(\<exists>bcm. BusinessCycleModel_default 1.5 True 0 1 2 = Inr bcm \<and>
      a_min bcm > a_max bcm \<and> a_vals bcm = [1, 0]) \<and>
   (\<exists>bcm. BusinessCycleModel_default 1.5 True 8 0 0 = Inr bcm \<and>
      Na bcm = 0 \<and> a_vals bcm = [])"
  by (simp add: BusinessCycleModel_default_def BusinessCycleModel_init_def py_pow_def
      linspace_def Let_def upt_rec numeral_2_eq_2)

declare value_iteration_loop.simps [simp del]

declare time_iter_loop.simps [simp del]

lemma linear_bcm_fields:
  "Na linear_bcm = 2" "Ns linear_bcm = 2" "a_vals linear_bcm = [1, 2]"
  "y_vals linear_bcm = [1, 1 / 4]" "R_save linear_bcm = 1" "sigma linear_bcm = 0"
  "beta linear_bcm = 199 / 200" "P linear_bcm = P_no_business_cycle"
  by (simp_all add: linear_bcm_def BusinessCycleModel_default_def BusinessCycleModel_init_def
      py_pow_def linspace_def Let_def upt_rec numeral_2_eq_2)

lemma upt_2: "[0..<2] = [0, Suc 0]"
  by (simp add: upt_rec numeral_2_eq_2)

lemma linear_util: "util linear_bcm = Inr (linear_c, linear_u)"
  by (simp add: util_def util_body_def linear_bcm_fields upt_2 R_func_def U_func_def
      set3_def set2_def empty3_def empty2_def Let_def numeral_2_eq_2 linear_c_def linear_u_def)

lemma linear_T:
  "T linear_bcm (zeros2 2 2) linear_u linear_c
   = Inr ([[1, 1 / 4], [2, 5 / 4]], [[0, 0], [0, 0]], [[1, 1 / 4], [2, 5 / 4]])"
  by (simp add: T_def T_body_def linear_bcm_fields upt_2 R_func_def
      set2_def empty_like_def zeros2_def Let_def numeral_2_eq_2 np_max_def np_argmax_def
      argwhere_pos_def dot_def P_no_business_cycle_def linear_c_def linear_u_def)

lemma value_iteration_loop_exit:
  "value_iteration_loop bcm u c tol max_iter verbose print_skip i err v pg out
     = (out', Inr (i', err', v', pg')) \<Longrightarrow>
   (i' = i \<and> err' = err \<and> v' = v \<and> pg' = pg \<and> out' = out) \<or>
   (i < i' \<and> (\<exists>v_prev policy gamma. T bcm v_prev u c = Inr (v', policy, gamma) \<and>
       sup_dist v_prev v' = Inr err' \<and> pg' = Some (policy, gamma)))"
proof (induction bcm u c tol max_iter verbose print_skip i err v pg out
    rule: value_iteration_loop.induct)
  case (1 bcm u c tol max_iter verbose print_skip i err v pg out)
  note run = "1.prems"
  show ?case
  proof (cases "i < max_iter \<and> err > tol")
    case False
    with run show ?thesis by (simp add: value_iteration_loop.simps)
  next
    case True
    from run True obtain v_new policy gamma e where
      t: "T bcm v u c = Inr (v_new, policy, gamma)" and e: "sup_dist v v_new = Inr e"
      and vb: "\<not> (verbose \<and> print_skip = 0)"
      and rec: "value_iteration_loop bcm u c tol max_iter verbose print_skip (i + 1) e v_new
         (Some (policy, gamma))
         (if verbose \<and> (i + 1) mod print_skip = 0
          then out @ [Error_at_iteration (i + 1) e] else out) = (out', Inr (i', err', v', pg'))"
      by (subst (asm) value_iteration_loop.simps) (auto split: sum.splits if_splits prod.splits)
    from "1.IH"[OF True t refl refl e vb rec] t e show ?thesis by auto
  qed
qed

section \<open>The operator \<open>K\<close>\<close>

lemma K_flat:
  "K bcm brentq interp gamma =
     for_loop (List.product (enumerate 0 (a_vals bcm)) [0..<Ns bcm])
       (\<lambda>(ia, s). K_body bcm brentq interp gamma (fst ia) (snd ia) s)
       (empty_like gamma, empty_like gamma)"
proof -
  have "(\<lambda>(i, a). for_loop [0..<Ns bcm] (K_body bcm brentq interp gamma i a))
      = (\<lambda>ia. for_loop [0..<Ns bcm] (K_body bcm brentq interp gamma (fst ia) (snd ia)))"
    by (simp add: fun_eq_iff split: prod.splits)
  then show ?thesis unfolding K_def by (simp add: for_loop_product)
qed

lemma K_flat_body:
  "(case x of (ia, s) \<Rightarrow> K_body bcm brentq interp gamma (fst ia) (snd ia) s) st =
     (case (case x of (ia, s) \<Rightarrow> K_cell bcm brentq interp gamma (snd ia) s) of
        Inl e \<Rightarrow> Inl e | Inr c \<Rightarrow> Inr (K_write bcm x c st))"
  by (cases x; cases st) (auto simp: K_body_def K_cell_def K_write_def split: sum.splits)

lemma enumerate_mem: "(i, a) \<in> set (enumerate 0 xs) \<longleftrightarrow> i < length xs \<and> a = xs ! i"
  by (auto simp: in_set_enumerate_eq)

lemma K_cells_set:
  "x \<in> set (List.product (enumerate 0 (a_vals bcm)) [0..<Ns bcm]) \<longleftrightarrow>
   (\<exists>i s. x = ((i, a_vals bcm ! i), s) \<and> i < length (a_vals bcm) \<and> s < Ns bcm)"
  by (cases x) (auto simp: enumerate_mem)





lemma K_raises:
  assumes "K bcm brentq interp gamma = Inl e"
  shows "\<exists>i s. i < length (a_vals bcm) \<and> s < Ns bcm \<and>
           K_cell bcm brentq interp gamma (a_vals bcm ! i) s = Inl e"
proof -
  from fill_loop_Inl_D[where f = "\<lambda>(ia, s). K_cell bcm brentq interp gamma (snd ia) s"
      and w = "K_write bcm", OF K_flat_body assms[unfolded K_flat]]
  obtain pre x post where
    xs: "List.product (enumerate 0 (a_vals bcm)) [0..<Ns bcm] = pre @ x # post"
    and bad: "(case x of (ia, s) \<Rightarrow> K_cell bcm brentq interp gamma (snd ia) s) = Inl e"
    by blast
  from xs have "x \<in> set (List.product (enumerate 0 (a_vals bcm)) [0..<Ns bcm])" by simp
  then obtain i s where "x = ((i, a_vals bcm ! i), s)" "i < length (a_vals bcm)" "s < Ns bcm"
    unfolding K_cells_set by blast
  with bad show ?thesis by auto
qed

lemma K_first_cell_raises:
  assumes "0 < length (a_vals bcm)" "0 < Ns bcm"
    and "K_cell bcm brentq interp gamma (a_vals bcm ! 0) 0 = Inl e"
  shows "K bcm brentq interp gamma = Inl e"
proof -
  from assms(1) obtain a rest where av: "a_vals bcm = a # rest" by (cases "a_vals bcm") auto
  let ?post = "map (Pair (0, a)) [Suc 0..<Ns bcm] @ List.product (enumerate (Suc 0) rest) [0..<Ns bcm]"
  have p: "List.product (enumerate 0 (a # rest)) ys
      = map (Pair (0, a)) ys @ List.product (enumerate (Suc 0) rest) ys" for ys :: "nat list"
    by simp
  have m: "map (Pair (0, a)) [0..<Ns bcm] = ((0, a), 0) # map (Pair (0, a)) [Suc 0..<Ns bcm]"
    using assms(2) by (simp add: upt_conv_Cons)
  have cells: "List.product (enumerate 0 (a_vals bcm)) [0..<Ns bcm] = [] @ ((0, a), 0) # ?post"
    unfolding av p m by simp
  have "for_loop ([] @ ((0, a), 0) # ?post)
       (\<lambda>(ia, s). K_body bcm brentq interp gamma (fst ia) (snd ia) s)
       (empty_like gamma, empty_like gamma) = Inl e"
    by (rule fill_loop_Inl[where f = "\<lambda>(ia, s). K_cell bcm brentq interp gamma (snd ia) s"
          and w = "K_write bcm", OF K_flat_body]) (use assms(3) av in simp_all)
  then show ?thesis unfolding K_flat cells .
qed

lemma log_bcm_fields:
  "Na log_bcm = 2" "Ns log_bcm = 2" "a_vals log_bcm = [1, 2]"
  "y_vals log_bcm = [1, 1 / 4]" "R_save log_bcm = 1" "sigma log_bcm = 1"
  "beta log_bcm = 199 / 200" "P log_bcm = P_no_business_cycle"
  by (simp_all add: log_bcm_def BusinessCycleModel_default_def BusinessCycleModel_init_def
      py_pow_def linspace_def Let_def upt_rec numeral_2_eq_2)

lemma linear_euler_diff:
  "s < 2 \<Longrightarrow> euler_diff linear_bcm interp_linear c a s [[1, 1], [2, 2]] = Finite 0"
  by (auto simp: euler_diff_def u_prime_def linear_bcm_fields upt_2 P_no_business_cycle_def
      Let_def less_Suc_eq numeral_2_eq_2 fl_sub_def py_max_def)

lemma linear_K:
  "K linear_bcm bracketing_root interp_linear [[1, 1], [2, 2]]
     = Inr ([[2, 5 / 4], [3, 9 / 4]], [[0, 0], [0, 0]])"
  by (simp add: K_def K_body_def linear_bcm_fields upt_2 bracketing_root_def linear_euler_diff
      set2_def empty_like_def enumerate_eq_zip)

section \<open>The solvers at the iteration cap\<close>

lemma time_iter_loop_exit:
  "time_iter_loop bcm brentq interp tol max_iter verbose print_skip i err g pg out
     = (out', Inr (i', err', g', pg')) \<Longrightarrow>
   (i' = i \<and> err' = err \<and> g' = g \<and> pg' = pg \<and> out' = out) \<or>
   (i < i' \<and> (\<exists>g_prev asset_policy. K bcm brentq interp g_prev = Inr (g', asset_policy) \<and>
       sup_dist g_prev g' = Inr err' \<and> pg' = Some (g', asset_policy)))"
proof (induction bcm brentq interp tol max_iter verbose print_skip i err g pg out
    rule: time_iter_loop.induct)
  case (1 bcm brentq interp tol max_iter verbose print_skip i err g pg out)
  note run = "1.prems"
  show ?case
  proof (cases "i < max_iter \<and> err > tol")
    case False
    with run show ?thesis by (simp add: time_iter_loop.simps)
  next
    case True
    from run True obtain g_new asset_policy e where
      t: "K bcm brentq interp g = Inr (g_new, asset_policy)" and e: "sup_dist g g_new = Inr e"
      and vb: "\<not> (verbose \<and> print_skip = 0)"
      and rec: "time_iter_loop bcm brentq interp tol max_iter verbose print_skip (i + 1) e g_new
         (Some (g_new, asset_policy))
         (if verbose \<and> (i + 1) mod print_skip = 0
          then out @ [Error_at_iteration (i + 1) e] else out) = (out', Inr (i', err', g', pg'))"
      by (subst (asm) time_iter_loop.simps) (auto split: sum.splits if_splits prod.splits)
    from "1.IH"[OF True t refl e vb rec] t e show ?thesis by auto
  qed
qed

text \<open>
  Claim C7, amended.  With \<open>max_iter \<ge> 1\<close>, when the loop of a solver ends without a raise
  at \<open>i = max_iter\<close> with the error above the tolerance, the call returns: it prints
  \<open>Failed to converge!\<close> and returns the arrays of the last sweep, that is the result of
  the last application of \<open>T\<close> (value iteration) or \<open>K\<close> (policy iteration).  What it
  returns is these arrays only, with no convergence flag and no iteration count.
\<close>

theorem nonconvergence_returns_last_iterate:
  assumes "0 < max_iter"
  shows "(util bcm = Inr (c, u) \<longrightarrow>
          value_iteration_loop bcm u c tol max_iter verbose print_skip 0 (tol + 1)
            (zeros2 (Na bcm) (Ns bcm)) None
            (if verbose then [Print ''Solve model with value function iteration.''] else [])
            = (out, Inr (i, err, v, pg)) \<longrightarrow>
          i = max_iter \<longrightarrow> err > tol \<longrightarrow>
          (\<exists>v_prev policy gamma.
             T bcm v_prev u c = Inr (v, policy, gamma) \<and> sup_dist v_prev v = Inr err \<and>
             solve_model_value_iteration bcm use_parallel tol max_iter verbose print_skip
               = (out @ [Print ''Failed to converge!''], Inr (v, astype_int policy, gamma)))) \<and>
         (time_iter_loop bcm brentq interp tol max_iter verbose print_skip 0 (tol + 1)
            (map (\<lambda>a. replicate (Ns bcm) a) (a_vals bcm)) None
            (if verbose then [Print ''Solve model with policy function iteration.''] else [])
            = (out', Inr (i', err', g, pg')) \<longrightarrow>
          i' = max_iter \<longrightarrow> err' > tol \<longrightarrow>
          (\<exists>g_prev asset_policy.
             K bcm brentq interp g_prev = Inr (g, asset_policy) \<and> sup_dist g_prev g = Inr err' \<and>
             solve_model_time_iter bcm brentq interp tol max_iter verbose print_skip
               = (out' @ [Print ''Failed to converge!'']
                    @ (if verbose then [Converged_in max_iter] else []),
                  Inr (g, asset_policy))))"
proof (intro conjI impI)
  assume r: "util bcm = Inr (c, u)"
    and loop: "value_iteration_loop bcm u c tol max_iter verbose print_skip 0 (tol + 1)
            (zeros2 (Na bcm) (Ns bcm)) None
            (if verbose then [Print ''Solve model with value function iteration.''] else [])
            = (out, Inr (i, err, v, pg))"
    and i: "i = max_iter"
  from value_iteration_loop_exit[OF loop] assms i obtain v_prev policy gamma where
    l: "T bcm v_prev u c = Inr (v, policy, gamma)" "sup_dist v_prev v = Inr err"
      "pg = Some (policy, gamma)" by auto
  have "solve_model_value_iteration bcm use_parallel tol max_iter verbose print_skip
      = (out @ [Print ''Failed to converge!''], Inr (v, astype_int policy, gamma))"
    unfolding solve_model_value_iteration_def Let_def r using loop i l(3) by simp
  with l show "\<exists>v_prev policy gamma.
       T bcm v_prev u c = Inr (v, policy, gamma) \<and> sup_dist v_prev v = Inr err \<and>
       solve_model_value_iteration bcm use_parallel tol max_iter verbose print_skip
         = (out @ [Print ''Failed to converge!''], Inr (v, astype_int policy, gamma))" by blast
next
  assume loop: "time_iter_loop bcm brentq interp tol max_iter verbose print_skip 0 (tol + 1)
            (map (\<lambda>a. replicate (Ns bcm) a) (a_vals bcm)) None
            (if verbose then [Print ''Solve model with policy function iteration.''] else [])
            = (out', Inr (i', err', g, pg'))"
    and i: "i' = max_iter"
  from time_iter_loop_exit[OF loop] assms i obtain g_prev asset_policy where
    l: "K bcm brentq interp g_prev = Inr (g, asset_policy)" "sup_dist g_prev g = Inr err'"
      "pg' = Some (g, asset_policy)" by auto
  have "solve_model_time_iter bcm brentq interp tol max_iter verbose print_skip
      = (out' @ [Print ''Failed to converge!''] @ (if verbose then [Converged_in max_iter] else []),
         Inr (g, asset_policy))"
    unfolding solve_model_time_iter_def Let_def using loop i l(3) by simp
  with l show "\<exists>g_prev asset_policy.
       K bcm brentq interp g_prev = Inr (g, asset_policy) \<and> sup_dist g_prev g = Inr err' \<and>
       solve_model_time_iter bcm brentq interp tol max_iter verbose print_skip
         = (out' @ [Print ''Failed to converge!''] @ (if verbose then [Converged_in max_iter] else []),
            Inr (g, asset_policy))" by blast
qed

lemma linear_sup_dist:
  "sup_dist (zeros2 2 2) [[1, 1 / 4], [2, 5 / 4]] = Inr 2"
  "sup_dist [[1, 1], [2, 2]] [[2, 5 / 4], [3, 9 / 4]] = Inr 1"
  by (simp_all add: sup_dist_def np_max_def zeros2_def numeral_2_eq_2)

lemma linear_value_iteration_loop:
  "value_iteration_loop linear_bcm
      linear_u linear_c tol 1 False 100 0 (tol + 1) (zeros2 2 2) None []
   = ([], Inr (1, 2, [[1, 1 / 4], [2, 5 / 4]],
        Some ([[0, 0], [0, 0]], [[1, 1 / 4], [2, 5 / 4]])))"
  by (subst value_iteration_loop.simps, subst value_iteration_loop.simps)
    (simp add: linear_T linear_sup_dist)

lemma linear_time_iter_loop:
  "time_iter_loop linear_bcm bracketing_root interp_linear tol 1 False 25 0 (tol + 1)
      [[1, 1], [2, 2]] None []
   = ([], Inr (1, 1, [[2, 5 / 4], [3, 9 / 4]],
        Some ([[2, 5 / 4], [3, 9 / 4]], [[0, 0], [0, 0]])))"
  by (subst time_iter_loop.simps, subst time_iter_loop.simps)
    (simp add: linear_K linear_sup_dist)

theorem nonconvergence_returns_last_iterate_witness:
  "(\<exists>v_prev policy gamma.
      T linear_bcm v_prev linear_u linear_c
        = Inr ([[1, 1 / 4], [2, 5 / 4]], policy, gamma) \<and>
      solve_model_value_iteration linear_bcm True 1 1 False 100
        = ([Print ''Failed to converge!''],
           Inr ([[1, 1 / 4], [2, 5 / 4]], astype_int policy, gamma))) \<and>
   (\<exists>g_prev asset_policy.
      K linear_bcm bracketing_root interp_linear g_prev
        = Inr ([[2, 5 / 4], [3, 9 / 4]], asset_policy) \<and>
      solve_model_time_iter linear_bcm bracketing_root interp_linear (1 / 2) 1 False 25
        = ([Print ''Failed to converge!''], Inr ([[2, 5 / 4], [3, 9 / 4]], asset_policy)))"
proof -
  have m: "(0::int) < 1" by simp
  have g0: "map (\<lambda>a. replicate (Ns linear_bcm) a) (a_vals linear_bcm) = [[1, 1], [2, 2]]"
    by (simp add: linear_bcm_fields numeral_2_eq_2)
  note vi_inst = nonconvergence_returns_last_iterate[OF m, where bcm = linear_bcm
      and verbose = False and tol = 1 and print_skip = 100 and use_parallel = True
      and c = linear_c and u = linear_u, THEN conjunct1, rule_format, OF linear_util]
  note ti_inst = nonconvergence_returns_last_iterate[OF m, where bcm = linear_bcm
      and verbose = False and brentq = bracketing_root and interp = interp_linear
      and tol = "1 / 2" and print_skip = 25, THEN conjunct2, rule_format]
  from vi_inst linear_value_iteration_loop[of 1]
  have vi: "\<exists>v_prev policy gamma.
      T linear_bcm v_prev linear_u linear_c
        = Inr ([[1, 1 / 4], [2, 5 / 4]], policy, gamma) \<and>
      solve_model_value_iteration linear_bcm True 1 1 False 100
        = ([Print ''Failed to converge!''],
           Inr ([[1, 1 / 4], [2, 5 / 4]], astype_int policy, gamma))"
    by (simp add: linear_bcm_fields) blast
  from ti_inst linear_time_iter_loop[of "1 / 2"]
  have ti: "\<exists>g_prev asset_policy.
      K linear_bcm bracketing_root interp_linear g_prev
        = Inr ([[2, 5 / 4], [3, 9 / 4]], asset_policy) \<and>
      solve_model_time_iter linear_bcm bracketing_root interp_linear (1 / 2) 1 False 25
        = ([Print ''Failed to converge!''], Inr ([[2, 5 / 4], [3, 9 / 4]], asset_policy))"
    by (simp add: g0) blast
  from vi ti show ?thesis by blast
qed

text \<open>
  Two calls of the value iteration on one model with \<open>max_iter = 1\<close>: after the one sweep
  the error is 2, above the tolerance 1 of the first call and below the tolerance 3 of
  the second.  Both calls print and return the same; nothing the caller receives tells
  the run that did not converge from the one that did.  With \<open>max_iter = 0\<close> the call
  raises.
\<close>

theorem nonconvergence_flag_counterexample:
  "solve_model_value_iteration linear_bcm True 1 1 False 100
     = ([Print ''Failed to converge!''],
        Inr ([[1, 1 / 4], [2, 5 / 4]], [[0, 0], [0, 0]], [[1, 1 / 4], [2, 5 / 4]])) \<and>
   solve_model_value_iteration linear_bcm True 3 1 False 100
     = ([Print ''Failed to converge!''],
        Inr ([[1, 1 / 4], [2, 5 / 4]], [[0, 0], [0, 0]], [[1, 1 / 4], [2, 5 / 4]])) \<and>
   sup_dist (zeros2 2 2) [[1, 1 / 4], [2, 5 / 4]] = Inr 2 \<and>
   solve_model_value_iteration linear_bcm True 1 0 False 100
     = ([Print ''Failed to converge!''], Inl (UnboundLocalError ''policy''))"
proof -
  have z: "value_iteration_loop linear_bcm u c 1 0 False 100 0 (1 + 1) (zeros2 2 2) None []
      = ([], Inr (0, 2, zeros2 2 2, None))" for u c
    by (subst value_iteration_loop.simps) simp
  show ?thesis
    using linear_value_iteration_loop[of 1] linear_value_iteration_loop[of 3] z
    by (simp add: solve_model_value_iteration_def linear_util linear_bcm_fields linear_sup_dist
        astype_int_def)
qed

section \<open>The Euler equation\<close>

lemma u_prime_pos: "0 < c \<Longrightarrow> u_prime bcm c = Finite (marginal_utility bcm c)"
  by (simp add: u_prime_def marginal_utility_def)


lemma py_max_Finite: "py_max (Finite x) (Finite y) = Finite (max x y)"
  by (simp add: py_max_def max_def)

lemma expect_Finite:
  "\<forall>s1<n. 0 < g s1 \<Longrightarrow>
   fold (\<lambda>s1 e. fl_add e (fl_mul (u_prime bcm (g s1)) (Finite (p s1)))) [0..<n] (Finite z)
     = Finite (z + (\<Sum>s1<n. p s1 * marginal_utility bcm (g s1)))"
  by (induction n) (simp_all add: u_prime_pos mult.commute)

text \<open>
  On positive consumptions the function \<open>K\<close> hands to the root finder is the Euler residual
  of the spec, a real number.
\<close>

lemma euler_diff_refines:
  assumes "0 < c" and "0 < a + y_vals bcm ! s"
    and "\<forall>s1<Ns bcm. 0 < interp (a_vals bcm) (map (\<lambda>row. row ! s1) gamma)
                            (R_save bcm * (a - c + y_vals bcm ! s))"
  shows "euler_diff bcm interp c a s gamma = Finite (euler_residual bcm interp gamma a s c)"
  using assms(3)
  by (simp add: euler_diff_def euler_residual_def Let_def expect_Finite u_prime_pos[OF assms(1)]
      u_prime_pos[OF assms(2)] py_max_Finite fl_sub_def)

text \<open>
  At the upper end of the bracket the whole cash on hand is consumed.  On a grid that
  starts at 0 the solver's first policy is 0 there: the marginal utility is an infinity
  and the residual is minus infinity, not 0.
\<close>

lemma example_residual_at_upper_end:
  "euler_diff example_bcm interp_linear 1 0 0 [[0, 0], [1, 1]] = NegInf"
  by (simp add: euler_diff_def u_prime_def example_bcm_fields upt_2
      P_no_business_cycle_def Let_def fl_sub_def py_max_def inf_times_def)

lemma example_residual_at_root:
  "euler_diff example_bcm interp_linear (200 / 399) 0 0 [[0, 0], [1, 1]] = Finite 0"
  by (simp add: euler_diff_def u_prime_def example_bcm_fields upt_2
      P_no_business_cycle_def Let_def fl_sub_def py_max_def powr_minus_divide)




lemma ample_interp:
  "s1 < 2 \<Longrightarrow> interp_linear [1, 2] (map (\<lambda>row. row ! s1) ample_policy) x
     = (if x \<le> 1 then 3 else if x \<le> 2 then 2 + x else 4)"
  by (auto simp: ample_policy_def less_Suc_eq numeral_2_eq_2)

lemma ample_residual:
  assumes "0 < c" "0 < a + y_vals log_bcm ! s" "s < 2" "a + y_vals log_bcm ! s - c \<le> 1"
  shows "euler_diff log_bcm interp_linear c a s ample_policy
     = Finite (1 / c - max (199 / 600) (1 / (a + y_vals log_bcm ! s)))"
proof -
  have pos: "\<forall>s1<Ns log_bcm. 0 < interp_linear (a_vals log_bcm)
      (map (\<lambda>row. row ! s1) ample_policy) (R_save log_bcm * (a - c + y_vals log_bcm ! s))"
    by (simp add: log_bcm_fields ample_interp)
  have x: "a - c + y_vals log_bcm ! s \<le> 1" using assms(4) by simp
  have "euler_residual log_bcm interp_linear ample_policy a s c
      = 1 / c - max (199 / 600) (1 / (a + y_vals log_bcm ! s))"
    using assms(1,2,3) x
    by (auto simp: euler_residual_def marginal_utility_def log_bcm_fields ample_interp
        P_no_business_cycle_def powr_minus_divide less_Suc_eq numeral_2_eq_2
        lessThan_Suc)
  with euler_diff_refines[where bcm = log_bcm and interp = interp_linear
      and gamma = ample_policy, OF assms(1,2) pos] show ?thesis by simp
qed








text \<open>
  The residual of this policy is no constant: at the grid point \<open>(0, 0)\<close> it is \<open>1/2\<close> for
  the consumption 1 and 0 for the consumption 2, the upper end of the bracket.
\<close>

lemma ample_residual_values:
  "euler_diff log_bcm interp_linear 1 1 0 ample_policy = Finite (1 / 2)"
  "euler_diff log_bcm interp_linear 2 1 0 ample_policy = Finite 0"
  using ample_residual[of 1 1 0] ample_residual[of 2 1 0] by (simp_all add: log_bcm_fields)

section \<open>A bracket without a sign change\<close>

lemma tiny_bcm_fields:
  "Na tiny_bcm = 2" "Ns tiny_bcm = 2" "a_vals tiny_bcm = [1 / 10 ^ 10, 2 / 10 ^ 10]"
  "y_vals tiny_bcm = [1, 1 / 4]" "R_save tiny_bcm = 1" "sigma tiny_bcm = 1"
  "beta tiny_bcm = 199 / 200" "P tiny_bcm = P_no_business_cycle"
  by (simp_all add: tiny_bcm_def BusinessCycleModel_default_def BusinessCycleModel_init_def
      py_pow_def linspace_def Let_def upt_rec numeral_2_eq_2)

lemma log_residual_tiny:
  "0 < c \<Longrightarrow>
   euler_diff log_bcm interp_linear c 1 0 tiny_policy = Finite (1 / c - 199 * 10 ^ 7 / 2)"
  by (simp add: euler_diff_def u_prime_def log_bcm_fields upt_2 P_no_business_cycle_def
      Let_def powr_minus_divide field_simps tiny_policy_def fl_sub_def py_max_def)

lemma log_cell_tiny:
  "K_cell log_bcm bracketing_root interp_linear tiny_policy 1 0
   = Inl (ValueError ''f(a) and f(b) must have different signs'')"
  by (simp add: K_cell_def bracketing_root_def log_residual_tiny log_bcm_fields)

lemma log_cells_mixed:
  "\<exists>r. K_cell log_bcm bracketing_root interp_linear mixed_policy 1 0 = Inr r"
  "K_cell log_bcm bracketing_root interp_linear mixed_policy 1 1
     = Inl (ValueError ''f(a) and f(b) must have different signs'')"
  by (simp_all add: K_cell_def bracketing_root_def euler_diff_def u_prime_def log_bcm_fields
      upt_2 P_no_business_cycle_def Let_def powr_minus_divide mixed_policy_def
      fl_sub_def py_max_def)

lemma log_K_tiny:
  "K log_bcm bracketing_root interp_linear tiny_policy
     = Inl (ValueError ''f(a) and f(b) must have different signs'')"
  by (rule K_first_cell_raises) (simp_all add: log_bcm_fields log_cell_tiny)

lemma log_K_mixed:
  "K log_bcm bracketing_root interp_linear mixed_policy
     = Inl (ValueError ''f(a) and f(b) must have different signs'')"
proof -
  have cells: "List.product (enumerate 0 (a_vals log_bcm)) [0..<Ns log_bcm]
      = [((0, 1), 0)] @ ((0, 1), Suc 0) # [((Suc 0, 2), 0), ((Suc 0, 2), Suc 0)]"
    by (simp add: log_bcm_fields upt_2)
  have "for_loop ([((0, 1), 0)] @ ((0, 1), Suc 0) # [((Suc 0, 2), 0), ((Suc 0, 2), Suc 0)])
       (\<lambda>(ia, s). K_body log_bcm bracketing_root interp_linear mixed_policy (fst ia) (snd ia) s)
       (empty_like mixed_policy, empty_like mixed_policy)
     = Inl (ValueError ''f(a) and f(b) must have different signs'')"
    by (rule fill_loop_Inl[where
          f = "\<lambda>(ia, s). K_cell log_bcm bracketing_root interp_linear mixed_policy (snd ia) s"
          and w = "K_write log_bcm", OF K_flat_body])
      (use log_cells_mixed in simp_all)
  then show ?thesis unfolding K_flat cells .
qed

lemma tiny_K:
  "K tiny_bcm bracketing_root interp_linear
      (map (\<lambda>a. replicate (Ns tiny_bcm) a) (a_vals tiny_bcm))
     = Inl (ValueError ''f(a) and f(b) must have different signs'')"
  by (rule K_first_cell_raises)
    (simp_all add: tiny_bcm_fields K_cell_def bracketing_root_def euler_diff_def u_prime_def
      upt_2 P_no_business_cycle_def Let_def powr_minus_divide numeral_2_eq_2
      fl_sub_def py_max_def)

text \<open>
  The loop of \<open>solve_model_time_iter\<close> from its state at the head of a sweep is the loop
  from its start, and an error of \<open>K\<close> ends it.
\<close>

lemma time_iter_loop_state:
  "time_iter_state bcm brentq interp tol max_iter verbose print_skip n = Some (i, err, g) \<Longrightarrow>
   \<exists>pg out. time_iter_loop bcm brentq interp tol max_iter verbose print_skip 0 (tol + 1)
               (map (\<lambda>a. replicate (Ns bcm) a) (a_vals bcm)) None out0
     = time_iter_loop bcm brentq interp tol max_iter verbose print_skip i err g pg out"
proof (induction n arbitrary: i err g)
  case 0
  then show ?case by auto
next
  case (Suc n)
  from Suc.prems obtain i' err' g' asset_policy where
    st: "time_iter_state bcm brentq interp tol max_iter verbose print_skip n = Some (i', err', g')"
    and go: "i' < max_iter" "err' > tol"
    and k: "K bcm brentq interp g' = Inr (g, asset_policy)"
    and e: "sup_dist g' g = Inr err" and vb: "\<not> (verbose \<and> print_skip = 0)"
    and i: "i = i' + 1"
    by (auto split: option.splits sum.splits if_splits prod.splits)
  from Suc.IH[OF st] obtain pg out where
    "time_iter_loop bcm brentq interp tol max_iter verbose print_skip 0 (tol + 1)
               (map (\<lambda>a. replicate (Ns bcm) a) (a_vals bcm)) None out0
     = time_iter_loop bcm brentq interp tol max_iter verbose print_skip i' err' g' pg out"
    by blast
  also have "\<dots> = time_iter_loop bcm brentq interp tol max_iter verbose print_skip i err g
      (Some (g, asset_policy))
      (if verbose \<and> i mod print_skip = 0 then out @ [Error_at_iteration i err] else out)"
    using go k e vb i by (subst time_iter_loop.simps) auto
  finally show ?case by blast
qed

lemma time_iter_loop_raises:
  "i < max_iter \<Longrightarrow> err > tol \<Longrightarrow> K bcm brentq interp g = Inl e \<Longrightarrow>
   time_iter_loop bcm brentq interp tol max_iter verbose print_skip i err g pg out = (out, Inl e)"
  by (subst time_iter_loop.simps) simp

text \<open>
  Claim C8, amended.  \<open>K\<close> has no guard of its own.  The error \<open>K\<close> raises is an error
  \<open>brentq\<close> raised for one of the grid points, passed on unchanged; \<open>K\<close> raises whenever
  \<open>brentq\<close> raises for a grid point; and an error of \<open>K\<close> in any sweep the loop of
  \<open>solve_model_time_iter\<close> comes to ends the call with that same error.  \<open>K\<close> adds no
  coordinates to it.
\<close>

theorem K_passes_on_brentq_error:
  "(K bcm brentq interp gamma = Inl e \<longrightarrow>
      (\<exists>i s. i < length (a_vals bcm) \<and> s < Ns bcm \<and>
         brentq (\<lambda>c. euler_diff bcm interp c (a_vals bcm ! i) s gamma)
           (1 / 10 ^ 8) (a_vals bcm ! i + y_vals bcm ! s) = Inl e)) \<and>
   ((\<exists>i s e'. i < length (a_vals bcm) \<and> s < Ns bcm \<and>
         brentq (\<lambda>c. euler_diff bcm interp c (a_vals bcm ! i) s gamma)
           (1 / 10 ^ 8) (a_vals bcm ! i + y_vals bcm ! s) = Inl e') \<longrightarrow>
      (\<exists>e'. K bcm brentq interp gamma = Inl e')) \<and>
   (time_iter_state bcm brentq interp tol max_iter verbose print_skip n = Some (i, err, g) \<longrightarrow>
      i < max_iter \<longrightarrow> err > tol \<longrightarrow> K bcm brentq interp g = Inl e \<longrightarrow>
      snd (solve_model_time_iter bcm brentq interp tol max_iter verbose print_skip) = Inl e)"
proof (intro conjI impI)
  assume "K bcm brentq interp gamma = Inl e"
  from K_raises[OF this]
  show "\<exists>i s. i < length (a_vals bcm) \<and> s < Ns bcm \<and>
         brentq (\<lambda>c. euler_diff bcm interp c (a_vals bcm ! i) s gamma)
           (1 / 10 ^ 8) (a_vals bcm ! i + y_vals bcm ! s) = Inl e"
    by (simp add: K_cell_def)
next
  assume "\<exists>i s e'. i < length (a_vals bcm) \<and> s < Ns bcm \<and>
         brentq (\<lambda>c. euler_diff bcm interp c (a_vals bcm ! i) s gamma)
           (1 / 10 ^ 8) (a_vals bcm ! i + y_vals bcm ! s) = Inl e'"
  then obtain i s e' where b: "i < length (a_vals bcm)" "s < Ns bcm"
    and bad: "K_cell bcm brentq interp gamma (a_vals bcm ! i) s = Inl e'"
    by (auto simp: K_cell_def)
  show "\<exists>e'. K bcm brentq interp gamma = Inl e'"
  proof (cases "K bcm brentq interp gamma")
    case (Inl e'')
    then show ?thesis by blast
  next
    case (Inr r)
    from fill_loop_Inr[where f = "\<lambda>(ia, s). K_cell bcm brentq interp gamma (snd ia) s"
        and w = "K_write bcm", OF K_flat_body Inr[unfolded K_flat]]
    have "\<forall>x\<in>set (List.product (enumerate 0 (a_vals bcm)) [0..<Ns bcm]).
        \<exists>y. (case x of (ia, s) \<Rightarrow> K_cell bcm brentq interp gamma (snd ia) s) = Inr y" .
    moreover from b have "((i, a_vals bcm ! i), s)
        \<in> set (List.product (enumerate 0 (a_vals bcm)) [0..<Ns bcm])"
      by (simp add: enumerate_mem)
    ultimately have "\<exists>y. K_cell bcm brentq interp gamma (a_vals bcm ! i) s = Inr y" by fastforce
    with bad show ?thesis by simp
  qed
next
  assume st: "time_iter_state bcm brentq interp tol max_iter verbose print_skip n
      = Some (i, err, g)"
    and go: "i < max_iter" "err > tol" and k: "K bcm brentq interp g = Inl e"
  from time_iter_loop_state[OF st] obtain pg out where
    "time_iter_loop bcm brentq interp tol max_iter verbose print_skip 0 (tol + 1)
       (map (\<lambda>a. replicate (Ns bcm) a) (a_vals bcm)) None
       (if verbose then [Print ''Solve model with policy function iteration.''] else [])
     = time_iter_loop bcm brentq interp tol max_iter verbose print_skip i err g pg out"
    by blast
  also have "\<dots> = (out, Inl e)" by (rule time_iter_loop_raises[OF go k])
  finally show "snd (solve_model_time_iter bcm brentq interp tol max_iter verbose print_skip)
      = Inl e"
    by (simp add: solve_model_time_iter_def Let_def)
qed

text \<open>
  A run that fails in its second sweep: with \<open>sigma = -1\<close> the first sweep consumes the
  cash on hand at every grid point, and in the second the bracket of the grid point
  \<open>(0, 1)\<close> has no sign change.
\<close>

lemma convex_bcm_fields:
  "Na convex_bcm = 2" "Ns convex_bcm = 2" "a_vals convex_bcm = [1, 2]"
  "y_vals convex_bcm = [1, 1 / 4]" "R_save convex_bcm = 1" "sigma convex_bcm = - 1"
  "beta convex_bcm = 199 / 200" "P convex_bcm = P_no_business_cycle"
  by (simp_all add: convex_bcm_def BusinessCycleModel_default_def BusinessCycleModel_init_def
      py_pow_def linspace_def Let_def upt_rec numeral_2_eq_2)

lemma convex_first_sweep:
  "K convex_bcm bracketing_root interp_linear
      (map (\<lambda>a. replicate (Ns convex_bcm) a) (a_vals convex_bcm))
     = Inr (cash_policy, [[0, 0], [0, 0]])"
  by (simp add: K_def K_body_def convex_bcm_fields upt_2 bracketing_root_def euler_diff_def
      u_prime_def P_no_business_cycle_def Let_def fl_sub_def py_max_def
      set2_def empty_like_def enumerate_eq_zip numeral_2_eq_2 cash_policy_def)

lemma convex_second_cells:
  "\<exists>r. K_cell convex_bcm bracketing_root interp_linear cash_policy 1 0 = Inr r"
  "K_cell convex_bcm bracketing_root interp_linear cash_policy 1 1
     = Inl (ValueError ''f(a) and f(b) must have different signs'')"
  by (simp_all add: K_cell_def bracketing_root_def euler_diff_def u_prime_def convex_bcm_fields
      upt_2 P_no_business_cycle_def Let_def cash_policy_def fl_sub_def py_max_def)

lemma convex_second_sweep:
  "K convex_bcm bracketing_root interp_linear cash_policy
     = Inl (ValueError ''f(a) and f(b) must have different signs'')"
proof -
  have cells: "List.product (enumerate 0 (a_vals convex_bcm)) [0..<Ns convex_bcm]
      = [((0, 1), 0)] @ ((0, 1), Suc 0) # [((Suc 0, 2), 0), ((Suc 0, 2), Suc 0)]"
    by (simp add: convex_bcm_fields upt_2)
  have "for_loop ([((0, 1), 0)] @ ((0, 1), Suc 0) # [((Suc 0, 2), 0), ((Suc 0, 2), Suc 0)])
       (\<lambda>(ia, s). K_body convex_bcm bracketing_root interp_linear cash_policy (fst ia) (snd ia) s)
       (empty_like cash_policy, empty_like cash_policy)
     = Inl (ValueError ''f(a) and f(b) must have different signs'')"
    by (rule fill_loop_Inl[where
          f = "\<lambda>(ia, s). K_cell convex_bcm bracketing_root interp_linear cash_policy (snd ia) s"
          and w = "K_write convex_bcm", OF K_flat_body])
      (use convex_second_cells in simp_all)
  then show ?thesis unfolding K_flat cells .
qed

lemma convex_state:
  "time_iter_state convex_bcm bracketing_root interp_linear (1 / 10 ^ 4) 1000 True 25 1
     = Some (1, 1, cash_policy)"
proof -
  have "sup_dist (map (\<lambda>a. replicate (Ns convex_bcm) a) (a_vals convex_bcm)) cash_policy = Inr 1"
    by (simp add: sup_dist_def np_max_def convex_bcm_fields cash_policy_def numeral_2_eq_2)
  then show ?thesis
    unfolding One_nat_def time_iter_state.simps by (simp add: convex_first_sweep)
qed

theorem K_passes_on_brentq_error_witness:
  "(\<exists>i s. i < length (a_vals log_bcm) \<and> s < Ns log_bcm \<and>
      bracketing_root (\<lambda>c. euler_diff log_bcm interp_linear c (a_vals log_bcm ! i) s tiny_policy)
        (1 / 10 ^ 8) (a_vals log_bcm ! i + y_vals log_bcm ! s)
      = Inl (ValueError ''f(a) and f(b) must have different signs'')) \<and>
   (\<exists>e'. K log_bcm bracketing_root interp_linear mixed_policy = Inl e') \<and>
   snd (solve_model_time_iter tiny_bcm bracketing_root interp_linear (1 / 10 ^ 4) 1000 True 25)
     = Inl (ValueError ''f(a) and f(b) must have different signs'') \<and>
   time_iter_state convex_bcm bracketing_root interp_linear (1 / 10 ^ 4) 1000 True 25 1
     = Some (1, 1, cash_policy) \<and>
   snd (solve_model_time_iter convex_bcm bracketing_root interp_linear (1 / 10 ^ 4) 1000 True 25)
     = Inl (ValueError ''f(a) and f(b) must have different signs'')"
proof -
  have bad: "\<exists>i s e'. i < length (a_vals log_bcm) \<and> s < Ns log_bcm \<and>
      bracketing_root (\<lambda>c. euler_diff log_bcm interp_linear c (a_vals log_bcm ! i) s mixed_policy)
        (1 / 10 ^ 8) (a_vals log_bcm ! i + y_vals log_bcm ! s) = Inl e'"
    using log_cells_mixed(2)
    by (intro exI[of _ 0] exI[of _ 1]) (simp add: K_cell_def log_bcm_fields)
  have first: "time_iter_state tiny_bcm bracketing_root interp_linear (1 / 10 ^ 4) 1000 True 25 0
      = Some (0, 1 / 10 ^ 4 + 1, map (\<lambda>a. replicate (Ns tiny_bcm) a) (a_vals tiny_bcm))"
    by simp
  have go0: "(0::int) < 1000" "(1::real) / 10 ^ 4 + 1 > 1 / 10 ^ 4" by simp_all
  have go1: "(1::int) < 1000" "(1::real) > 1 / 10 ^ 4" by simp_all
  from K_passes_on_brentq_error[where bcm = log_bcm and brentq = bracketing_root
      and interp = interp_linear and gamma = tiny_policy, THEN conjunct1, rule_format, OF log_K_tiny]
    K_passes_on_brentq_error[where bcm = log_bcm and brentq = bracketing_root
      and interp = interp_linear and gamma = mixed_policy, THEN conjunct2, THEN conjunct1,
      rule_format, OF bad]
    K_passes_on_brentq_error[where bcm = tiny_bcm and brentq = bracketing_root
      and interp = interp_linear, THEN conjunct2, THEN conjunct2, rule_format,
      OF first go0 tiny_K]
    K_passes_on_brentq_error[where bcm = convex_bcm and brentq = bracketing_root
      and interp = interp_linear, THEN conjunct2, THEN conjunct2, rule_format,
      OF convex_state go1 convex_second_sweep]
    convex_state
  show ?thesis by blast
qed

text \<open>
  Two calls of \<open>K\<close> on one model.  For the first policy the residual is negative on the
  whole bracket of the grid point \<open>(0, 0)\<close>; for the second the root finder returns at
  \<open>(0, 0)\<close> and the bracket of \<open>(0, 1)\<close> has no sign change.  \<open>K\<close> raises the same error in
  both calls: the error does not tell the grid point.
\<close>

theorem K_error_without_coordinates_counterexample:
  "K log_bcm bracketing_root interp_linear tiny_policy
     = Inl (ValueError ''f(a) and f(b) must have different signs'') \<and>
   K log_bcm bracketing_root interp_linear mixed_policy
     = Inl (ValueError ''f(a) and f(b) must have different signs'') \<and>
   \<not> (\<exists>c. 1 / 10 ^ 8 \<le> c \<and> c \<le> 2 \<and>
          \<not> fl_less (euler_diff log_bcm interp_linear c 1 0 tiny_policy) (Finite 0)) \<and>
   bracketing_root (\<lambda>c. euler_diff log_bcm interp_linear c 1 0 tiny_policy) (1 / 10 ^ 8) 2
     = Inl (ValueError ''f(a) and f(b) must have different signs'') \<and>
   (\<exists>r. bracketing_root (\<lambda>c. euler_diff log_bcm interp_linear c 1 0 mixed_policy) (1 / 10 ^ 8) 2
           = Inr r) \<and>
   bracketing_root (\<lambda>c. euler_diff log_bcm interp_linear c 1 1 mixed_policy) (1 / 10 ^ 8) (5 / 4)
     = Inl (ValueError ''f(a) and f(b) must have different signs'')"
proof -
  have neg: "\<not> (\<exists>c. 1 / 10 ^ 8 \<le> c \<and> c \<le> 2 \<and>
      \<not> fl_less (euler_diff log_bcm interp_linear c 1 0 tiny_policy) (Finite 0))"
  proof
    assume "\<exists>c. 1 / 10 ^ 8 \<le> c \<and> c \<le> 2 \<and>
      \<not> fl_less (euler_diff log_bcm interp_linear c 1 0 tiny_policy) (Finite 0)"
    then obtain c :: real where c: "1 / 10 ^ 8 \<le> c"
      and nn: "\<not> fl_less (euler_diff log_bcm interp_linear c 1 0 tiny_policy) (Finite 0)"
      by blast
    from c have pos: "0 < c" by (simp add: order_less_le_trans[rotated])
    from c pos have "1 / c \<le> 10 ^ 8" by (simp add: field_simps)
    with nn log_residual_tiny[OF pos] show False by simp
  qed
  from log_cell_tiny log_cells_mixed log_K_tiny log_K_mixed neg show ?thesis
    by (simp add: K_cell_def log_bcm_fields)
qed

section \<open>The welfare comparison\<close>

lemma sup_dist_total:
  assumes "shape2 n m A" "shape2 n m B" "0 < n" "0 < m"
  shows "\<exists>e. sup_dist A B = Inr e"
proof -
  from assms obtain a A' where A: "A = a # A'" by (cases A) (auto simp: shape2_def)
  from assms obtain b B' where B: "B = b # B'" by (cases B) (auto simp: shape2_def)
  from assms A obtain x a' where a: "a = x # a'" by (cases a) (auto simp: shape2_def)
  from assms B obtain y b' where b: "b = y # b'" by (cases b) (auto simp: shape2_def)
  show ?thesis by (simp add: sup_dist_def np_max_def A B a b)
qed

lemma sum_prod_double_sum:
  assumes "shape2 n m A" "shape2 n m B"
  shows "sum_prod A B = (\<Sum>a<n. \<Sum>s<m. A ! a ! s * B ! a ! s)"
proof -
  have len: "length A = n" "length B = n" using assms by (simp_all add: shape2_length)
  have "sum_prod A B = sum_list (map sum_list (map2 (map2 (*)) A B))"
    by (simp add: sum_prod_def sum_list_concat_real)
  also have "\<dots> = (\<Sum>a<n. sum_list (map2 (*) (A ! a) (B ! a)))"
    using len by (simp add: sum_list_sum_nth atLeast0LessThan)
  also have "\<dots> = (\<Sum>a<n. \<Sum>s<m. A ! a ! s * B ! a ! s)"
  proof (rule sum.cong[OF refl])
    fix a assume "a \<in> {..<n}"
    then have a: "a < n" by simp
    from shape2_nth[OF assms(1) a] shape2_nth[OF assms(2) a]
    show "sum_list (map2 (*) (A ! a) (B ! a)) = (\<Sum>s<m. A ! a ! s * B ! a ! s)"
      using sum_list_map2_nth[of "A ! a" "B ! a" "(*)"] by simp
  qed
  finally show ?thesis .
qed

lemma value_iteration_loop_shapes:
  "value_iteration_loop bcm u c tol max_iter verbose print_skip i err v pg out
     = (out', Inr (i', err', v', pg')) \<Longrightarrow>
   shape2 (Na bcm) (Ns bcm) v \<Longrightarrow>
   shape2 (Na bcm) (Ns bcm) v' \<and>
   (i' = i \<and> v' = v \<and> pg' = pg \<and> \<not> (i < max_iter \<and> err > tol) \<or>
    i < i' \<and> (\<exists>v_prev policy gamma. shape2 (Na bcm) (Ns bcm) v_prev \<and>
       T bcm v_prev u c = Inr (v', policy, gamma) \<and> pg' = Some (policy, gamma)))"
proof (induction bcm u c tol max_iter verbose print_skip i err v pg out
    rule: value_iteration_loop.induct)
  case (1 bcm u c tol max_iter verbose print_skip i err v pg out)
  note run = "1.prems"(1) and sh = "1.prems"(2)
  show ?case
  proof (cases "i < max_iter \<and> err > tol")
    case False
    with run sh show ?thesis by (simp add: value_iteration_loop.simps)
  next
    case True
    from run True obtain v_new policy gamma e where
      t: "T bcm v u c = Inr (v_new, policy, gamma)" and e: "sup_dist v v_new = Inr e"
      and vb: "\<not> (verbose \<and> print_skip = 0)"
      and rec: "value_iteration_loop bcm u c tol max_iter verbose print_skip (i + 1) e v_new
         (Some (policy, gamma))
         (if verbose \<and> (i + 1) mod print_skip = 0
          then out @ [Error_at_iteration (i + 1) e] else out) = (out', Inr (i', err', v', pg'))"
      by (subst (asm) value_iteration_loop.simps) (auto split: sum.splits if_splits prod.splits)
    note shn = T_cells(1)[OF t sh]
    from "1.IH"[OF True t refl refl e vb rec shn] t sh show ?thesis by auto
  qed
qed

lemma value_iteration_loop_total:
  "(\<forall>w. shape2 (Na bcm) (Ns bcm) w \<longrightarrow> (\<exists>r. T bcm w u c = Inr r)) \<Longrightarrow>
   0 < Na bcm \<Longrightarrow> 0 < Ns bcm \<Longrightarrow> \<not> verbose \<Longrightarrow>
   shape2 (Na bcm) (Ns bcm) v \<Longrightarrow>
   \<exists>out' r. value_iteration_loop bcm u c tol max_iter verbose print_skip i err v pg out
     = (out', Inr r)"
proof (induction bcm u c tol max_iter verbose print_skip i err v pg out
    rule: value_iteration_loop.induct)
  case (1 bcm u c tol max_iter verbose print_skip i err v pg out)
  note Ttot = "1.prems"(1) and pos = "1.prems"(2,3) and nv = "1.prems"(4) and sh = "1.prems"(5)
  show ?case
  proof (cases "i < max_iter \<and> err > tol")
    case False
    then show ?thesis by (subst value_iteration_loop.simps) auto
  next
    case True
    from Ttot sh obtain v_new policy gamma where t: "T bcm v u c = Inr (v_new, policy, gamma)"
      by (metis prod_cases3)
    note shn = T_cells(1)[OF t sh]
    from sup_dist_total[OF sh shn pos] obtain e where e: "sup_dist v v_new = Inr e" by blast
    from nv have vb: "\<not> (verbose \<and> print_skip = 0)" by simp
    from "1.IH"[OF True t refl refl e vb Ttot pos nv shn] obtain out' r where
      "value_iteration_loop bcm u c tol max_iter verbose print_skip (i + 1) e v_new
         (Some (policy, gamma))
         (if verbose \<and> (i + 1) mod print_skip = 0
          then out @ [Error_at_iteration (i + 1) e] else out) = (out', Inr r)" by blast
    with True t e nv show ?thesis by (subst value_iteration_loop.simps) (cases r; simp)
  qed
qed

lemma dist_iter_shape:
  assumes "dist_iter bcm policy pmf = Inr pmf_new" and "shape2 n m pmf"
  shows "shape2 n m pmf_new"
proof (rule for_loop_invariant[where Inv = "\<lambda>pre st. shape2 n m st",
      OF assms(1)[unfolded dist_iter_flat]])
  show "shape2 n m (zeros_like pmf)" by (rule shape2_zeros_like[OF assms(2)])
next
  fix pre x s s'
  assume "shape2 n m s"
    and "(case x of (a0, s0, s1) \<Rightarrow> dist_iter_body bcm policy pmf a0 s0 s1) s = Inr s'"
  then show "shape2 n m s'"
    by (cases x) (auto simp: dist_iter_body_def shape2_set2 split: sum.splits)
qed

lemma invariant_dist_loop_shape:
  "invariant_dist_loop bcm policy tol max_iter verbose print_skip i err pmf out
     = (out', Inr (i', pmf')) \<Longrightarrow>
   shape2 n m pmf \<Longrightarrow> shape2 n m pmf'"
proof (induction bcm policy tol max_iter verbose print_skip i err pmf out
    rule: invariant_dist_loop.induct)
  case (1 bcm policy tol max_iter verbose print_skip i err pmf out)
  note run = "1.prems"(1) and sh = "1.prems"(2)
  show ?case
  proof (cases "i < max_iter \<and> err > tol")
    case False
    with run sh show ?thesis by (simp add: invariant_dist_loop.simps)
  next
    case True
    from run True obtain pmf_new e where
      s: "dist_iter bcm policy pmf = Inr pmf_new" and e: "sup_dist pmf pmf_new = Inr e"
      and vb: "\<not> (verbose \<and> print_skip = 0)"
      and rec: "invariant_dist_loop bcm policy tol max_iter verbose print_skip (i + 1) e pmf_new
         (if verbose \<and> (i + 1) mod print_skip = 0
          then out @ [Error_at_iteration (i + 1) e] else out) = (out', Inr (i', pmf'))"
      by (subst (asm) invariant_dist_loop.simps) (auto split: sum.splits if_splits)
    from "1.IH"[OF True s e vb rec dist_iter_shape[OF s sh]] show ?thesis .
  qed
qed

lemma invariant_dist_loop_total:
  "shape2 (Ns bcm) (Ns bcm) (P bcm) \<Longrightarrow> \<forall>s0<Ns bcm. sum_list (P bcm ! s0) = 1 \<Longrightarrow>
   \<forall>a0<Na bcm. \<forall>s0<Ns bcm. 0 \<le> policy ! a0 ! s0 \<and> policy ! a0 ! s0 < int (Na bcm) \<Longrightarrow>
   0 < Na bcm \<Longrightarrow> 0 < Ns bcm \<Longrightarrow> \<not> verbose \<Longrightarrow>
   shape2 (Na bcm) (Ns bcm) pmf \<Longrightarrow>
   \<exists>out' r. invariant_dist_loop bcm policy tol max_iter verbose print_skip i err pmf out
     = (out', Inr r)"
proof (induction bcm policy tol max_iter verbose print_skip i err pmf out
    rule: invariant_dist_loop.induct)
  case (1 bcm policy tol max_iter verbose print_skip i err pmf out)
  note P = "1.prems"(1) and rows = "1.prems"(2) and pol = "1.prems"(3)
    and pos = "1.prems"(4,5) and nv = "1.prems"(6) and sh = "1.prems"(7)
  show ?case
  proof (cases "i < max_iter \<and> err > tol")
    case False
    then show ?thesis by (subst invariant_dist_loop.simps) auto
  next
    case True
    from dist_iter_mass[OF P rows pol sh] obtain pmf_new where
      s: "dist_iter bcm policy pmf = Inr pmf_new" and shn: "shape2 (Na bcm) (Ns bcm) pmf_new"
      by blast
    from sup_dist_total[OF sh shn pos] obtain e where e: "sup_dist pmf pmf_new = Inr e" by blast
    from nv have vb: "\<not> (verbose \<and> print_skip = 0)" by simp
    from "1.IH"[OF True s e vb P rows pol pos nv shn] obtain out' r where
      "invariant_dist_loop bcm policy tol max_iter verbose print_skip (i + 1) e pmf_new
         (if verbose \<and> (i + 1) mod print_skip = 0
          then out @ [Error_at_iteration (i + 1) e] else out) = (out', Inr r)" by blast
    with True s e nv show ?thesis by (subst invariant_dist_loop.simps) (cases r; simp)
  qed
qed

lemma value_iteration_result:
  assumes run: "solve_model_value_iteration bcm par tol max_iter verbose print_skip
      = (out, Inr (v, policy, gamma))"
    and shapes: "bcm_shapes bcm"
  shows "shape2 (Na bcm) (Ns bcm) v" and "shape2 (Na bcm) (Ns bcm) policy"
    and "\<forall>a0<Na bcm. \<forall>s0<Ns bcm. 0 \<le> policy ! a0 ! s0 \<and> policy ! a0 ! s0 < int (Na bcm)"
proof -
  from run obtain c u where r: "util bcm = Inr (c, u)"
    by (auto simp: solve_model_value_iteration_def Let_def split: sum.splits prod.splits)
  from run r obtain out' i err pol where
    loop: "value_iteration_loop bcm u c tol max_iter verbose print_skip 0 (tol + 1)
        (zeros2 (Na bcm) (Ns bcm)) None
        (if verbose then [Print ''Solve model with value function iteration.''] else [])
      = (out', Inr (i, err, v, Some (pol, gamma)))"
    and p: "policy = astype_int pol"
    by (auto simp: solve_model_value_iteration_def Let_def
        split: sum.splits prod.splits option.splits if_splits)
  from value_iteration_loop_shapes[OF loop shape2_zeros2] obtain v_prev where
    sv: "shape2 (Na bcm) (Ns bcm) v" and sp: "shape2 (Na bcm) (Ns bcm) v_prev"
    and t: "T bcm v_prev u c = Inr (v, pol, gamma)" by auto
  show "shape2 (Na bcm) (Ns bcm) v" by (rule sv)
  note spol = T_cells(2)[OF t sp]
  show "shape2 (Na bcm) (Ns bcm) policy"
    unfolding p astype_int_def by (rule shape2_map_map[OF spol])
  show "\<forall>a0<Na bcm. \<forall>s0<Ns bcm. 0 \<le> policy ! a0 ! s0 \<and> policy ! a0 ! s0 < int (Na bcm)"
  proof (intro allI impI)
    fix a0 s0 assume b: "a0 < Na bcm" "s0 < Ns bcm"
    from T_cells(4)[OF t sp b] obtain a1 where
      cell: "T_cell bcm v_prev u c a0 s0 = Inr (v ! a0 ! s0, a1, gamma ! a0 ! s0)"
      and pa: "pol ! a0 ! s0 = real a1" by blast
    have row: "length (c ! a0 ! s0) = Na bcm"
      using shape2_nth[OF shape3_nth[OF util_cells(1)[OF r] b(1)] b(2)] .
    from shapes have "shape2 (Ns bcm) (Ns bcm) (P bcm)" by (simp add: bcm_shapes_def)
    from shape2_nth[OF this b(2)] have Prow: "length (P bcm ! s0) = Ns bcm" .
    have vrows: "\<forall>j<Na bcm. length (v_prev ! j) = Ns bcm"
      using sp by (simp add: shape2_nth)
    from T_cell_Inr[OF cell row Prow vrows] have a1: "a1 < Na bcm" by auto
    have "policy ! a0 ! s0 = int a1"
      using b shape2_length[OF spol] shape2_nth[OF spol b(1)] pa
      by (simp add: p astype_int_def)
    with a1 show "0 \<le> policy ! a0 ! s0 \<and> policy ! a0 ! s0 < int (Na bcm)" by simp
  qed
qed

lemma invariant_dist_result:
  assumes "solve_invariant_dist bcm policy tol max_iter verbose print_skip = (out, Inr pmf)"
    and "shape2 (Na bcm) (Ns bcm) policy"
  shows "shape2 (Na bcm) (Ns bcm) pmf"
proof -
  from assms(1) obtain out' i' where
    "invariant_dist_loop bcm policy tol max_iter verbose print_skip 0 (1 + tol)
       (uniform_pmf bcm policy) [] = (out', Inr (i', pmf))"
    by (auto simp: solve_invariant_dist_def uniform_pmf_def Let_def
        split: if_splits prod.splits sum.splits)
  from invariant_dist_loop_shape[OF this uniform_pmf_props(1)[OF assms(2)]] show ?thesis .
qed

lemma expected_value_result:
  assumes "expected_value sigma' a_max' Na' bc = (out, Inr (bcm, V))"
  shows "\<exists>v policy gamma pmf out1 out2.
     BusinessCycleModel_default sigma' bc a_max' 0 Na' = Inr bcm \<and>
     solve_model_value_iteration bcm True (1 / 10 ^ 5) 5000 False 100
       = (out1, Inr (v, policy, gamma)) \<and>
     solve_invariant_dist bcm policy (1 / 10 ^ 7) 2000 False 50 = (out2, Inr pmf) \<and>
     V = expected_lifetime_utility bcm pmf v \<and> out = out1 @ out2"
proof -
  from assms obtain v policy gamma pmf out1 out2 where
    m: "BusinessCycleModel_default sigma' bc a_max' 0 Na' = Inr bcm"
    and vi: "solve_model_value_iteration bcm True (1 / 10 ^ 5) 5000 False 100
       = (out1, Inr (v, policy, gamma))"
    and di: "solve_invariant_dist bcm policy (1 / 10 ^ 7) 2000 False 50 = (out2, Inr pmf)"
    and V: "V = sum_prod pmf v" and out: "out = out1 @ out2"
    by (auto simp: expected_value_def split: sum.splits prod.splits)
  from m have sh: "bcm_shapes bcm"
    unfolding BusinessCycleModel_default_def by (rule init_shapes)
  note r = value_iteration_result[OF vi sh]
  from sum_prod_double_sum[OF invariant_dist_result[OF di r(2)] r(1)] V
  have "V = expected_lifetime_utility bcm pmf v" by (simp add: expected_lifetime_utility_def)
  with m vi di out show ?thesis by blast
qed

lemma default_model_props:
  assumes m: "BusinessCycleModel_default sigma' bc a_max' 0 Na' = Inr bcm"
  shows "bcm_shapes bcm" and "Na bcm = nat Na'" and "0 < Ns bcm" and "sigma bcm = sigma'"
    and "beta bcm = 0.995"
    and "\<forall>s0<Ns bcm. \<forall>s1<Ns bcm. 0 \<le> P bcm ! s0 ! s1"
    and "\<forall>s0<Ns bcm. sum_list (P bcm ! s0) = 1"
    and "\<exists>c u. util bcm = Inr (c, u)"
    and "0 \<le> a_max' \<Longrightarrow> 0 < Na' \<Longrightarrow> util bcm = Inr (c, u) \<Longrightarrow>
         \<forall>a0<Na bcm. \<forall>s0<Ns bcm. c ! a0 ! s0 ! 0 > 0"
proof -
  note m' = m[unfolded BusinessCycleModel_default_def]
  note f = init_fields[OF m']
  show "bcm_shapes bcm" by (rule init_shapes[OF m'])
  from f(2) show "Na bcm = nat Na'" .
  from f(7) show "0 < Ns bcm" by simp
  from f(11) show "sigma bcm = sigma'" .
  from f(10) show "beta bcm = 0.995" .
  show "\<forall>s0<Ns bcm. \<forall>s1<Ns bcm. 0 \<le> P bcm ! s0 ! s1"
    using f(6,7)
    by (cases bc) (auto simp: P_business_cycle_def P_no_business_cycle_def less_Suc_eq
        numeral_eq_Suc)
  show "\<forall>s0<Ns bcm. sum_list (P bcm ! s0) = 1"
    using P_rows_sum f(6,7) by (cases bc) simp_all
  from f(13) have rb: "R_borrow bcm \<noteq> 0" by (auto simp: py_pow_def)
  from f(9) rb have R: "\<forall>a1<Na bcm. R_func bcm (a_vals bcm ! a1) \<noteq> 0"
    by (simp add: R_func_def)
  from util_total[OF R] show "\<exists>c u. util bcm = Inr (c, u)" by auto
  have ypos: "0 < y_vals bcm ! s0" if "s0 < Ns bcm" for s0
  proof -
    from that f(7) have "s0 < 4" by (simp split: if_splits)
    then have "s0 = 0 \<or> s0 = 1 \<or> s0 = 2 \<or> s0 = 3" by auto
    with that f(7,8) show ?thesis by (auto split: if_splits)
  qed
  assume a: "0 \<le> a_max'" and n: "0 < Na'" and r: "util bcm = Inr (c, u)"
  from f(2) n have na: "0 < Na bcm" by simp
  show "\<forall>a0<Na bcm. \<forall>s0<Ns bcm. c ! a0 ! s0 ! 0 > 0"
  proof (intro allI impI)
    fix a0 s0 assume b: "a0 < Na bcm" "s0 < Ns bcm"
    from b(1) f(2) have i: "a0 < nat Na'" by simp
    have cell: "c ! a0 ! s0 ! 0 = budget_consumption bcm a0 s0 0"
      using util_cells(3)[OF r b na] .
    have z: "a_vals bcm ! 0 = 0" using linspace_props(2)[OF f(1) n] .
    have ge: "0 \<le> a_vals bcm ! a0" using linspace_props(3)[OF f(1) a i] .
    from ge ypos[OF b(2)] show "c ! a0 ! s0 ! 0 > 0"
      by (simp add: cell budget_consumption_def z)
  qed
qed

text \<open>
  The sign of the value function.  With \<open>sigma > 1\<close> every utility is negative, and so is
  every value after a sweep of \<open>T\<close>; with \<open>sigma < 1\<close> the utility of a positive consumption
  is positive, and so is every value after a sweep when saving nothing is feasible.
\<close>

lemma felicity_sign:
  "1 < sigma bcm \<Longrightarrow> felicity bcm c0 < 0"
  "sigma bcm < 1 \<Longrightarrow> 0 < c0 \<Longrightarrow> 0 < felicity bcm c0"
  by (auto simp: felicity_def divide_pos_neg divide_neg_pos field_simps)

lemma T_negative:
  assumes t: "T bcm v u c = Inr (v_new, policy, gamma)" and r: "util bcm = Inr (c, u)"
    and sh: "bcm_shapes bcm" and shv: "shape2 (Na bcm) (Ns bcm) v"
    and sig: "1 < sigma bcm" and be: "0 \<le> beta bcm"
    and Pnn: "\<forall>s0<Ns bcm. \<forall>s1<Ns bcm. 0 \<le> P bcm ! s0 ! s1"
    and v: "\<forall>a<Na bcm. \<forall>s<Ns bcm. v ! a ! s \<le> 0"
    and b: "a0 < Na bcm" "s0 < Ns bcm"
  shows "v_new ! a0 ! s0 < 0"
proof -
  from T_cells(4)[OF t shv b] obtain a1 where
    cell: "T_cell bcm v u c a0 s0 = Inr (v_new ! a0 ! s0, a1, gamma ! a0 ! s0)" by blast
  have row: "length (c ! a0 ! s0) = Na bcm"
    using shape2_nth[OF shape3_nth[OF util_cells(1)[OF r] b(1)] b(2)] .
  from sh have "shape2 (Ns bcm) (Ns bcm) (P bcm)" by (simp add: bcm_shapes_def)
  from shape2_nth[OF this b(2)] have Prow: "length (P bcm ! s0) = Ns bcm" .
  have vrows: "\<forall>j<Na bcm. length (v ! j) = Ns bcm" using shv by (simp add: shape2_nth)
  from T_cell_Inr[OF cell row Prow vrows] obtain Na1 where
    n1: "Na1 < Na bcm" "a1 \<le> Na1" and m: "bellman_candidate bcm v u a0 s0 a1 = v_new ! a0 ! s0"
    by blast
  from n1 have a1: "a1 < Na bcm" by simp
  have "u ! a0 ! s0 ! a1 < 0"
    unfolding util_cells(4)[OF r b a1] by (rule felicity_sign(1)[OF sig])
  moreover have "(\<Sum>s1<Ns bcm. P bcm ! s0 ! s1 * v ! a1 ! s1) \<le> 0"
    using Pnn v b(2) a1 by (intro sum_nonpos mult_nonneg_nonpos) auto
  with be have "beta bcm * (\<Sum>s1<Ns bcm. P bcm ! s0 ! s1 * v ! a1 ! s1) \<le> 0"
    by (rule mult_nonneg_nonpos)
  ultimately show ?thesis unfolding m[symmetric] bellman_candidate_def by simp
qed

lemma T_positive:
  assumes t: "T bcm v u c = Inr (v_new, policy, gamma)" and r: "util bcm = Inr (c, u)"
    and sh: "bcm_shapes bcm" and shv: "shape2 (Na bcm) (Ns bcm) v"
    and sig: "sigma bcm < 1" and be: "0 \<le> beta bcm"
    and Pnn: "\<forall>s0<Ns bcm. \<forall>s1<Ns bcm. 0 \<le> P bcm ! s0 ! s1"
    and feas: "\<forall>a0<Na bcm. \<forall>s0<Ns bcm. c ! a0 ! s0 ! 0 > 0"
    and v: "\<forall>a<Na bcm. \<forall>s<Ns bcm. 0 \<le> v ! a ! s"
    and b: "a0 < Na bcm" "s0 < Ns bcm"
  shows "0 < v_new ! a0 ! s0"
proof -
  from T_cells(4)[OF t shv b] obtain a1 where
    cell: "T_cell bcm v u c a0 s0 = Inr (v_new ! a0 ! s0, a1, gamma ! a0 ! s0)" by blast
  have row: "length (c ! a0 ! s0) = Na bcm"
    using shape2_nth[OF shape3_nth[OF util_cells(1)[OF r] b(1)] b(2)] .
  from sh have "shape2 (Ns bcm) (Ns bcm) (P bcm)" by (simp add: bcm_shapes_def)
  from shape2_nth[OF this b(2)] have Prow: "length (P bcm ! s0) = Ns bcm" .
  have vrows: "\<forall>j<Na bcm. length (v ! j) = Ns bcm" using shv by (simp add: shape2_nth)
  from T_cell_Inr[OF cell row Prow vrows] obtain Na1 where
    m: "v_new ! a0 ! s0 = Max (bellman_candidate bcm v u a0 s0 ` {0..Na1})"
    by blast
  from b(1) have na: "0 < Na bcm" by simp
  from feas b have "0 < c ! a0 ! s0 ! 0" by simp
  then have "0 < u ! a0 ! s0 ! 0"
    unfolding util_cells(3)[OF r b na] util_cells(4)[OF r b na]
    by (rule felicity_sign(2)[OF sig])
  moreover have "0 \<le> (\<Sum>s1<Ns bcm. P bcm ! s0 ! s1 * v ! 0 ! s1)"
    using Pnn v b(2) na by (intro sum_nonneg mult_nonneg_nonneg) auto
  with be have "0 \<le> beta bcm * (\<Sum>s1<Ns bcm. P bcm ! s0 ! s1 * v ! 0 ! s1)"
    by (rule mult_nonneg_nonneg)
  ultimately have "0 < bellman_candidate bcm v u a0 s0 0"
    unfolding bellman_candidate_def by simp
  also have "\<dots> \<le> Max (bellman_candidate bcm v u a0 s0 ` {0..Na1})"
    by (rule Max_ge) simp_all
  finally show ?thesis unfolding m .
qed

text \<open>A property every sweep of \<open>T\<close> establishes holds of the iterate the loop ends with.\<close>

lemma value_iteration_loop_sweeps:
  "value_iteration_loop bcm u c tol max_iter verbose print_skip i err v pg out
     = (out', Inr (i', err', v', pg')) \<Longrightarrow>
   \<forall>w w' pol gam. Q w \<longrightarrow> T bcm w u c = Inr (w', pol, gam) \<longrightarrow> R w' \<and> Q w' \<Longrightarrow>
   Q v \<Longrightarrow>
   (i' = i \<and> v' = v \<and> \<not> (i < max_iter \<and> err > tol)) \<or> R v'"
proof (induction bcm u c tol max_iter verbose print_skip i err v pg out
    rule: value_iteration_loop.induct)
  case (1 bcm u c tol max_iter verbose print_skip i err v pg out)
  note run = "1.prems"(1) and step = "1.prems"(2) and q = "1.prems"(3)
  show ?case
  proof (cases "i < max_iter \<and> err > tol")
    case False
    with run show ?thesis by (simp add: value_iteration_loop.simps)
  next
    case True
    from run True obtain v_new policy gamma e where
      t: "T bcm v u c = Inr (v_new, policy, gamma)" and e: "sup_dist v v_new = Inr e"
      and vb: "\<not> (verbose \<and> print_skip = 0)"
      and rec: "value_iteration_loop bcm u c tol max_iter verbose print_skip (i + 1) e v_new
         (Some (policy, gamma))
         (if verbose \<and> (i + 1) mod print_skip = 0
          then out @ [Error_at_iteration (i + 1) e] else out) = (out', Inr (i', err', v', pg'))"
      by (subst (asm) value_iteration_loop.simps) (auto split: sum.splits if_splits prod.splits)
    from step q t have rq: "R v_new" "Q v_new" by blast+
    from "1.IH"[OF True t refl refl e vb rec step rq(2)] rq(1) show ?thesis by auto
  qed
qed

lemma value_iteration_sign:
  assumes run: "solve_model_value_iteration bcm par tol max_iter verbose print_skip
      = (out, Inr (v, policy, gamma))"
    and sh: "bcm_shapes bcm" and be: "0 \<le> beta bcm"
    and Pnn: "\<forall>s0<Ns bcm. \<forall>s1<Ns bcm. 0 \<le> P bcm ! s0 ! s1"
    and it: "0 < max_iter"
  shows "1 < sigma bcm \<Longrightarrow> \<forall>a<Na bcm. \<forall>s<Ns bcm. v ! a ! s < 0"
    and "sigma bcm < 1 \<Longrightarrow> \<forall>c u. util bcm = Inr (c, u) \<longrightarrow>
           (\<forall>a0<Na bcm. \<forall>s0<Ns bcm. c ! a0 ! s0 ! 0 > 0) \<Longrightarrow>
         \<forall>a<Na bcm. \<forall>s<Ns bcm. 0 < v ! a ! s"
proof -
  from run obtain c u where r: "util bcm = Inr (c, u)"
    by (auto simp: solve_model_value_iteration_def Let_def split: sum.splits prod.splits)
  from run r obtain out' i err pg where
    loop: "value_iteration_loop bcm u c tol max_iter verbose print_skip 0 (tol + 1)
        (zeros2 (Na bcm) (Ns bcm)) None
        (if verbose then [Print ''Solve model with value function iteration.''] else [])
      = (out', Inr (i, err, v, pg))"
    by (auto simp: solve_model_value_iteration_def Let_def
        split: sum.splits prod.splits option.splits if_splits)
  have z: "zeros2 (Na bcm) (Ns bcm) ! a ! s = 0" if "a < Na bcm" "s < Ns bcm" for a s
    using that by (simp add: zeros2_def)
  have go: "0 < max_iter \<and> tol + 1 > tol" using it by simp
  show "\<forall>a<Na bcm. \<forall>s<Ns bcm. v ! a ! s < 0" if sig: "1 < sigma bcm"
  proof -
    let ?Q = "\<lambda>w. shape2 (Na bcm) (Ns bcm) w \<and> (\<forall>a<Na bcm. \<forall>s<Ns bcm. w ! a ! s \<le> 0)"
    let ?R = "\<lambda>w. \<forall>a<Na bcm. \<forall>s<Ns bcm. w ! a ! s < 0"
    have step: "\<forall>w w' pol gam. ?Q w \<longrightarrow> T bcm w u c = Inr (w', pol, gam) \<longrightarrow> ?R w' \<and> ?Q w'"
    proof (intro allI impI)
      fix w w' pol gam
      assume q: "?Q w" and t: "T bcm w u c = Inr (w', pol, gam)"
      from q have shw: "shape2 (Na bcm) (Ns bcm) w"
        and w: "\<forall>a<Na bcm. \<forall>s<Ns bcm. w ! a ! s \<le> 0" by simp_all
      have neg: "w' ! a ! s < 0" if "a < Na bcm" "s < Ns bcm" for a s
        by (rule T_negative[OF t r sh shw sig be Pnn w that])
      have "w' ! a ! s \<le> 0" if "a < Na bcm" "s < Ns bcm" for a s
        using neg[OF that] by simp
      with neg T_cells(1)[OF t shw] show "?R w' \<and> ?Q w'" by blast
    qed
    have q0: "?Q (zeros2 (Na bcm) (Ns bcm))" using z by (simp add: shape2_zeros2)
    from value_iteration_loop_sweeps[where Q = ?Q and R = ?R, OF loop step q0] go
    show ?thesis by blast
  qed
  show "\<forall>a<Na bcm. \<forall>s<Ns bcm. 0 < v ! a ! s"
    if sig: "sigma bcm < 1"
      and feas': "\<forall>c u. util bcm = Inr (c, u) \<longrightarrow> (\<forall>a0<Na bcm. \<forall>s0<Ns bcm. c ! a0 ! s0 ! 0 > 0)"
  proof -
    from feas' r have feas: "\<forall>a0<Na bcm. \<forall>s0<Ns bcm. c ! a0 ! s0 ! 0 > 0" by blast
    let ?Q = "\<lambda>w. shape2 (Na bcm) (Ns bcm) w \<and> (\<forall>a<Na bcm. \<forall>s<Ns bcm. 0 \<le> w ! a ! s)"
    let ?R = "\<lambda>w. \<forall>a<Na bcm. \<forall>s<Ns bcm. 0 < w ! a ! s"
    have step: "\<forall>w w' pol gam. ?Q w \<longrightarrow> T bcm w u c = Inr (w', pol, gam) \<longrightarrow> ?R w' \<and> ?Q w'"
    proof (intro allI impI)
      fix w w' pol gam
      assume q: "?Q w" and t: "T bcm w u c = Inr (w', pol, gam)"
      from q have shw: "shape2 (Na bcm) (Ns bcm) w"
        and w: "\<forall>a<Na bcm. \<forall>s<Ns bcm. 0 \<le> w ! a ! s" by simp_all
      have pos: "0 < w' ! a ! s" if "a < Na bcm" "s < Ns bcm" for a s
        by (rule T_positive[OF t r sh shw sig be Pnn feas w that])
      have "0 \<le> w' ! a ! s" if "a < Na bcm" "s < Ns bcm" for a s
        using pos[OF that] by simp
      with pos T_cells(1)[OF t shw] show "?R w' \<and> ?Q w'" by blast
    qed
    have q0: "?Q (zeros2 (Na bcm) (Ns bcm))" using z by (simp add: shape2_zeros2)
    from value_iteration_loop_sweeps[where Q = ?Q and R = ?R, OF loop step q0] go
    show ?thesis by blast
  qed
qed


text \<open>The mass function stays nonnegative under a sweep of \<open>dist_iter\<close>.\<close>

lemma py_index_less: "py_index n i = Inr a \<Longrightarrow> a < n"
  by (auto simp: py_index_def split: if_splits)

lemma dist_iter_nonneg:
  assumes run: "dist_iter bcm policy pmf = Inr pmf_new"
    and sh: "shape2 (Na bcm) (Ns bcm) pmf"
    and Pnn: "\<forall>s0<Ns bcm. \<forall>s1<Ns bcm. 0 \<le> P bcm ! s0 ! s1"
    and nn: "\<forall>a<Na bcm. \<forall>s<Ns bcm. 0 \<le> pmf ! a ! s"
  shows "\<forall>a<Na bcm. \<forall>s<Ns bcm. 0 \<le> pmf_new ! a ! s"
proof -
  let ?Inv = "\<lambda>(pre :: (nat \<times> nat \<times> nat) list) st.
      shape2 (Na bcm) (Ns bcm) st \<and> (\<forall>a<Na bcm. \<forall>s<Ns bcm. 0 \<le> st ! a ! s)"
  have "?Inv (List.product [0..<Na bcm] (List.product [0..<Ns bcm] [0..<Ns bcm])) pmf_new"
  proof (rule for_loop_invariant[where Inv = ?Inv, OF run[unfolded dist_iter_flat]])
    have "zeros_like pmf ! a ! s = 0" if "a < Na bcm" "s < Ns bcm" for a s
      using that sh by (simp add: zeros_like_def shape2_length shape2_nth)
    then show "?Inv [] (zeros_like pmf)" by (simp add: shape2_zeros_like[OF sh])
  next
    fix pre x st st'
    assume x: "x \<in> set (List.product [0..<Na bcm] (List.product [0..<Ns bcm] [0..<Ns bcm]))"
      and inv: "?Inv pre st"
      and body: "(case x of (a0, s0, s1) \<Rightarrow> dist_iter_body bcm policy pmf a0 s0 s1) st = Inr st'"
    obtain a0 s0 s1 where xe: "x = (a0, s0, s1)" by (cases x)
    from x xe have b: "a0 < Na bcm" "s0 < Ns bcm" "s1 < Ns bcm" by auto
    from inv have shs: "shape2 (Na bcm) (Ns bcm) st"
      and st: "\<forall>a<Na bcm. \<forall>s<Ns bcm. 0 \<le> st ! a ! s" by simp_all
    from body xe obtain a1 where
      ix: "py_index (length st) (policy ! a0 ! s0) = Inr a1"
      and st': "st' = set2 st a1 s1 (st ! a1 ! s1 + P bcm ! s0 ! s1 * pmf ! a0 ! s0)"
      by (auto simp: dist_iter_body_def split: sum.splits)
    from py_index_less[OF ix] shape2_length[OF shs] have a1: "a1 < Na bcm" by simp
    from Pnn nn b have "0 \<le> P bcm ! s0 ! s1 * pmf ! a0 ! s0" by simp
    with st a1 b(3) have new: "0 \<le> st ! a1 ! s1 + P bcm ! s0 ! s1 * pmf ! a0 ! s0" by simp
    from st new have "\<forall>a<Na bcm. \<forall>s<Ns bcm. 0 \<le> st' ! a ! s"
      unfolding st' by (simp add: nth_set2[OF shs a1 b(3)])
    with shape2_set2[OF shs] show "?Inv (pre @ [x]) st'" unfolding st' by simp
  qed
  then show ?thesis by simp
qed

lemma invariant_dist_loop_nonneg:
  "invariant_dist_loop bcm policy tol max_iter verbose print_skip i err pmf out
     = (out', Inr (i', pmf')) \<Longrightarrow>
   \<forall>s0<Ns bcm. \<forall>s1<Ns bcm. 0 \<le> P bcm ! s0 ! s1 \<Longrightarrow>
   shape2 (Na bcm) (Ns bcm) pmf \<Longrightarrow> \<forall>a<Na bcm. \<forall>s<Ns bcm. 0 \<le> pmf ! a ! s \<Longrightarrow>
   \<forall>a<Na bcm. \<forall>s<Ns bcm. 0 \<le> pmf' ! a ! s"
proof (induction bcm policy tol max_iter verbose print_skip i err pmf out
    rule: invariant_dist_loop.induct)
  case (1 bcm policy tol max_iter verbose print_skip i err pmf out)
  note run = "1.prems"(1) and Pnn = "1.prems"(2) and sh = "1.prems"(3) and nn = "1.prems"(4)
  show ?case
  proof (cases "i < max_iter \<and> err > tol")
    case False
    with run nn show ?thesis by (simp add: invariant_dist_loop.simps)
  next
    case True
    from run True obtain pmf_new e where
      s: "dist_iter bcm policy pmf = Inr pmf_new" and e: "sup_dist pmf pmf_new = Inr e"
      and vb: "\<not> (verbose \<and> print_skip = 0)"
      and rec: "invariant_dist_loop bcm policy tol max_iter verbose print_skip (i + 1) e pmf_new
         (if verbose \<and> (i + 1) mod print_skip = 0
          then out @ [Error_at_iteration (i + 1) e] else out) = (out', Inr (i', pmf'))"
      by (subst (asm) invariant_dist_loop.simps) (auto split: sum.splits if_splits)
    from "1.IH"[OF True s e vb rec Pnn dist_iter_shape[OF s sh] dist_iter_nonneg[OF s sh Pnn nn]]
    show ?thesis .
  qed
qed

lemma sum2_double_sum:
  assumes "shape2 n m A"
  shows "sum2 A = (\<Sum>a<n. \<Sum>s<m. A ! a ! s)"
proof -
  have len: "length A = n" using assms by (simp add: shape2_length)
  have "sum2 A = sum_list (map sum_list A)" by (simp add: sum2_def sum_list_concat_real)
  also have "\<dots> = (\<Sum>a<n. sum_list (A ! a))"
    using len by (simp add: sum_list_sum_nth atLeast0LessThan)
  also have "\<dots> = (\<Sum>a<n. \<Sum>s<m. A ! a ! s)"
  proof (rule sum.cong[OF refl])
    fix a assume "a \<in> {..<n}"
    then have "length (A ! a) = m" using shape2_nth[OF assms] by simp
    then show "sum_list (A ! a) = (\<Sum>s<m. A ! a ! s)"
      by (simp add: sum_list_sum_nth atLeast0LessThan)
  qed
  finally show ?thesis .
qed

text \<open>A mean of positive numbers under nonnegative weights of sum 1 is positive.\<close>

lemma weighted_sum_positive:
  fixes p v :: "nat \<Rightarrow> nat \<Rightarrow> real"
  assumes nn: "\<forall>a<n. \<forall>s<m. 0 \<le> p a s" and pos: "\<forall>a<n. \<forall>s<m. 0 < v a s"
    and one: "(\<Sum>a<n. \<Sum>s<m. p a s) = 1"
  shows "0 < (\<Sum>a<n. \<Sum>s<m. p a s * v a s)"
proof -
  have prod: "0 \<le> p a s * v a s" if "a < n" "s < m" for a s
    using nn pos that by (intro mult_nonneg_nonneg) (auto intro: less_imp_le)
  have inner: "0 \<le> (\<Sum>s<m. p a s * v a s)" if "a < n" for a
    by (rule sum_nonneg) (simp add: prod[OF that])
  have ge: "0 \<le> (\<Sum>a<n. \<Sum>s<m. p a s * v a s)"
    by (rule sum_nonneg) (simp add: inner)
  have "(\<Sum>a<n. \<Sum>s<m. p a s * v a s) \<noteq> 0"
  proof
    assume z: "(\<Sum>a<n. \<Sum>s<m. p a s * v a s) = 0"
    have rows: "\<forall>a\<in>{..<n}. (\<Sum>s<m. p a s * v a s) = 0"
      using z inner by (subst (asm) sum_nonneg_eq_0_iff) simp_all
    have "p a s * v a s = 0" if b: "a < n" "s < m" for a s
    proof -
      from rows b(1) have "(\<Sum>s<m. p a s * v a s) = 0" by simp
      moreover have "\<forall>s\<in>{..<m}. 0 \<le> p a s * v a s" using prod[OF b(1)] by simp
      ultimately have "\<forall>s\<in>{..<m}. p a s * v a s = 0"
        by (subst (asm) sum_nonneg_eq_0_iff) simp_all
      with b(2) show ?thesis by simp
    qed
    with pos have "\<forall>a<n. \<forall>s<m. p a s = 0" by force
    then have "(\<Sum>a<n. \<Sum>s<m. p a s) = 0" by simp
    with one show False by simp
  qed
  with ge show ?thesis by simp
qed

lemma weighted_sum_negative:
  fixes p v :: "nat \<Rightarrow> nat \<Rightarrow> real"
  assumes nn: "\<forall>a<n. \<forall>s<m. 0 \<le> p a s" and neg: "\<forall>a<n. \<forall>s<m. v a s < 0"
    and one: "(\<Sum>a<n. \<Sum>s<m. p a s) = 1"
  shows "(\<Sum>a<n. \<Sum>s<m. p a s * v a s) < 0"
proof -
  from neg have "\<forall>a<n. \<forall>s<m. 0 < - v a s" by simp
  from weighted_sum_positive[OF nn this one]
  show ?thesis by (simp add: sum_negf)
qed


text \<open>
  The expected lifetime utility of an economy of \<open>compute_consumption_loss\<close>: the call
  returns it, and its sign is the sign of the utility function.
\<close>

lemma default_model_runs:
  assumes "0 \<le> a_max'" "0 < Na'"
  shows "\<exists>out bcm V. expected_value sigma' a_max' Na' bc = (out, Inr (bcm, V))"
proof -
  have h: "(6::real) \<noteq> 0" "(0::real) < 1 + 0.08" by simp_all
  from assms(2) have "0 \<le> Na'" by simp
  with linspace_total obtain xs where "linspace 0 a_max' Na' = Inr xs" by blast
  then obtain bcm where
    "BusinessCycleModel_init 6 0 0.08 1 0.25 0.995 sigma' bc a_max' 0 Na' = Inr bcm"
    by (simp add: BusinessCycleModel_init_def py_pow_def Let_def)
  then have m: "BusinessCycleModel_default sigma' bc a_max' 0 Na' = Inr bcm"
    by (simp add: BusinessCycleModel_default_def)
  note p = default_model_props[OF m]
  from p(2) assms(2) have na: "0 < Na bcm" by simp
  from p(8) obtain c u where r: "util bcm = Inr (c, u)" by blast
  have feas: "\<forall>a0<Na bcm. \<forall>s0<Ns bcm. \<exists>j<Na bcm. c ! a0 ! s0 ! j > 0"
    using p(9)[OF assms r] na by blast
  have Ttot: "\<forall>w. shape2 (Na bcm) (Ns bcm) w \<longrightarrow> (\<exists>r. T bcm w u c = Inr r)"
    using T_total_feasible[OF r feas] by blast
  from value_iteration_loop_total[OF Ttot na p(3) _ shape2_zeros2, of False "1 / 10 ^ 5" 5000 100
      0 "1 / 10 ^ 5 + 1" None "[]"]
  obtain o1 i err v pg where
    loop: "value_iteration_loop bcm u c (1 / 10 ^ 5) 5000 False 100 0 (1 / 10 ^ 5 + 1)
       (zeros2 (Na bcm) (Ns bcm)) None [] = (o1, Inr (i, err, v, pg))"
    by (metis prod_cases4)
  from value_iteration_loop_shapes[OF loop shape2_zeros2] obtain policy gamma where
    pg: "pg = Some (policy, gamma)" by auto
  from loop pg r have "\<exists>ou. solve_model_value_iteration bcm True (1 / 10 ^ 5) 5000 False 100
      = (ou, Inr (v, astype_int policy, gamma))"
    by (simp add: solve_model_value_iteration_def Let_def)
  then obtain o1' where vi: "solve_model_value_iteration bcm True (1 / 10 ^ 5) 5000 False 100
      = (o1', Inr (v, astype_int policy, gamma))" by blast
  note res = value_iteration_result[OF vi p(1)]
  from p(1) have Psh: "shape2 (Ns bcm) (Ns bcm) (P bcm)" by (simp add: bcm_shapes_def)
  from invariant_dist_loop_total[OF Psh p(7) res(3) na p(3) _ uniform_pmf_props(1)[OF res(2)],
      of False "1 / 10 ^ 7" 2000 50 0 "1 + 1 / 10 ^ 7" "[]"]
  obtain o2 i2 pmf where
    dloop: "invariant_dist_loop bcm (astype_int policy) (1 / 10 ^ 7) 2000 False 50 0
       (1 + 1 / 10 ^ 7) (uniform_pmf bcm (astype_int policy)) [] = (o2, Inr (i2, pmf))"
    by (metis prod.exhaust)
  from dloop na p(3) have "\<exists>ou. solve_invariant_dist bcm (astype_int policy) (1 / 10 ^ 7) 2000 False 50
      = (ou, Inr pmf)"
    by (simp add: solve_invariant_dist_def uniform_pmf_def Let_def)
  then obtain o2' where di: "solve_invariant_dist bcm (astype_int policy) (1 / 10 ^ 7) 2000 False 50
      = (o2', Inr pmf)" by blast
  from m vi di show ?thesis by (simp add: expected_value_def)
qed

lemma expected_value_sign:
  assumes ev: "expected_value sigma' a_max' Na' bc = (out, Inr (bcm, V))"
  shows "1 < sigma' \<Longrightarrow> V < 0" and "sigma' < 1 \<Longrightarrow> 0 \<le> a_max' \<Longrightarrow> 0 < V"
proof -
  from expected_value_result[OF ev] obtain v policy gamma pmf out1 out2 where
    m: "BusinessCycleModel_default sigma' bc a_max' 0 Na' = Inr bcm"
    and vi: "solve_model_value_iteration bcm True (1 / 10 ^ 5) 5000 False 100
       = (out1, Inr (v, policy, gamma))"
    and di: "solve_invariant_dist bcm policy (1 / 10 ^ 7) 2000 False 50 = (out2, Inr pmf)"
    and V: "V = expected_lifetime_utility bcm pmf v" by blast
  note p = default_model_props[OF m]
  note res = value_iteration_result[OF vi p(1)]
  from p(1) have Psh: "shape2 (Ns bcm) (Ns bcm) (P bcm)" by (simp add: bcm_shapes_def)
  from p(5) have be: "0 \<le> beta bcm" by simp
  have it: "(0::int) < 5000" by simp
  from di have cells: "0 < Na bcm * Ns bcm"
    by (auto simp: solve_invariant_dist_def split: if_splits)
  with p(2) have n: "0 < Na'" by (cases "0 < Na'") simp_all
  from di obtain out' i' where
    loop: "invariant_dist_loop bcm policy (1 / 10 ^ 7) 2000 False 50 0 (1 + 1 / 10 ^ 7)
       (uniform_pmf bcm policy) [] = (out', Inr (i', pmf))"
    by (auto simp: solve_invariant_dist_def uniform_pmf_def Let_def
        split: if_splits prod.splits sum.splits)
  note shu = uniform_pmf_props(1)[OF res(2)]
  from invariant_dist_loop_mass[OF loop Psh p(7) res(3) shu] uniform_pmf_props(2)[OF res(2) cells]
  have mass: "sum2 pmf = 1" by simp
  have "0 \<le> uniform_pmf bcm policy ! a ! s" if "a < Na bcm" "s < Ns bcm" for a s
    using that shape2_length[OF res(2)] shape2_nth[OF res(2) that(1)]
    by (simp add: uniform_pmf_def)
  then have "\<forall>a<Na bcm. \<forall>s<Ns bcm. 0 \<le> uniform_pmf bcm policy ! a ! s" by blast
  from invariant_dist_loop_nonneg[OF loop p(6) shu this]
  have nn: "\<forall>a<Na bcm. \<forall>s<Ns bcm. 0 \<le> pmf ! a ! s" .
  note shp = invariant_dist_loop_shape[OF loop shu]
  from sum2_double_sum[OF shp] mass have one: "(\<Sum>a<Na bcm. \<Sum>s<Ns bcm. pmf ! a ! s) = 1"
    by simp
  show "V < 0" if "1 < sigma'"
  proof -
    from that p(4) have "1 < sigma bcm" by simp
    from value_iteration_sign(1)[OF vi p(1) be p(6) it this]
    have "\<forall>a<Na bcm. \<forall>s<Ns bcm. v ! a ! s < 0" .
    from weighted_sum_negative[OF nn this one] show ?thesis
      by (simp add: V expected_lifetime_utility_def)
  qed
  show "0 < V" if "sigma' < 1" and a: "0 \<le> a_max'"
  proof -
    from that p(4) have sig: "sigma bcm < 1" by simp
    have feas: "\<forall>c u. util bcm = Inr (c, u) \<longrightarrow> (\<forall>a0<Na bcm. \<forall>s0<Ns bcm. c ! a0 ! s0 ! 0 > 0)"
      using p(9)[OF a n] by blast
    from value_iteration_sign(2)[OF vi p(1) be p(6) it sig feas]
    have "\<forall>a<Na bcm. \<forall>s<Ns bcm. 0 < v ! a ! s" .
    from weighted_sum_positive[OF nn this one] show ?thesis
      by (simp add: V expected_lifetime_utility_def)
  qed
qed

text \<open>
  When the two sums have one sign, the quotient is positive and the float power is the
  real power.  A zero \<open>v_bc\<close> would not raise: the quotient is an infinity, and for
  \<open>sigma = 1.5\<close> its power is 0.
\<close>

lemma consumption_loss_mu_regular:
  assumes "sigma' \<noteq> 1" and "0 < v_nbc / v_bc"
  shows "consumption_loss_mu sigma' beta' v_nbc v_bc
     = Finite ((v_nbc / v_bc) powr (1 / (1 - sigma')) - 1)"
proof -
  from assms(2) have "v_bc \<noteq> 0" by auto
  with assms show ?thesis by (simp add: consumption_loss_mu_def fl_div_def fl_sub_def)
qed

lemma consumption_loss_mu_log:
  "consumption_loss_mu 1 beta' v_nbc v_bc = Finite (exp ((v_nbc - v_bc) * (1 - beta')) - 1)"
  by (simp add: consumption_loss_mu_def powr_def)

lemma consumption_loss_mu_zero_divisor:
  "consumption_loss_mu (3 / 2) beta' (- 1) 0 = Finite (- 1)"
  by (simp add: consumption_loss_mu_def fl_div_def fl_sub_def)

text \<open>
  Claim C4.  When \<open>compute_consumption_loss\<close> returns, each economy has been solved by the
  value iteration and the stationary-distribution iteration, its expected lifetime
  utility is \<open>V = \<Sum> pmf(a, s) * v(a, s)\<close> over the whole grid, and the call returns
  \<open>exp ((V_nbc - V_bc) * (1 - beta)) - 1\<close> for \<open>sigma = 1\<close> and the float
  \<open>(V_nbc / V_bc) ** (1 / (1 - sigma)) - 1\<close> for \<open>sigma \<noteq> 1\<close>, \<open>V_nbc\<close> being the economy
  without and \<open>V_bc\<close> the economy with aggregate risk.  For \<open>sigma > 1\<close>, and for \<open>sigma < 1\<close>
  on a grid with \<open>a_max \<ge> 0\<close>, the two sums have one sign: the quotient is positive and
  the result is the real number \<open>(V_nbc / V_bc) powr (1 / (1 - sigma)) - 1\<close>.  For
  \<open>a_max \<ge> 0\<close> and \<open>Na > 0\<close> the call does return.
\<close>

theorem consumption_loss_formula:
  "(0 \<le> a_max' \<longrightarrow> 0 < Na' \<longrightarrow>
      (\<exists>out mu. compute_consumption_loss sigma' a_max' Na' = (out, Inr mu))) \<and>
   (compute_consumption_loss sigma' a_max' Na' = (out, Inr mu) \<longrightarrow>
      (\<exists>bc nbc v_bc policy_bc gamma_bc pmf_bc v_nbc policy_nbc gamma_nbc pmf_nbc
          out1 out2 out3 out4.
         BusinessCycleModel_default sigma' True a_max' 0 Na' = Inr bc \<and>
         solve_model_value_iteration bc True (1 / 10 ^ 5) 5000 False 100
           = (out1, Inr (v_bc, policy_bc, gamma_bc)) \<and>
         solve_invariant_dist bc policy_bc (1 / 10 ^ 7) 2000 False 50 = (out2, Inr pmf_bc) \<and>
         BusinessCycleModel_default sigma' False a_max' 0 Na' = Inr nbc \<and>
         solve_model_value_iteration nbc True (1 / 10 ^ 5) 5000 False 100
           = (out3, Inr (v_nbc, policy_nbc, gamma_nbc)) \<and>
         solve_invariant_dist nbc policy_nbc (1 / 10 ^ 7) 2000 False 50 = (out4, Inr pmf_nbc) \<and>
         out = out1 @ out2 @ out3 @ out4 \<and>
         (sigma' = 1 \<longrightarrow>
            mu = Finite (exp ((expected_lifetime_utility nbc pmf_nbc v_nbc
                               - expected_lifetime_utility bc pmf_bc v_bc) * (1 - beta bc)) - 1)) \<and>
         (sigma' \<noteq> 1 \<longrightarrow>
            mu = fl_sub (fl_pow (fl_div (expected_lifetime_utility nbc pmf_nbc v_nbc)
                                        (expected_lifetime_utility bc pmf_bc v_bc))
                                (1 / (1 - sigma'))) (Finite 1)) \<and>
         (1 < sigma' \<or> sigma' < 1 \<and> 0 \<le> a_max' \<longrightarrow>
            0 < expected_lifetime_utility nbc pmf_nbc v_nbc
                  / expected_lifetime_utility bc pmf_bc v_bc \<and>
            mu = Finite ((expected_lifetime_utility nbc pmf_nbc v_nbc
                           / expected_lifetime_utility bc pmf_bc v_bc) powr (1 / (1 - sigma'))
                         - 1))))"
proof (intro conjI impI)
  assume pre: "0 \<le> a_max'" "0 < Na'"
  from default_model_runs[OF pre, of sigma' True] obtain o1 bc V_bc where
    e1: "expected_value sigma' a_max' Na' True = (o1, Inr (bc, V_bc))" by blast
  from default_model_runs[OF pre, of sigma' False] obtain o2 nbc V_nbc where
    e2: "expected_value sigma' a_max' Na' False = (o2, Inr (nbc, V_nbc))" by blast
  show "\<exists>out mu. compute_consumption_loss sigma' a_max' Na' = (out, Inr mu)"
    by (simp add: compute_consumption_loss_def e1 e2)
next
  assume run: "compute_consumption_loss sigma' a_max' Na' = (out, Inr mu)"
  then obtain o1 o2 bc V_bc nbc V_nbc where
    e1: "expected_value sigma' a_max' Na' True = (o1, Inr (bc, V_bc))"
    and e2: "expected_value sigma' a_max' Na' False = (o2, Inr (nbc, V_nbc))"
    and mu: "mu = consumption_loss_mu sigma' (beta bc) V_nbc V_bc" and out: "out = o1 @ o2"
    by (auto simp: compute_consumption_loss_def split: sum.splits prod.splits)
  from expected_value_result[OF e1] obtain v_bc policy_bc gamma_bc pmf_bc out1 out2 where
    a: "BusinessCycleModel_default sigma' True a_max' 0 Na' = Inr bc"
      "solve_model_value_iteration bc True (1 / 10 ^ 5) 5000 False 100
         = (out1, Inr (v_bc, policy_bc, gamma_bc))"
      "solve_invariant_dist bc policy_bc (1 / 10 ^ 7) 2000 False 50 = (out2, Inr pmf_bc)"
      "V_bc = expected_lifetime_utility bc pmf_bc v_bc" "o1 = out1 @ out2" by blast
  from expected_value_result[OF e2] obtain v_nbc policy_nbc gamma_nbc pmf_nbc out3 out4 where
    b: "BusinessCycleModel_default sigma' False a_max' 0 Na' = Inr nbc"
      "solve_model_value_iteration nbc True (1 / 10 ^ 5) 5000 False 100
         = (out3, Inr (v_nbc, policy_nbc, gamma_nbc))"
      "solve_invariant_dist nbc policy_nbc (1 / 10 ^ 7) 2000 False 50 = (out4, Inr pmf_nbc)"
      "V_nbc = expected_lifetime_utility nbc pmf_nbc v_nbc" "o2 = out3 @ out4" by blast
  from out a(5) b(5) have o: "out = out1 @ out2 @ out3 @ out4" by simp
  have log_case: "mu = Finite (exp ((V_nbc - V_bc) * (1 - beta bc)) - 1)" if "sigma' = 1"
    using that by (simp add: mu consumption_loss_mu_log)
  have pow_case: "mu = fl_sub (fl_pow (fl_div V_nbc V_bc) (1 / (1 - sigma'))) (Finite 1)"
    if "sigma' \<noteq> 1"
    using that by (simp add: mu consumption_loss_mu_def)
  have real_case: "0 < V_nbc / V_bc \<and> mu = Finite ((V_nbc / V_bc) powr (1 / (1 - sigma')) - 1)"
    if s: "1 < sigma' \<or> sigma' < 1 \<and> 0 \<le> a_max'"
  proof -
    have q: "0 < V_nbc / V_bc"
    proof (cases "1 < sigma'")
      case True
      from expected_value_sign(1)[OF e1 True] expected_value_sign(1)[OF e2 True]
      show ?thesis by (rule divide_neg_neg[rotated])
    next
      case False
      with s have lt: "sigma' < 1" and am: "0 \<le> a_max'" by simp_all
      from expected_value_sign(2)[OF e2 lt am] expected_value_sign(2)[OF e1 lt am]
      show ?thesis by (rule divide_pos_pos)
    qed
    from s have "sigma' \<noteq> 1" by auto
    from consumption_loss_mu_regular[OF this q] q show ?thesis by (simp add: mu)
  qed
  from a(1-3) b(1-3) o log_case pow_case real_case
  show "\<exists>bc nbc v_bc policy_bc gamma_bc pmf_bc v_nbc policy_nbc gamma_nbc pmf_nbc
          out1 out2 out3 out4.
         BusinessCycleModel_default sigma' True a_max' 0 Na' = Inr bc \<and>
         solve_model_value_iteration bc True (1 / 10 ^ 5) 5000 False 100
           = (out1, Inr (v_bc, policy_bc, gamma_bc)) \<and>
         solve_invariant_dist bc policy_bc (1 / 10 ^ 7) 2000 False 50 = (out2, Inr pmf_bc) \<and>
         BusinessCycleModel_default sigma' False a_max' 0 Na' = Inr nbc \<and>
         solve_model_value_iteration nbc True (1 / 10 ^ 5) 5000 False 100
           = (out3, Inr (v_nbc, policy_nbc, gamma_nbc)) \<and>
         solve_invariant_dist nbc policy_nbc (1 / 10 ^ 7) 2000 False 50 = (out4, Inr pmf_nbc) \<and>
         out = out1 @ out2 @ out3 @ out4 \<and>
         (sigma' = 1 \<longrightarrow>
            mu = Finite (exp ((expected_lifetime_utility nbc pmf_nbc v_nbc
                               - expected_lifetime_utility bc pmf_bc v_bc) * (1 - beta bc)) - 1)) \<and>
         (sigma' \<noteq> 1 \<longrightarrow>
            mu = fl_sub (fl_pow (fl_div (expected_lifetime_utility nbc pmf_nbc v_nbc)
                                        (expected_lifetime_utility bc pmf_bc v_bc))
                                (1 / (1 - sigma'))) (Finite 1)) \<and>
         (1 < sigma' \<or> sigma' < 1 \<and> 0 \<le> a_max' \<longrightarrow>
            0 < expected_lifetime_utility nbc pmf_nbc v_nbc
                  / expected_lifetime_utility bc pmf_bc v_bc \<and>
            mu = Finite ((expected_lifetime_utility nbc pmf_nbc v_nbc
                           / expected_lifetime_utility bc pmf_bc v_bc) powr (1 / (1 - sigma'))
                         - 1))"
    unfolding a(4) b(4) by blast
qed

text \<open>The two calls of the notebook, and a call with log utility.\<close>

theorem consumption_loss_formula_witness:
  "(\<exists>out bc nbc v_bc pmf_bc v_nbc pmf_nbc.
      BusinessCycleModel_default (3 / 2) True 8 0 301 = Inr bc \<and>
      BusinessCycleModel_default (3 / 2) False 8 0 301 = Inr nbc \<and>
      0 < expected_lifetime_utility nbc pmf_nbc v_nbc / expected_lifetime_utility bc pmf_bc v_bc \<and>
      compute_consumption_loss (3 / 2) 8 301 =
        (out, Inr (Finite ((expected_lifetime_utility nbc pmf_nbc v_nbc
                     / expected_lifetime_utility bc pmf_bc v_bc) powr (- 2) - 1)))) \<and>
   (\<exists>out bc nbc v_bc pmf_bc v_nbc pmf_nbc.
      BusinessCycleModel_default (31 / 5) True 16 0 601 = Inr bc \<and>
      BusinessCycleModel_default (31 / 5) False 16 0 601 = Inr nbc \<and>
      0 < expected_lifetime_utility nbc pmf_nbc v_nbc / expected_lifetime_utility bc pmf_bc v_bc \<and>
      compute_consumption_loss (31 / 5) 16 601 =
        (out, Inr (Finite ((expected_lifetime_utility nbc pmf_nbc v_nbc
                     / expected_lifetime_utility bc pmf_bc v_bc) powr (- (5 / 26)) - 1)))) \<and>
   (\<exists>out bc nbc v_bc pmf_bc v_nbc pmf_nbc.
      BusinessCycleModel_default 1 True 8 0 2 = Inr bc \<and>
      BusinessCycleModel_default 1 False 8 0 2 = Inr nbc \<and>
      compute_consumption_loss 1 8 2 =
        (out, Inr (Finite (exp ((expected_lifetime_utility nbc pmf_nbc v_nbc
                     - expected_lifetime_utility bc pmf_bc v_bc) * (1 - beta bc)) - 1))))"
proof -
  have a: "(0::real) \<le> 8" "(0::int) < 301" "(0::int) < 2" "(0::real) \<le> 16" "(0::int) < 601"
    by simp_all
  have e: "1 / (1 - 3 / 2) = (- 2 :: real)" "(1::real) < 3 / 2"
    "1 / (1 - 31 / 5) = (- (5 / 26) :: real)" "(1::real) < 31 / 5" by simp_all
  from consumption_loss_formula[where sigma' = "3 / 2" and a_max' = 8 and Na' = 301,
      THEN conjunct1, rule_format, OF a(1,2)]
  obtain out mu where run: "compute_consumption_loss (3 / 2) 8 301 = (out, Inr mu)" by blast
  from consumption_loss_formula[where sigma' = "3 / 2" and a_max' = 8 and Na' = 301,
      THEN conjunct2, rule_format, OF run] e(2)
  have "\<exists>bc nbc v_bc pmf_bc v_nbc pmf_nbc.
      BusinessCycleModel_default (3 / 2) True 8 0 301 = Inr bc \<and>
      BusinessCycleModel_default (3 / 2) False 8 0 301 = Inr nbc \<and>
      0 < expected_lifetime_utility nbc pmf_nbc v_nbc / expected_lifetime_utility bc pmf_bc v_bc \<and>
      mu = Finite ((expected_lifetime_utility nbc pmf_nbc v_nbc
                     / expected_lifetime_utility bc pmf_bc v_bc) powr (- 2) - 1)"
    unfolding e(1) by blast
  with run have first: "\<exists>out bc nbc v_bc pmf_bc v_nbc pmf_nbc.
      BusinessCycleModel_default (3 / 2) True 8 0 301 = Inr bc \<and>
      BusinessCycleModel_default (3 / 2) False 8 0 301 = Inr nbc \<and>
      0 < expected_lifetime_utility nbc pmf_nbc v_nbc / expected_lifetime_utility bc pmf_bc v_bc \<and>
      compute_consumption_loss (3 / 2) 8 301 =
        (out, Inr (Finite ((expected_lifetime_utility nbc pmf_nbc v_nbc
                     / expected_lifetime_utility bc pmf_bc v_bc) powr (- 2) - 1)))"
    by blast
  from consumption_loss_formula[where sigma' = "31 / 5" and a_max' = 16 and Na' = 601,
      THEN conjunct1, rule_format, OF a(4,5)]
  obtain out2 mu2 where run2: "compute_consumption_loss (31 / 5) 16 601 = (out2, Inr mu2)"
    by blast
  from consumption_loss_formula[where sigma' = "31 / 5" and a_max' = 16 and Na' = 601,
      THEN conjunct2, rule_format, OF run2] e(4)
  have "\<exists>bc nbc v_bc pmf_bc v_nbc pmf_nbc.
      BusinessCycleModel_default (31 / 5) True 16 0 601 = Inr bc \<and>
      BusinessCycleModel_default (31 / 5) False 16 0 601 = Inr nbc \<and>
      0 < expected_lifetime_utility nbc pmf_nbc v_nbc / expected_lifetime_utility bc pmf_bc v_bc \<and>
      mu2 = Finite ((expected_lifetime_utility nbc pmf_nbc v_nbc
                     / expected_lifetime_utility bc pmf_bc v_bc) powr (- (5 / 26)) - 1)"
    unfolding e(3) by blast
  with run2 have second: "\<exists>out bc nbc v_bc pmf_bc v_nbc pmf_nbc.
      BusinessCycleModel_default (31 / 5) True 16 0 601 = Inr bc \<and>
      BusinessCycleModel_default (31 / 5) False 16 0 601 = Inr nbc \<and>
      0 < expected_lifetime_utility nbc pmf_nbc v_nbc / expected_lifetime_utility bc pmf_bc v_bc \<and>
      compute_consumption_loss (31 / 5) 16 601 =
        (out, Inr (Finite ((expected_lifetime_utility nbc pmf_nbc v_nbc
                     / expected_lifetime_utility bc pmf_bc v_bc) powr (- (5 / 26)) - 1)))"
    by blast
  from consumption_loss_formula[where sigma' = 1 and a_max' = 8 and Na' = 2,
      THEN conjunct1, rule_format, OF a(1,3)]
  obtain out' mu' where run': "compute_consumption_loss 1 8 2 = (out', Inr mu')" by blast
  from consumption_loss_formula[where sigma' = 1 and a_max' = 8 and Na' = 2,
      THEN conjunct2, rule_format, OF run']
  have "\<exists>bc nbc v_bc pmf_bc v_nbc pmf_nbc.
      BusinessCycleModel_default 1 True 8 0 2 = Inr bc \<and>
      BusinessCycleModel_default 1 False 8 0 2 = Inr nbc \<and>
      mu' = Finite (exp ((expected_lifetime_utility nbc pmf_nbc v_nbc
                     - expected_lifetime_utility bc pmf_bc v_bc) * (1 - beta bc)) - 1)"
    by blast
  with run' have third: "\<exists>out bc nbc v_bc pmf_bc v_nbc pmf_nbc.
      BusinessCycleModel_default 1 True 8 0 2 = Inr bc \<and>
      BusinessCycleModel_default 1 False 8 0 2 = Inr nbc \<and>
      compute_consumption_loss 1 8 2 =
        (out, Inr (Finite (exp ((expected_lifetime_utility nbc pmf_nbc v_nbc
                     - expected_lifetime_utility bc pmf_bc v_bc) * (1 - beta bc)) - 1)))"
    by blast
  from first second third show ?thesis by blast
qed

end
